(* ===== verification/Prelude.thy ===== *)
theory Prelude
  imports Main
begin

text \<open>
  Shared vocabulary of the development.

  \<^item> Go strings and byte slices are byte sequences; a HOL \<open>char\<close> is one byte, so both are
    \<open>string\<close>. Where the code can observe the difference between a nil slice and an empty
    one (Kafka does: a nil key is a null key) a byte slice is the option type \<open>bytes\<close>.
  \<^item> Go's \<open>int\<close>, \<open>int64\<close> and \<open>time.Duration\<close> are \<open>int\<close> with the width written out
    where arithmetic happens: \<open>wrap64\<close> is two's-complement wrap-around and \<open>sat64\<close> the
    saturation that \<open>time.Time.Sub\<close> performs.
  \<^item> The \<open>go_simps\<close> collection holds the rules that take the sequencing of fallible calls
    apart (\<open>and_then\<close>, \<open>try_then\<close>, \<open>deferring\<close>): with them \<open>auto\<close> turns ``the function
    returned this'' into what each of its calls returned.
\<close>

named_theorems go_simps

section \<open>Byte slices\<close>

type_synonym bytes = "string option"

definition bytes_str :: "bytes \<Rightarrow> string" where
  "bytes_str b = (case b of None \<Rightarrow> '''' | Some s \<Rightarrow> s)"

definition bytes_len :: "bytes \<Rightarrow> nat" where
  "bytes_len b = length (bytes_str b)"

lemma bytes_str_simps [simp]: "bytes_str None = ''''" "bytes_str (Some s) = s"
  by (simp_all add: bytes_str_def)

lemma bytes_len_simps [simp]: "bytes_len None = 0" "bytes_len (Some s) = length s"
  by (simp_all add: bytes_len_def)

lemma bytes_len_0_iff: "bytes_len b = 0 \<longleftrightarrow> bytes_str b = ''''"
  by (simp add: bytes_len_def)

section \<open>Signed 64-bit integers\<close>

definition min_int64 :: int where
  "min_int64 = - 9223372036854775808"

definition max_int64 :: int where
  "max_int64 = 9223372036854775807"

definition in_int64 :: "int \<Rightarrow> bool" where
  "in_int64 x \<longleftrightarrow> min_int64 \<le> x \<and> x \<le> max_int64"

definition wrap64 :: "int \<Rightarrow> int" where
  "wrap64 x = (x + 9223372036854775808) mod 18446744073709551616 - 9223372036854775808"

definition sat64 :: "int \<Rightarrow> int" where
  "sat64 x = (if x < min_int64 then min_int64 else if max_int64 < x then max_int64 else x)"

lemma in_int64_wrap64: "in_int64 (wrap64 x)"
proof -
  have "0 \<le> (x + 9223372036854775808) mod 18446744073709551616"
    and "(x + 9223372036854775808) mod 18446744073709551616 < (18446744073709551616 :: int)"
    by simp_all
  then show ?thesis
    by (simp add: in_int64_def wrap64_def min_int64_def max_int64_def)
qed

lemma wrap64_id: "in_int64 x \<Longrightarrow> wrap64 x = x"
  by (simp add: in_int64_def wrap64_def min_int64_def max_int64_def)

lemma in_int64_sat64: "in_int64 (sat64 x)"
  by (simp add: in_int64_def sat64_def min_int64_def max_int64_def)

lemma sat64_id: "in_int64 x \<Longrightarrow> sat64 x = x"
  by (simp add: in_int64_def sat64_def)

section \<open>Lists\<close>

text \<open>\<open>find_index\<close> of a list as the pair of the first hit and its position, the shape of a
  Go loop \<open>for i, x := range xs { if p(x) { return ... } }\<close>.\<close>

fun first_match :: "nat \<Rightarrow> ('a \<Rightarrow> bool) \<Rightarrow> 'a list \<Rightarrow> (nat \<times> 'a) option" where
  "first_match i p [] = None"
| "first_match i p (x # xs) = (if p x then Some (i, x) else first_match (Suc i) p xs)"

lemma first_match_None_iff: "first_match i p xs = None \<longleftrightarrow> (\<forall>x \<in> set xs. \<not> p x)"
  by (induction xs arbitrary: i) auto

lemma first_match_SomeD:
  "first_match i p xs = Some (k, x) \<Longrightarrow>
     i \<le> k \<and> k - i < length xs \<and> xs ! (k - i) = x \<and> p x \<and> (\<forall>j < k - i. \<not> p (xs ! j))"
proof (induction xs arbitrary: i)
  case Nil
  then show ?case by simp
next
  case (Cons y ys)
  show ?case
  proof (cases "p y")
    case True
    with Cons.prems show ?thesis by simp
  next
    case False
    with Cons.prems have "first_match (Suc i) p ys = Some (k, x)" by simp
    from Cons.IH [OF this] have IH: "Suc i \<le> k" "k - Suc i < length ys" "ys ! (k - Suc i) = x"
      "p x" "\<forall>j < k - Suc i. \<not> p (ys ! j)" by auto
    have k: "k - i = Suc (k - Suc i)" using IH(1) by simp
    have "\<forall>j < k - i. \<not> p ((y # ys) ! j)"
      using IH(5) False by (simp add: k All_less_Suc2)
    with IH show ?thesis by (simp add: k)
  qed
qed

end
