(* ===== verification/GoErrors.thy ===== *)
theory GoErrors
  imports Prelude
begin

text \<open>
  Go errors and the outcomes of Go calls.

  \<^item> \<open>sentinel\<close> is the set of package-level error variables the program compares against:
    those of \<open>internal/service/errors.go\<close>, \<open>internal/service/publisher.go\<close>,
    \<open>internal/api/errors.go\<close>, the two of package \<open>context\<close> and \<open>http.ErrServerClosed\<close>.
  \<^item> \<open>goerr\<close> is an error value: a sentinel, an error of the Kafka client (a protocol code,
    or the aggregate \<open>WriteErrors\<close> with nil entries), the size error of
    \<open>http.MaxBytesReader\<close>, any other library error with what it unwraps to, or the result
    of \<open>fmt.Errorf\<close> with its format pieces (the piece \<open>W e\<close> is a \<open>%w\<close> verb).
  \<^item> \<open>errors_is\<close> and \<open>errors_as_write_errors\<close> are \<open>errors.Is\<close> and \<open>errors.As\<close>: a depth-first
    search of the wrapping tree, which a \<open>WriteErrors\<close> value ends.
  \<^item> \<open>error_text\<close> is \<open>err.Error()\<close> as the sequence of its formatted atoms; a \<open>%q\<close> or \<open>%s\<close> of a
    library value is kept as an atom and not rendered into characters.
  \<^item> \<open>outcome\<close> is what a call gives back: a value with a nil error, a non-nil error, or a
    panic that unwinds to the \<open>Recoverer\<close> middleware.
\<close>

datatype sentinel =
    ErrEmptyTopic | ErrNoMessages | ErrEmptyValue
  | ErrTopicNotFound | ErrInvalidQuery
  | ErrBadRequest
  | DeadlineExceeded | Canceled
  | ServerClosed

datatype atom =
    Lit string        \<comment> \<open>literal text\<close>
  | Quo string        \<comment> \<open>\<open>%q\<close> of a string\<close>
  | Num int           \<comment> \<open>\<open>%d\<close>\<close>
  | Dur int           \<comment> \<open>\<open>%s\<close> of a \<open>time.Duration\<close> (nanoseconds)\<close>
  | Tim int           \<comment> \<open>a \<open>time.Time\<close> formatted with \<open>time.RFC3339\<close>\<close>
  | KText int         \<comment> \<open>the text of a Kafka protocol error\<close>
  | WText nat nat     \<comment> \<open>the text of a \<open>WriteErrors\<close> aggregate: failed, total\<close>

datatype 'e part = A atom | W 'e

datatype goerr =
    Sentinel sentinel
  | KafkaError int
  | WriteErrors "goerr option list"
  | MaxBytesError int
  | LibError string "goerr list"
  | Errorf "goerr part list"

fun wrapped :: "'e part list \<Rightarrow> 'e list" where
  "wrapped [] = []"
| "wrapped (A a # ps) = wrapped ps"
| "wrapped (W e # ps) = e # wrapped ps"

lemma size_wrapped [termination_simp]:
  "e \<in> set (wrapped ps) \<Longrightarrow> size e < Suc (size_list (size_part size) ps)"
  by (induction ps rule: wrapped.induct) auto

lemma size_wrapped_part [termination_simp]:
  "W e \<in> set ps \<Longrightarrow> size e < Suc (size_list (size_part size) ps)"
  by (induction ps) auto

section \<open>errors.Is and errors.As\<close>

fun errors_is :: "goerr \<Rightarrow> goerr \<Rightarrow> bool" where
  "errors_is (Sentinel s) t \<longleftrightarrow> t = Sentinel s"
| "errors_is (KafkaError c) t \<longleftrightarrow> t = KafkaError c"
| "errors_is (WriteErrors es) t \<longleftrightarrow> False"
| "errors_is (MaxBytesError n) t \<longleftrightarrow> False"
| "errors_is (LibError m es) t \<longleftrightarrow> list_ex (\<lambda>e. errors_is e t) es"
| "errors_is (Errorf ps) t \<longleftrightarrow> list_ex (\<lambda>e. errors_is e t) (wrapped ps)"

fun first_some :: "'a option list \<Rightarrow> 'a option" where
  "first_some [] = None"
| "first_some (None # xs) = first_some xs"
| "first_some (Some x # xs) = Some x"

fun errors_as_write_errors :: "goerr \<Rightarrow> goerr option list option" where
  "errors_as_write_errors (WriteErrors es) = Some es"
| "errors_as_write_errors (LibError m es) = first_some (map errors_as_write_errors es)"
| "errors_as_write_errors (Errorf ps) = first_some (map errors_as_write_errors (wrapped ps))"
| "errors_as_write_errors _ = None"

fun errors_as_max_bytes :: "goerr \<Rightarrow> int option" where
  "errors_as_max_bytes (MaxBytesError n) = Some n"
| "errors_as_max_bytes (LibError m es) = first_some (map errors_as_max_bytes es)"
| "errors_as_max_bytes (Errorf ps) = first_some (map errors_as_max_bytes (wrapped ps))"
| "errors_as_max_bytes _ = None"

definition is_err :: "goerr \<Rightarrow> sentinel \<Rightarrow> bool" where
  "is_err e s = errors_is e (Sentinel s)"

lemma is_err_Sentinel [simp]: "is_err (Sentinel s) t \<longleftrightarrow> s = t"
  by (auto simp: is_err_def)

lemma is_err_KafkaError [simp]: "\<not> is_err (KafkaError c) t"
  by (simp add: is_err_def)

lemma is_err_WriteErrors [simp]: "\<not> is_err (WriteErrors es) t"
  by (simp add: is_err_def)

lemma is_err_LibError [simp]: "is_err (LibError m es) t \<longleftrightarrow> (\<exists>e \<in> set es. is_err e t)"
  by (simp add: is_err_def list_ex_iff)

lemma is_err_Errorf [simp]: "is_err (Errorf ps) t \<longleftrightarrow> (\<exists>e \<in> set (wrapped ps). is_err e t)"
  by (simp add: is_err_def list_ex_iff)

section \<open>Error text\<close>

fun sentinel_text :: "sentinel \<Rightarrow> string" where
  "sentinel_text ErrEmptyTopic = ''topic must not be empty''"
| "sentinel_text ErrNoMessages = ''no messages to publish''"
| "sentinel_text ErrEmptyValue = ''message value must not be empty''"
| "sentinel_text ErrTopicNotFound = ''topic not found''"
| "sentinel_text ErrInvalidQuery = ''invalid query''"
| "sentinel_text ErrBadRequest = ''bad request''"
| "sentinel_text DeadlineExceeded = ''context deadline exceeded''"
| "sentinel_text Canceled = ''context canceled''"
| "sentinel_text ServerClosed = ''http: Server closed''"

fun error_text :: "goerr \<Rightarrow> atom list" where
  "error_text (Sentinel s) = [Lit (sentinel_text s)]"
| "error_text (KafkaError c) = [KText c]"
| "error_text (WriteErrors es) = [WText (length (filter (\<lambda>e. e \<noteq> None) es)) (length es)]"
| "error_text (MaxBytesError n) = [Lit ''http: request body too large'']"
| "error_text (LibError m es) = [Lit m]"
| "error_text (Errorf ps) = concat (map (\<lambda>p. case p of A a \<Rightarrow> [a] | W e \<Rightarrow> error_text e) ps)"

section \<open>Outcomes\<close>

datatype 'a outcome = Ok 'a | Err goerr | Panic string

text \<open>\<open>if err != nil { return ..., f(err) }\<close> followed by the rest of the function, over an
  explicit state.\<close>

fun and_then :: "'s \<times> 'a outcome \<Rightarrow> (goerr \<Rightarrow> goerr) \<Rightarrow> ('s \<Rightarrow> 'a \<Rightarrow> 's \<times> 'b outcome) \<Rightarrow>
    's \<times> 'b outcome" where
  "and_then (s, Ok a) f k = k s a"
| "and_then (s, Err e) f k = (s, Err (f e))"
| "and_then (s, Panic p) f k = (s, Panic p)"

lemma and_then_Ok_iff:
  "and_then r f k = (s', Ok b) \<longleftrightarrow> (\<exists>s a. r = (s, Ok a) \<and> k s a = (s', Ok b))"
  by (cases "(r, f, k)" rule: and_then.cases) auto

lemma and_then_Err_iff:
  "and_then r f k = (s', Err e) \<longleftrightarrow>
     (\<exists>e0. r = (s', Err e0) \<and> e = f e0) \<or> (\<exists>s a. r = (s, Ok a) \<and> k s a = (s', Err e))"
  by (cases "(r, f, k)" rule: and_then.cases) auto

lemma and_then_Panic_iff:
  "and_then r f k = (s', Panic p) \<longleftrightarrow>
     r = (s', Panic p) \<or> (\<exists>s a. r = (s, Ok a) \<and> k s a = (s', Panic p))"
  by (cases "(r, f, k)" rule: and_then.cases) auto

lemmas and_then_iffs [go_simps] = and_then_Ok_iff and_then_Err_iff and_then_Panic_iff

text \<open>A deferred call: it runs on every exit of the function that follows it.\<close>

definition deferring :: "('s \<Rightarrow> 's) \<Rightarrow> 's \<times> 'a \<Rightarrow> 's \<times> 'a" where
  "deferring f r = (f (fst r), snd r)"

lemma deferring_iff [go_simps]: "deferring f r = (s', x) \<longleftrightarrow> (\<exists>s. r = (s, x) \<and> s' = f s)"
  by (cases r) (auto simp: deferring_def)

text \<open>The same without a state.\<close>

fun try_then :: "'a outcome \<Rightarrow> ('a \<Rightarrow> 'b outcome) \<Rightarrow> 'b outcome" where
  "try_then (Ok a) k = k a"
| "try_then (Err e) k = Err e"
| "try_then (Panic p) k = Panic p"

lemma try_then_Ok_iff: "try_then r k = Ok b \<longleftrightarrow> (\<exists>a. r = Ok a \<and> k a = Ok b)"
  by (cases r) auto

lemma try_then_Err_iff: "try_then r k = Err e \<longleftrightarrow> r = Err e \<or> (\<exists>a. r = Ok a \<and> k a = Err e)"
  by (cases r) auto

lemma try_then_Panic_iff: "try_then r k = Panic p \<longleftrightarrow> r = Panic p \<or> (\<exists>a. r = Ok a \<and> k a = Panic p)"
  by (cases r) auto

lemmas try_then_iffs [go_simps] = try_then_Ok_iff try_then_Err_iff try_then_Panic_iff

end
