(* ===== verification/ServiceTypes.thy ===== *)
theory ServiceTypes
  imports GoErrors
begin

text \<open>
  The data of the use-case layer (\<open>internal/service\<close>) and the interfaces it depends on.

  \<^item> Records \<open>header\<close>, \<open>message\<close>, \<open>publish_result\<close>, \<open>consumed_message\<close>, \<open>message_filter\<close>,
    \<open>consume_query\<close>, \<open>read_request\<close>, \<open>consume_result\<close>, \<open>consumer_config\<close>,
    \<open>partition_metadata\<close> and \<open>topic_metadata\<close> are the structs of the same names.
  \<^item> A \<open>time.Time\<close> is the number of nanoseconds since the Unix epoch, a \<open>time.Duration\<close> a
    number of nanoseconds.
  \<^item> A Go map used as a set of criteria (\<open>map[string]string\<close>) is an association list.
  \<^item> \<open>ctx\<close> is what the code sets in a \<open>context.Context\<close>: its deadline.
  \<^item> The types \<open>producer\<close>, \<open>reader\<close>, \<open>lister\<close> and \<open>describer\<close> are the methods of the
    interfaces \<open>Producer\<close>, \<open>MessageReader\<close> and \<open>TopicAdmin\<close> over a state \<open>'s\<close> (the
    cluster, or the cluster and the metrics); the locales state what the interface comments
    promise.
\<close>

section \<open>Contexts\<close>

record ctx =
  ctx_deadline :: "int option"

text \<open>\<open>context.WithTimeout\<close>: the earlier of the parent's deadline and now plus the timeout.\<close>

definition with_timeout :: "int \<Rightarrow> ctx \<Rightarrow> int \<Rightarrow> ctx" where
  "with_timeout now c d =
     c\<lparr>ctx_deadline := Some (case ctx_deadline c of None \<Rightarrow> now + d | Some t \<Rightarrow> min t (now + d))\<rparr>"

lemma with_timeout_bound: "ctx_deadline (with_timeout now c d) = Some t \<Longrightarrow> t \<le> now + d"
  by (auto simp: with_timeout_def split: option.splits)

lemma with_timeout_parent:
  "ctx_deadline c = Some p \<Longrightarrow> ctx_deadline (with_timeout now c d) = Some t \<Longrightarrow> t \<le> p"
  by (auto simp: with_timeout_def)

section \<open>Records\<close>

record header =
  h_key :: string
  h_value :: bytes

record message =
  m_key :: bytes
  m_value :: bytes
  m_headers :: "header list"

record publish_result =
  pr_partition :: int
  pr_offset :: int

record consumed_message =
  cm_partition :: int
  cm_offset :: int
  cm_key :: bytes
  cm_value :: bytes
  cm_headers :: "header list"
  cm_timestamp :: int

record message_filter =
  mf_key :: "string option"
  mf_headers :: "(string \<times> string) list"
  mf_since :: "int option"
  mf_until :: "int option"

record consume_query =
  cq_topic :: string
  cq_partition :: int
  cq_offset :: int
  cq_from_time :: "int option"
  cq_limit :: int
  cq_timeout :: int
  cq_filter :: message_filter

record read_request =
  rr_topic :: string
  rr_partition :: int
  rr_offset :: int
  rr_from_time :: "int option"
  rr_limit :: int

record consume_result =
  cr_messages :: "consumed_message list"
  cr_scanned :: nat

record consumer_config =
  cc_default_limit :: int
  cc_max_limit :: int
  cc_default_wait :: int
  cc_max_wait :: int

record partition_metadata =
  pm_id :: int
  pm_leader :: int
  pm_replicas :: "int list"
  pm_isr :: "int list"
  pm_low :: int
  pm_high :: int

record topic_metadata =
  tm_name :: string
  tm_replication :: int
  tm_partitions :: "partition_metadata list"

definition offset_earliest :: int where
  "offset_earliest = -2"

definition offset_latest :: int where
  "offset_latest = -1"

section \<open>Interfaces\<close>

type_synonym 's producer =
  "'s \<Rightarrow> ctx \<Rightarrow> string \<Rightarrow> message list \<Rightarrow> 's \<times> publish_result list outcome"

type_synonym 's reader =
  "'s \<Rightarrow> ctx \<Rightarrow> read_request \<Rightarrow> 's \<times> consumed_message list outcome"

type_synonym 's lister = "'s \<Rightarrow> ctx \<Rightarrow> 's \<times> string list outcome"

type_synonym 's describer = "'s \<Rightarrow> ctx \<Rightarrow> string \<Rightarrow> 's \<times> topic_metadata outcome"

type_synonym 's checker = "'s \<Rightarrow> ctx \<Rightarrow> 's \<times> unit outcome"

text \<open>
  \<open>Producer\<close>: ``The returned results, when non-nil, carry the per-record partition/offset in
  the same order as msgs.''
\<close>

locale producer_iface =
  fixes produce :: "'s producer"
  assumes results_shape:
    "produce s c topic msgs = (s', Ok rs) \<Longrightarrow> rs = [] \<or> length rs = length msgs"

text \<open>\<open>MessageReader\<close>: ``scans a bounded set of messages from a topic partition''.\<close>

locale reader_iface =
  fixes read :: "'s reader"
  assumes read_bounded:
    "read s c req = (s', Ok ms) \<Longrightarrow> int (length ms) \<le> rr_limit req"

text \<open>\<open>TopicAdmin\<close>: sorted topic names; the metadata of the topic asked for, its partitions in
  the order of their ids.\<close>

locale admin_iface =
  fixes list_topics :: "'s lister"
    and describe_topic :: "'s describer"
    and name_le :: "string \<Rightarrow> string \<Rightarrow> bool"
  assumes topics_sorted:
    "list_topics s c = (s', Ok names) \<Longrightarrow> sorted_wrt name_le names"
    and describes_topic:
    "describe_topic s c topic = (s', Ok md) \<Longrightarrow> tm_name md = topic"
    and partitions_sorted:
    "describe_topic s c topic = (s', Ok md) \<Longrightarrow> sorted (map pm_id (tm_partitions md))"

end
