(* ===== verification/GoEncoding.thy ===== *)
theory GoEncoding
  imports Prelude
begin

text \<open>
  What the program uses of \<open>encoding/base64\<close> and \<open>unicode/utf8\<close>: \<open>b64_encode\<close> and \<open>b64_decode\<close>
  (\<open>StdEncoding\<close>), \<open>b64url_raw_decode\<close> (\<open>RawURLEncoding\<close>), \<open>big_endian\<close> (\<open>big.Int.SetBytes\<close>),
  \<open>utf8_len\<close> (the length of the valid encoding at the front of a text, 0 when there is none),
  \<open>utf8_valid\<close> (\<open>utf8.Valid\<close>), \<open>encode_rune\<close> (\<open>utf8.AppendRune\<close>).

  Both decoders skip carriage returns and newlines; neither checks the bits that padding leaves.
\<close>

section \<open>Base64\<close>

definition b64_std :: string where
  "b64_std = ''ABCDEFGHIJKLMNOPQRSTUVWXYZabcdefghijklmnopqrstuvwxyz0123456789+/''"

definition b64_url :: string where
  "b64_url = ''ABCDEFGHIJKLMNOPQRSTUVWXYZabcdefghijklmnopqrstuvwxyz0123456789-_''"

definition b64_char :: "nat \<Rightarrow> char" where
  "b64_char i = b64_std ! i"

definition b64_index :: "string \<Rightarrow> char \<Rightarrow> nat option" where
  "b64_index alphabet c = map_of (zip alphabet [0..<64]) c"

definition pad :: char where "pad = CHR ''=''"

abbreviation byte :: "char \<Rightarrow> nat" where
  "byte c \<equiv> of_char c"

fun b64_encode :: "string \<Rightarrow> string" where
  "b64_encode [] = []"
| "b64_encode [a] = [b64_char (byte a div 4), b64_char (byte a mod 4 * 16), pad, pad]"
| "b64_encode [a, b] =
     [b64_char (byte a div 4), b64_char (byte a mod 4 * 16 + byte b div 16),
      b64_char (byte b mod 16 * 4), pad]"
| "b64_encode (a # b # c # rest) =
     b64_char (byte a div 4) # b64_char (byte a mod 4 * 16 + byte b div 16) #
     b64_char (byte b mod 16 * 4 + byte c div 64) # b64_char (byte c mod 64) # b64_encode rest"

definition byte0 :: "nat \<Rightarrow> nat \<Rightarrow> char" where
  "byte0 i j = char_of (i * 4 + j div 16)"

definition byte1 :: "nat \<Rightarrow> nat \<Rightarrow> char" where
  "byte1 j k = char_of (j mod 16 * 16 + k div 4)"

definition byte2 :: "nat \<Rightarrow> nat \<Rightarrow> char" where
  "byte2 k l = char_of (k mod 4 * 64 + l)"

definition not_newline :: "char \<Rightarrow> bool" where
  "not_newline c \<longleftrightarrow> c \<noteq> CHR 0x0A \<and> c \<noteq> CHR 0x0D"

fun decode_padded :: "string \<Rightarrow> string option" where
  "decode_padded [] = Some []"
| "decode_padded (c1 # c2 # c3 # c4 # rest) =
     (case (b64_index b64_std c1, b64_index b64_std c2) of
        (Some i, Some j) \<Rightarrow>
          if c3 = pad then (if c4 = pad \<and> rest = [] then Some [byte0 i j] else None)
          else
            (case b64_index b64_std c3 of
               None \<Rightarrow> None
             | Some k \<Rightarrow>
                 if c4 = pad then (if rest = [] then Some [byte0 i j, byte1 j k] else None)
                 else
                   (case (b64_index b64_std c4, decode_padded rest) of
                      (Some l, Some bs) \<Rightarrow> Some (byte0 i j # byte1 j k # byte2 k l # bs)
                    | _ \<Rightarrow> None))
      | _ \<Rightarrow> None)"
| "decode_padded _ = None"

definition b64_decode :: "string \<Rightarrow> string option" where
  "b64_decode s = decode_padded (filter not_newline s)"

fun decode_raw :: "string \<Rightarrow> string option" where
  "decode_raw [] = Some []"
| "decode_raw [c1] = None"
| "decode_raw [c1, c2] =
     (case (b64_index b64_url c1, b64_index b64_url c2) of
        (Some i, Some j) \<Rightarrow> Some [byte0 i j] | _ \<Rightarrow> None)"
| "decode_raw [c1, c2, c3] =
     (case (b64_index b64_url c1, b64_index b64_url c2, b64_index b64_url c3) of
        (Some i, Some j, Some k) \<Rightarrow> Some [byte0 i j, byte1 j k] | _ \<Rightarrow> None)"
| "decode_raw (c1 # c2 # c3 # c4 # rest) =
     (case (b64_index b64_url c1, b64_index b64_url c2, b64_index b64_url c3, b64_index b64_url c4,
            decode_raw rest) of
        (Some i, Some j, Some k, Some l, Some bs) \<Rightarrow>
          Some (byte0 i j # byte1 j k # byte2 k l # bs)
      | _ \<Rightarrow> None)"

definition b64url_raw_decode :: "string \<Rightarrow> string option" where
  "b64url_raw_decode s = decode_raw (filter not_newline s)"

fun big_endian :: "nat \<Rightarrow> string \<Rightarrow> nat" where
  "big_endian acc [] = acc"
| "big_endian acc (c # cs) = big_endian (acc * 256 + byte c) cs"

lemma alphabet_facts:
  "list_all (\<lambda>i. b64_index b64_std (b64_char i) = Some i \<and> b64_char i \<noteq> pad \<and>
       not_newline (b64_char i) \<and> b64_char i \<noteq> CHR 0x22 \<and> b64_char i \<noteq> CHR 0x5C \<and>
       32 \<le> byte (b64_char i) \<and> byte (b64_char i) < 128) [0..<64]"
  by code_simp

lemma b64_char_facts:
  assumes "i < 64"
  shows "b64_index b64_std (b64_char i) = Some i" and "b64_char i \<noteq> pad"
    and "not_newline (b64_char i)" and "b64_char i \<noteq> CHR 0x22" and "b64_char i \<noteq> CHR 0x5C"
    and "32 \<le> byte (b64_char i)" and "byte (b64_char i) < 128"
  using alphabet_facts assms by (auto simp: list_all_iff)

lemma quotient_bounds:
  "byte c div 4 < 64" "byte c div 16 < 16" "byte c div 64 < 4"
  by (simp_all add: less_mult_imp_div_less)

lemma quantum_bounds [simp]:
  "byte a div 4 < 64" "byte a mod 4 * 16 < 64" "byte a mod 4 * 16 + byte b div 16 < 64"
  "byte b mod 16 * 4 < 64" "byte b mod 16 * 4 + byte c div 64 < 64" "byte c mod 64 < 64"
proof -
  have "byte a mod 4 < 4" "byte b mod 16 < 16" by simp_all
  then show "byte a mod 4 * 16 < 64" "byte a mod 4 * 16 + byte b div 16 < 64"
    "byte b mod 16 * 4 < 64" "byte b mod 16 * 4 + byte c div 64 < 64"
    using quotient_bounds [of b] quotient_bounds [of c] by linarith+
qed (simp_all add: quotient_bounds)

text \<open>Two digits packed and taken apart again.\<close>

lemma unpack:
  fixes m q d :: nat
  assumes "q < d"
  shows "(m * d + q) div d = m" and "(m * d + q) mod d = q"
  using assms by simp_all

lemma quantum_bytes [simp]:
  "byte0 (byte a div 4) (byte a mod 4 * 16) = a"
  "byte0 (byte a div 4) (byte a mod 4 * 16 + byte b div 16) = a"
  "byte1 (byte a mod 4 * 16 + byte b div 16) (byte b mod 16 * 4) = b"
  "byte1 (byte a mod 4 * 16 + byte b div 16) (byte b mod 16 * 4 + byte c div 64) = b"
  "byte2 (byte b mod 16 * 4 + byte c div 64) (byte c mod 64) = c"
  by (simp_all add: byte0_def byte1_def byte2_def unpack quotient_bounds)

lemma pad_not_newline [simp]: "not_newline pad"
  by (simp add: not_newline_def pad_def)

lemma b64_encode_no_newline: "filter not_newline (b64_encode s) = b64_encode s"
  by (induction s rule: b64_encode.induct) (simp_all add: b64_char_facts)

lemma decode_padded_encode: "decode_padded (b64_encode s) = Some s"
  by (induction s rule: b64_encode.induct) (simp_all add: b64_char_facts)

lemma b64_decode_encode: "b64_decode (b64_encode s) = Some s"
  by (simp add: b64_decode_def b64_encode_no_newline decode_padded_encode)

text \<open>Every character of an encoding is printable ASCII that JSON leaves alone in a string.\<close>

definition plain_char :: "char \<Rightarrow> bool" where
  "plain_char c \<longleftrightarrow> 32 \<le> byte c \<and> byte c < 128 \<and> c \<noteq> CHR 0x22 \<and> c \<noteq> CHR 0x5C"

lemma b64_encode_plain: "\<forall>c \<in> set (b64_encode s). plain_char c"
proof -
  have "plain_char pad" by (simp add: plain_char_def pad_def)
  moreover have "i < 64 \<Longrightarrow> plain_char (b64_char i)" for i
    using b64_char_facts [of i] by (simp add: plain_char_def)
  ultimately show ?thesis by (induction s rule: b64_encode.induct) auto
qed

lemma b64_encode_Nil_iff: "b64_encode s = [] \<longleftrightarrow> s = []"
  by (cases s rule: b64_encode.cases) auto

section \<open>UTF-8\<close>

definition byte_in :: "nat \<Rightarrow> nat \<Rightarrow> char \<Rightarrow> bool" where
  "byte_in lo hi c \<longleftrightarrow> lo \<le> byte c \<and> byte c \<le> hi"

definition cont :: "char \<Rightarrow> bool" where
  "cont c \<longleftrightarrow> byte_in 0x80 0xBF c"

fun all_cont :: "nat \<Rightarrow> string \<Rightarrow> bool" where
  "all_cont 0 s = True"
| "all_cont (Suc n) [] = False"
| "all_cont (Suc n) (c # cs) = (cont c \<and> all_cont n cs)"

text \<open>The byte that follows the first must lie in a range, then plain continuation bytes.\<close>

definition follows :: "nat \<Rightarrow> nat \<Rightarrow> nat \<Rightarrow> string \<Rightarrow> bool" where
  "follows lo hi n s = (case s of [] \<Rightarrow> False | c # cs \<Rightarrow> byte_in lo hi c \<and> all_cont n cs)"

definition utf8_len :: "string \<Rightarrow> nat" where
  "utf8_len s =
     (case s of
        [] \<Rightarrow> 0
      | c # cs \<Rightarrow>
          let n = byte c
          in if n < 0x80 then 1
             else if n < 0xC2 then 0
             else if n \<le> 0xDF then (if follows 0x80 0xBF 0 cs then 2 else 0)
             else if n = 0xE0 then (if follows 0xA0 0xBF 1 cs then 3 else 0)
             else if n = 0xED then (if follows 0x80 0x9F 1 cs then 3 else 0)
             else if n \<le> 0xEF then (if follows 0x80 0xBF 1 cs then 3 else 0)
             else if n = 0xF0 then (if follows 0x90 0xBF 2 cs then 4 else 0)
             else if n \<le> 0xF3 then (if follows 0x80 0xBF 2 cs then 4 else 0)
             else if n = 0xF4 then (if follows 0x80 0x8F 2 cs then 4 else 0)
             else 0)"

function utf8_valid :: "string \<Rightarrow> bool" where
  "utf8_valid s =
     (if s = [] then True
      else if utf8_len s = 0 then False
      else utf8_valid (drop (utf8_len s) s))"
  by pat_completeness auto
termination
  by (relation "measure length") auto

declare utf8_valid.simps [simp del]

definition encode_rune :: "nat \<Rightarrow> string" where
  "encode_rune n =
     (if n < 0x80 then [char_of n]
      else if n < 0x800 then [char_of (0xC0 + n div 64), char_of (0x80 + n mod 64)]
      else if n < 0x10000 then
        [char_of (0xE0 + n div 4096), char_of (0x80 + n div 64 mod 64), char_of (0x80 + n mod 64)]
      else
        [char_of (0xF0 + n div 262144), char_of (0x80 + n div 4096 mod 64),
         char_of (0x80 + n div 64 mod 64), char_of (0x80 + n mod 64)])"

lemma utf8_valid_Cons_ascii: "byte c < 128 \<Longrightarrow> utf8_valid (c # cs) = utf8_valid cs"
  by (subst utf8_valid.simps) (simp add: utf8_len_def)

lemma utf8_valid_ascii: "\<forall>c \<in> set s. byte c < 128 \<Longrightarrow> utf8_valid s"
proof (induction s)
  case Nil
  then show ?case by (simp add: utf8_valid.simps)
next
  case (Cons c cs)
  then show ?case by (simp add: utf8_valid_Cons_ascii)
qed

end
