(* ===== verification/GoText.thy ===== *)
theory GoText
  imports Prelude
begin

text \<open>
  What the program uses of Go's packages \<open>strings\<close> and \<open>strconv\<close>, on byte strings:
  \<open>go_lower\<close> (\<open>strings.ToLower\<close>), \<open>equal_fold\<close> (\<open>strings.EqualFold\<close>), \<open>trim_space\<close>, \<open>cut\<close>,
  \<open>split_on\<close>, \<open>parse_int64\<close> (\<open>strconv.Atoi\<close> and \<open>strconv.ParseInt(s, 10, 64)\<close> on a 64-bit
  platform), \<open>parse_bool\<close>, \<open>itoa\<close>.

  The program compares the results of \<open>ToLower\<close> and \<open>EqualFold\<close> with ASCII constants only. The
  model maps every character that such a comparison can observe: the ASCII letters, and the
  non-ASCII characters whose case mapping is ASCII (U+0130 and U+212A for \<open>ToLower\<close>, U+017F
  and U+212A for \<open>EqualFold\<close>, here as their UTF-8 bytes). Other bytes stay as they are.
\<close>

section \<open>Case\<close>

definition lower_char :: "char \<Rightarrow> char" where
  "lower_char c =
     (let n = of_char c :: nat
      in if 65 \<le> n \<and> n \<le> 90
         then (case c of Char b0 b1 b2 b3 b4 b5 b6 b7 \<Rightarrow> Char b0 b1 b2 b3 b4 True b6 b7)
         else c)"

fun go_lower :: "string \<Rightarrow> string" where
  "go_lower [] = []"
| "go_lower (c # cs) =
     (if take 2 (c # cs) = [CHR 0xC4, CHR 0xB0] then CHR ''i'' # go_lower (drop 1 cs)
      else if take 3 (c # cs) = [CHR 0xE2, CHR 0x84, CHR 0xAA] then CHR ''k'' # go_lower (drop 2 cs)
      else lower_char c # go_lower cs)"

fun go_fold :: "string \<Rightarrow> string" where
  "go_fold [] = []"
| "go_fold (c # cs) =
     (if take 2 (c # cs) = [CHR 0xC5, CHR 0xBF] then CHR ''s'' # go_fold (drop 1 cs)
      else if take 3 (c # cs) = [CHR 0xE2, CHR 0x84, CHR 0xAA] then CHR ''k'' # go_fold (drop 2 cs)
      else lower_char c # go_fold cs)"

definition equal_fold :: "string \<Rightarrow> string \<Rightarrow> bool" where
  "equal_fold s t \<longleftrightarrow> go_fold s = go_fold t"

definition is_ascii :: "string \<Rightarrow> bool" where
  "is_ascii s \<longleftrightarrow> (\<forall>c \<in> set s. (of_char c :: nat) < 128)"

lemma go_lower_ascii: "is_ascii s \<Longrightarrow> go_lower s = map lower_char s"
proof (induction s)
  case Nil
  then show ?case by simp
next
  case (Cons c cs)
  then have "c \<noteq> CHR 0xC4" "c \<noteq> CHR 0xE2" and "is_ascii cs"
    by (auto simp: is_ascii_def)
  with Cons.IH show ?case by simp
qed

section \<open>Space, cutting, splitting\<close>

text \<open>The encodings of the characters \<open>unicode.IsSpace\<close> accepts.\<close>

definition space_seqs :: "string list" where
  "space_seqs =
     [[CHR 0x09], [CHR 0x0A], [CHR 0x0B], [CHR 0x0C], [CHR 0x0D], [CHR 0x20],
      [CHR 0xC2, CHR 0x85], [CHR 0xC2, CHR 0xA0], [CHR 0xE1, CHR 0x9A, CHR 0x80],
      [CHR 0xE2, CHR 0x80, CHR 0x80], [CHR 0xE2, CHR 0x80, CHR 0x81], [CHR 0xE2, CHR 0x80, CHR 0x82],
      [CHR 0xE2, CHR 0x80, CHR 0x83], [CHR 0xE2, CHR 0x80, CHR 0x84], [CHR 0xE2, CHR 0x80, CHR 0x85],
      [CHR 0xE2, CHR 0x80, CHR 0x86], [CHR 0xE2, CHR 0x80, CHR 0x87], [CHR 0xE2, CHR 0x80, CHR 0x88],
      [CHR 0xE2, CHR 0x80, CHR 0x89], [CHR 0xE2, CHR 0x80, CHR 0x8A], [CHR 0xE2, CHR 0x80, CHR 0xA8],
      [CHR 0xE2, CHR 0x80, CHR 0xA9], [CHR 0xE2, CHR 0x80, CHR 0xAF], [CHR 0xE2, CHR 0x81, CHR 0x9F],
      [CHR 0xE3, CHR 0x80, CHR 0x80]]"

text \<open>Drop the longest run of the given non-empty sequences from the front.\<close>

function strip_front :: "string list \<Rightarrow> string \<Rightarrow> string" where
  "strip_front seqs s =
     (case find (\<lambda>p. p \<noteq> [] \<and> take (length p) s = p) seqs of
        None \<Rightarrow> s
      | Some p \<Rightarrow> strip_front seqs (drop (length p) s))"
  by pat_completeness auto
termination
proof (relation "measure (\<lambda>(seqs, s). length s)")
  fix seqs s p
  assume "find (\<lambda>p. p \<noteq> [] \<and> take (length p) s = p) seqs = Some p"
  then have "p \<noteq> []" and "take (length p) s = p" by (auto simp: find_Some_iff)
  then have "0 < length p" and "s \<noteq> []" by auto
  then show "((seqs, drop (length p) s), (seqs, s)) \<in> measure (\<lambda>(seqs, s). length s)" by simp
qed simp

declare strip_front.simps [simp del]

definition trim_space :: "string \<Rightarrow> string" where
  "trim_space s = rev (strip_front (map rev space_seqs) (rev (strip_front space_seqs s)))"

text \<open>\<open>strings.Cut\<close> at a one-byte separator: what is before and after its first occurrence.\<close>

fun cut :: "char \<Rightarrow> string \<Rightarrow> (string \<times> string) option" where
  "cut sep [] = None"
| "cut sep (c # cs) =
     (if c = sep then Some ([], cs)
      else (case cut sep cs of None \<Rightarrow> None | Some (b, a) \<Rightarrow> Some (c # b, a)))"

fun split_on :: "char \<Rightarrow> string \<Rightarrow> string list" where
  "split_on sep [] = [[]]"
| "split_on sep (c # cs) =
     (if c = sep then [] # split_on sep cs
      else (case split_on sep cs of [] \<Rightarrow> [[c]] | p # ps \<Rightarrow> (c # p) # ps))"

lemma cut_Some_iff: "cut sep s = Some (b, a) \<longleftrightarrow> s = b @ sep # a \<and> sep \<notin> set b"
proof (induction s arbitrary: b)
  case Nil
  then show ?case by simp
next
  case (Cons c cs)
  show ?case
  proof (cases "c = sep")
    case True
    then show ?thesis by (cases b) auto
  next
    case False
    then have "cut sep (c # cs) = Some (b, a) \<longleftrightarrow> (\<exists>b'. b = c # b' \<and> cut sep cs = Some (b', a))"
      by (auto split: option.splits)
    with False show ?thesis by (cases b) (auto simp: Cons.IH)
  qed
qed

lemma cut_None_iff: "cut sep s = None \<longleftrightarrow> sep \<notin> set s"
  by (induction s) (auto split: option.splits)

section \<open>Numbers\<close>

definition digit_val :: "char \<Rightarrow> nat option" where
  "digit_val c =
     (let n = of_char c :: nat in if 48 \<le> n \<and> n \<le> 57 then Some (n - 48) else None)"

definition digit_char :: "nat \<Rightarrow> char" where
  "digit_char d = ''0123456789'' ! d"

lemma digit_val_char [simp]: "d < 10 \<Longrightarrow> digit_val (digit_char d) = Some d"
proof -
  assume "d < 10"
  then have "d \<in> {0, 1, 2, 3, 4, 5, 6, 7, 8, 9}" by auto
  then show ?thesis by (elim insertE) (simp_all add: digit_val_def digit_char_def)
qed

lemma digit_char_not_sign: "d < 10 \<Longrightarrow> digit_char d \<noteq> CHR ''-'' \<and> digit_char d \<noteq> CHR ''+''"
proof -
  assume d: "d < 10"
  have "digit_val (CHR ''-'') = None" "digit_val (CHR ''+'') = None" by (simp_all add: digit_val_def)
  with digit_val_char [OF d] show ?thesis by auto
qed

fun digits_val :: "nat \<Rightarrow> string \<Rightarrow> nat option" where
  "digits_val acc [] = Some acc"
| "digits_val acc (c # cs) =
     (case digit_val c of None \<Rightarrow> None | Some d \<Rightarrow> digits_val (10 * acc + d) cs)"

text \<open>A sign, then at least one digit and nothing else; the value must fit 64 bits.\<close>

definition parse_magnitude :: "bool \<Rightarrow> string \<Rightarrow> int option" where
  "parse_magnitude neg ds =
     (if ds = [] then None
      else (case digits_val 0 ds of
              None \<Rightarrow> None
            | Some n \<Rightarrow>
                if \<not> neg \<and> int n > max_int64 then None
                else if neg \<and> int n > - min_int64 then None
                else Some (if neg then - int n else int n)))"

definition parse_int64 :: "string \<Rightarrow> int option" where
  "parse_int64 s =
     (case s of
        [] \<Rightarrow> None
      | c # cs \<Rightarrow>
          if c = CHR ''+'' then parse_magnitude False cs
          else if c = CHR ''-'' then parse_magnitude True cs
          else parse_magnitude False s)"

fun nat_str :: "nat \<Rightarrow> string" where
  "nat_str n = (if n < 10 then [digit_char n] else nat_str (n div 10) @ [digit_char (n mod 10)])"

declare nat_str.simps [simp del]

definition itoa :: "int \<Rightarrow> string" where
  "itoa i = (if i < 0 then CHR ''-'' # nat_str (nat (- i)) else nat_str (nat i))"

definition parse_bool :: "string \<Rightarrow> bool option" where
  "parse_bool s =
     (if s \<in> {''1'', ''t'', ''T'', ''true'', ''TRUE'', ''True''} then Some True
      else if s \<in> {''0'', ''f'', ''F'', ''false'', ''FALSE'', ''False''} then Some False
      else None)"

lemma digits_val_append:
  "digits_val acc (s @ t) = (case digits_val acc s of None \<Rightarrow> None | Some a \<Rightarrow> digits_val a t)"
  by (induction acc s rule: digits_val.induct) (auto split: option.splits)

lemma digits_val_nat_str: "digits_val 0 (nat_str n) = Some n"
proof (induction n rule: nat_str.induct)
  case (1 n)
  show ?case
  proof (cases "n < 10")
    case True
    then show ?thesis by (simp add: nat_str.simps [of n])
  next
    case False
    with "1.IH" show ?thesis by (simp add: nat_str.simps [of n] digits_val_append)
  qed
qed

lemma nat_str_Cons: obtains d ds where "nat_str n = digit_char d # ds" and "d < 10"
proof (induction n arbitrary: thesis rule: nat_str.induct)
  case (1 n)
  show ?case
  proof (cases "n < 10")
    case True
    then show ?thesis using "1.prems" [of n "[]"] by (simp add: nat_str.simps [of n])
  next
    case False
    obtain d ds where "nat_str (n div 10) = digit_char d # ds" "d < 10"
      by (rule "1.IH" [OF False])
    then show ?thesis
      using False "1.prems" [of d "ds @ [digit_char (n mod 10)]"] by (simp add: nat_str.simps [of n])
  qed
qed

lemma parse_magnitude_nat_str:
  "in_int64 (if neg then - int n else int n) \<Longrightarrow>
     parse_magnitude neg (nat_str n) = Some (if neg then - int n else int n)"
  using digits_val_nat_str [of n] nat_str_Cons [of n "nat_str n \<noteq> []"]
  by (cases neg)
    (auto simp: parse_magnitude_def in_int64_def min_int64_def max_int64_def simp del: digits_val.simps)

lemma parse_int64_itoa: "in_int64 i \<Longrightarrow> parse_int64 (itoa i) = Some i"
proof (cases "i < 0")
  case True
  moreover assume "in_int64 i"
  ultimately show ?thesis
    using parse_magnitude_nat_str [of True "nat (- i)"] by (simp add: parse_int64_def itoa_def)
next
  case False
  moreover assume "in_int64 i"
  moreover obtain d ds where "nat_str (nat i) = digit_char d # ds" "d < 10" by (rule nat_str_Cons)
  ultimately show ?thesis
    using parse_magnitude_nat_str [of False "nat i"]
    by (simp add: parse_int64_def itoa_def digit_char_not_sign)
qed

lemma parse_int64_in_range: "parse_int64 s = Some i \<Longrightarrow> in_int64 i"
  by (auto simp: parse_int64_def parse_magnitude_def in_int64_def min_int64_def max_int64_def
      split: list.splits if_splits option.splits)

end
