(* ===== verification/GoJson.thy ===== *)
theory GoJson
  imports GoEncoding GoText
begin

text \<open>
  What the program uses of \<open>encoding/json\<close>: validity (\<open>json.Valid\<close>), reading one value off the
  front of a text (\<open>Decoder.Decode\<close>, \<open>Decoder.More\<close>) and the Go string of a JSON string
  literal (\<open>Unmarshal\<close> into a \<open>string\<close>).

  The parser is recursive descent over byte strings. A result is a value with the rest of the
  text, a syntax error (\<open>PFail\<close>), or the end of the text inside a value (\<open>PMore\<close>), which the
  decoder needs to tell apart. \<open>JStr\<close> and member names keep the raw text between the quotes,
  \<open>JObj\<close> keeps the raw text of each member's value for \<open>json.RawMessage\<close>. The nesting limit is
  the library's (10000). Each call spends one unit of fuel and \<open>parse_json\<close> gives one more
  than twice the length of the text: \<open>parse_value_fuel\<close> shows that more fuel gives the same
  result, so running out (\<open>PFail\<close>) does not happen.
\<close>

datatype 'a pres = POk 'a string | PFail | PMore

datatype json =
    JNull
  | JBool bool
  | JNum string
  | JStr string
  | JArr "json list"
  | JObj "(string \<times> string \<times> json) list"

definition quote :: char where "quote = CHR 0x22"
definition backslash :: char where "backslash = CHR 0x5C"

definition is_ws :: "char \<Rightarrow> bool" where
  "is_ws c \<longleftrightarrow> c = CHR 0x20 \<or> c = CHR 0x09 \<or> c = CHR 0x0A \<or> c = CHR 0x0D"

definition skip_ws :: "string \<Rightarrow> string" where
  "skip_ws s = dropWhile is_ws s"

definition hex_val :: "char \<Rightarrow> nat option" where
  "hex_val c =
     (let n = byte c
      in if 48 \<le> n \<and> n \<le> 57 then Some (n - 48)
         else if 97 \<le> n \<and> n \<le> 102 then Some (n - 87)
         else if 65 \<le> n \<and> n \<le> 70 then Some (n - 55)
         else None)"

definition is_hex :: "char \<Rightarrow> bool" where
  "is_hex c \<longleftrightarrow> hex_val c \<noteq> None"

definition simple_escape :: "char \<Rightarrow> bool" where
  "simple_escape c \<longleftrightarrow> c \<in> set ''bfnrt/'' \<or> c = backslash \<or> c = quote"

fun prepend :: "string \<Rightarrow> string pres \<Rightarrow> string pres" where
  "prepend p (POk s r) = POk (p @ s) r"
| "prepend p PFail = PFail"
| "prepend p PMore = PMore"

text \<open>The text of a string literal after its opening quote, up to the closing one.\<close>

fun scan_string :: "string \<Rightarrow> string pres" where
  "scan_string [] = PMore"
| "scan_string (c # cs) =
     (if c = quote then POk [] cs
      else if c = backslash then
        (case cs of
           [] \<Rightarrow> PMore
         | e # cs1 \<Rightarrow>
             if simple_escape e then prepend [c, e] (scan_string cs1)
             else if e = CHR ''u'' then
               (if \<not> list_all is_hex (take 4 cs1) then PFail
                else (case cs1 of
                        h1 # h2 # h3 # h4 # cs2 \<Rightarrow> prepend [c, e, h1, h2, h3, h4] (scan_string cs2)
                      | _ \<Rightarrow> PMore))
             else PFail)
      else if byte c < 32 then PFail
      else prepend [c] (scan_string cs))"

section \<open>Numbers and literals\<close>

definition digit :: "char \<Rightarrow> bool" where
  "digit c \<longleftrightarrow> digit_val c \<noteq> None"

fun bind_text :: "string pres \<Rightarrow> (string \<Rightarrow> string pres) \<Rightarrow> string pres" where
  "bind_text (POk s r) f = prepend s (f r)"
| "bind_text PFail f = PFail"
| "bind_text PMore f = PMore"

definition digits1 :: "string \<Rightarrow> string pres" where
  "digits1 s =
     (case s of
        [] \<Rightarrow> PMore
      | c # cs \<Rightarrow> if digit c then POk (takeWhile digit s) (dropWhile digit s) else PFail)"

definition int_part :: "string \<Rightarrow> string pres" where
  "int_part s =
     (case s of
        [] \<Rightarrow> PMore
      | c # cs \<Rightarrow> if c = CHR ''0'' then POk [c] cs else digits1 s)"

definition frac_part :: "string \<Rightarrow> string pres" where
  "frac_part s =
     (case s of
        [] \<Rightarrow> POk [] []
      | c # cs \<Rightarrow> if c = CHR ''.'' then prepend [c] (digits1 cs) else POk [] s)"

definition exp_part :: "string \<Rightarrow> string pres" where
  "exp_part s =
     (case s of
        [] \<Rightarrow> POk [] []
      | c # cs \<Rightarrow>
          if c = CHR ''e'' \<or> c = CHR ''E''
          then (case cs of
                  [] \<Rightarrow> PMore
                | d # ds \<Rightarrow>
                    if d = CHR ''+'' \<or> d = CHR ''-'' then prepend [c, d] (digits1 ds)
                    else prepend [c] (digits1 cs))
          else POk [] s)"

definition scan_number :: "string \<Rightarrow> string pres" where
  "scan_number s =
     bind_text (if s \<noteq> [] \<and> hd s = CHR ''-'' then prepend [CHR ''-''] (int_part (tl s)) else int_part s)
       (\<lambda>r. bind_text (frac_part r) exp_part)"

fun scan_literal :: "string \<Rightarrow> string \<Rightarrow> string pres" where
  "scan_literal [] s = POk [] s"
| "scan_literal (l # ls) [] = PMore"
| "scan_literal (l # ls) (c # cs) = (if l = c then prepend [c] (scan_literal ls cs) else PFail)"

fun map_pres :: "('a \<Rightarrow> 'b) \<Rightarrow> 'a pres \<Rightarrow> 'b pres" where
  "map_pres f (POk a r) = POk (f a) r"
| "map_pres f PFail = PFail"
| "map_pres f PMore = PMore"

section \<open>Values\<close>

definition max_nesting :: nat where "max_nesting = 10000"

definition parse_scalar :: "char \<Rightarrow> string \<Rightarrow> json pres" where
  "parse_scalar c cs =
     (if c = quote then map_pres JStr (scan_string cs)
      else if c = CHR ''t'' then map_pres (\<lambda>_. JBool True) (scan_literal ''rue'' cs)
      else if c = CHR ''f'' then map_pres (\<lambda>_. JBool False) (scan_literal ''alse'' cs)
      else if c = CHR ''n'' then map_pres (\<lambda>_. JNull) (scan_literal ''ull'' cs)
      else map_pres JNum (scan_number (c # cs)))"

text \<open>\<open>d\<close> is the number of arrays and objects that are open.\<close>

fun parse_value :: "nat \<Rightarrow> nat \<Rightarrow> string \<Rightarrow> json pres"
  and parse_elems :: "nat \<Rightarrow> nat \<Rightarrow> string \<Rightarrow> json list pres"
  and parse_members :: "nat \<Rightarrow> nat \<Rightarrow> string \<Rightarrow> (string \<times> string \<times> json) list pres" where
  "parse_value 0 d s = PFail"
| "parse_value (Suc n) d s =
     (case s of
        [] \<Rightarrow> PMore
      | c # cs \<Rightarrow>
          if c = CHR ''{'' then
            (if max_nesting \<le> d then PFail
             else (case skip_ws cs of
                     [] \<Rightarrow> PMore
                   | e # es \<Rightarrow>
                       if e = CHR ''}'' then POk (JObj []) es
                       else map_pres JObj (parse_members n (Suc d) (e # es))))
          else if c = CHR ''['' then
            (if max_nesting \<le> d then PFail
             else (case skip_ws cs of
                     [] \<Rightarrow> PMore
                   | e # es \<Rightarrow>
                       if e = CHR '']'' then POk (JArr []) es
                       else map_pres JArr (parse_elems n (Suc d) (e # es))))
          else parse_scalar c cs)"
| "parse_elems 0 d s = PFail"
| "parse_elems (Suc n) d s =
     (case parse_value n d s of
        PFail \<Rightarrow> PFail
      | PMore \<Rightarrow> PMore
      | POk v r \<Rightarrow>
          (case skip_ws r of
             [] \<Rightarrow> PMore
           | c # cs \<Rightarrow>
               if c = CHR '']'' then POk [v] cs
               else if c = CHR '','' then map_pres (\<lambda>vs. v # vs) (parse_elems n d (skip_ws cs))
               else PFail))"
| "parse_members 0 d s = PFail"
| "parse_members (Suc n) d s =
     (case s of
        [] \<Rightarrow> PMore
      | q # qs \<Rightarrow>
          if q \<noteq> quote then PFail
          else
            (case scan_string qs of
               PFail \<Rightarrow> PFail
             | PMore \<Rightarrow> PMore
             | POk name r1 \<Rightarrow>
                 (case skip_ws r1 of
                    [] \<Rightarrow> PMore
                  | c # cs \<Rightarrow>
                      if c \<noteq> CHR '':'' then PFail
                      else
                        (case parse_value n d (skip_ws cs) of
                           PFail \<Rightarrow> PFail
                         | PMore \<Rightarrow> PMore
                         | POk v r2 \<Rightarrow>
                             let raw = take (length (skip_ws cs) - length r2) (skip_ws cs)
                             in (case skip_ws r2 of
                                   [] \<Rightarrow> PMore
                                 | e # es \<Rightarrow>
                                     if e = CHR ''}'' then POk [(name, raw, v)] es
                                     else if e = CHR '',''
                                       then map_pres (\<lambda>ms. (name, raw, v) # ms)
                                              (parse_members n d (skip_ws es))
                                     else PFail)))))"

definition parse_json :: "string \<Rightarrow> json pres" where
  "parse_json s = parse_value (2 * length s + 1) 0 (skip_ws s)"

definition json_valid :: "string \<Rightarrow> bool" where
  "json_valid s = (case parse_json s of POk v r \<Rightarrow> skip_ws r = [] | _ \<Rightarrow> False)"

section \<open>String literals\<close>

definition replacement :: string where
  "replacement = [CHR 0xEF, CHR 0xBF, CHR 0xBD]"

definition hex4 :: "string \<Rightarrow> nat option" where
  "hex4 s =
     (case s of
        [a, b, c, d] \<Rightarrow>
          (case (hex_val a, hex_val b, hex_val c, hex_val d) of
             (Some w, Some x, Some y, Some z) \<Rightarrow> Some (((w * 16 + x) * 16 + y) * 16 + z)
           | _ \<Rightarrow> None)
      | _ \<Rightarrow> None)"

definition escape_char :: "char \<Rightarrow> char" where
  "escape_char c =
     (if c = CHR ''b'' then CHR 0x08 else if c = CHR ''f'' then CHR 0x0C
      else if c = CHR ''n'' then CHR 0x0A else if c = CHR ''r'' then CHR 0x0D
      else if c = CHR ''t'' then CHR 0x09 else c)"

text \<open>A second \<open>\u\<close> escape that completes a surrogate pair: the code point of the pair.\<close>

definition low_surrogate :: "nat \<Rightarrow> string \<Rightarrow> nat option" where
  "low_surrogate hi s =
     (if hi < 0xDC00 \<and> take 2 s = [backslash, CHR ''u'']
      then (case hex4 (take 4 (drop 2 s)) of
              Some lo \<Rightarrow>
                if 0xDC00 \<le> lo \<and> lo < 0xE000
                then Some ((hi - 0xD800) * 1024 + (lo - 0xDC00) + 0x10000) else None
            | None \<Rightarrow> None)
      else None)"

text \<open>The Go string of the raw text: escapes resolved, invalid UTF-8 and lone surrogates replaced.\<close>

function unquote :: "string \<Rightarrow> string" where
  "unquote [] = []"
| "unquote (c # cs) =
     (if c = backslash then
        (if cs \<noteq> [] \<and> hd cs = CHR ''u'' then
           (case hex4 (take 4 (tl cs)) of
              None \<Rightarrow> []
            | Some n \<Rightarrow>
                if 0xD800 \<le> n \<and> n < 0xE000 then
                  (case low_surrogate n (drop 5 cs) of
                     Some r \<Rightarrow> encode_rune r @ unquote (drop 11 cs)
                   | None \<Rightarrow> replacement @ unquote (drop 5 cs))
                else encode_rune n @ unquote (drop 5 cs))
         else if cs \<noteq> [] then escape_char (hd cs) # unquote (tl cs)
         else [])
      else if utf8_len (c # cs) = 0 then replacement @ unquote cs
      else take (utf8_len (c # cs)) (c # cs) @ unquote (drop (utf8_len (c # cs)) (c # cs)))"
  by pat_completeness auto
termination
  by (relation "measure length") auto

declare unquote.simps(2) [simp del]

section \<open>Plain strings\<close>

lemma plain_scan: "\<forall>c \<in> set s. plain_char c \<Longrightarrow> scan_string (s @ quote # r) = POk s r"
proof (induction s)
  case Nil
  then show ?case by simp
next
  case (Cons c s)
  then have "c \<noteq> quote" "c \<noteq> backslash" "\<not> byte c < 32"
    by (auto simp: plain_char_def quote_def backslash_def)
  with Cons show ?case by simp
qed

lemma plain_unquote: "\<forall>c \<in> set s. plain_char c \<Longrightarrow> unquote s = s"
proof (induction s)
  case Nil
  then show ?case by simp
next
  case (Cons c s)
  then have "c \<noteq> backslash" "byte c < 128"
    by (auto simp: plain_char_def backslash_def)
  then have "utf8_len (c # s) = 1" by (simp add: utf8_len_def)
  with Cons \<open>c \<noteq> backslash\<close> show ?case by (simp add: unquote.simps)
qed

lemma not_ws_quote [simp]: "\<not> is_ws quote"
  by (simp add: is_ws_def quote_def)

lemma plain_literal:
  assumes "\<forall>c \<in> set s. plain_char c"
  shows "parse_json (quote # s @ [quote]) = POk (JStr s) []"
  using plain_scan [OF assms, of "[]"]
  by (simp add: parse_json_def skip_ws_def parse_scalar_def) (simp add: quote_def)

lemma plain_literal_valid: "\<forall>c \<in> set s. plain_char c \<Longrightarrow> json_valid (quote # s @ [quote])"
  by (simp add: json_valid_def plain_literal skip_ws_def)

section \<open>Fuel\<close>

lemma map_pres_POk_iff: "map_pres f p = POk b r \<longleftrightarrow> (\<exists>a. p = POk a r \<and> b = f a)"
  by (cases p) auto

lemma prepend_POk_iff: "prepend p x = POk b r \<longleftrightarrow> (\<exists>a. x = POk a r \<and> b = p @ a)"
  by (cases x) auto

lemma bind_text_POk_iff:
  "bind_text x f = POk b r \<longleftrightarrow> (\<exists>a r1 c. x = POk a r1 \<and> f r1 = POk c r \<and> b = a @ c)"
  by (cases x) (auto simp: prepend_POk_iff)

lemma length_skip_ws: "length (skip_ws s) \<le> length s"
  by (simp add: skip_ws_def length_dropWhile_le)

lemma skip_ws_Cons: "skip_ws s = c # cs \<Longrightarrow> length cs < length s"
  using length_skip_ws [of s] by simp

lemma scan_string_shorter: "scan_string s = POk a r \<Longrightarrow> length r < length s"
proof (induction s arbitrary: a rule: measure_induct_rule [of length])
  case (less s)
  show ?case
  proof (cases s)
    case Nil
    with less.prems show ?thesis by simp
  next
    case (Cons c cs)
    with less.prems show ?thesis
      by (simp only: scan_string.simps(2))
        (auto simp del: scan_string.simps simp: prepend_POk_iff split: list.splits if_splits
          dest!: less.IH [rotated])
  qed
qed

lemma digits1_shorter: "digits1 s = POk a r \<Longrightarrow> length r < length s"
  by (auto simp: digits1_def less_Suc_eq_le length_dropWhile_le split: list.splits if_splits)

lemma int_part_shorter: "int_part s = POk a r \<Longrightarrow> length r < length s"
  by (auto simp: int_part_def dest: digits1_shorter split: list.splits if_splits)

lemma frac_part_shorter: "frac_part s = POk a r \<Longrightarrow> length r \<le> length s"
  by (auto simp: frac_part_def prepend_POk_iff dest!: digits1_shorter split: list.splits if_splits)

lemma exp_part_shorter: "exp_part s = POk a r \<Longrightarrow> length r \<le> length s"
  by (auto simp: exp_part_def prepend_POk_iff dest!: digits1_shorter split: list.splits if_splits)

lemma scan_number_shorter: "scan_number s = POk a r \<Longrightarrow> length r < length s"
  by (cases s)
    (fastforce simp: scan_number_def bind_text_POk_iff prepend_POk_iff
      dest!: int_part_shorter frac_part_shorter exp_part_shorter split: if_splits)+

lemma scan_literal_shorter: "scan_literal l s = POk a r \<Longrightarrow> length r + length l = length s"
  by (induction l s arbitrary: a rule: scan_literal.induct)
    (auto simp: prepend_POk_iff split: if_splits)

lemma parse_scalar_shorter: "parse_scalar c cs = POk v r \<Longrightarrow> length r < Suc (length cs)"
  by (auto simp: parse_scalar_def map_pres_POk_iff simp del: scan_string.simps scan_literal.simps
      split: if_splits dest!: scan_string_shorter scan_literal_shorter scan_number_shorter)

lemmas parser_simps = parse_value.simps parse_elems.simps parse_members.simps scan_string.simps

lemma parse_shorter:
  "(\<forall>v r. parse_value n d s = POk v r \<longrightarrow> length r < length s) \<and>
   (\<forall>vs r. parse_elems n d' s' = POk vs r \<longrightarrow> length r < length s') \<and>
   (\<forall>ms r. parse_members n d'' s'' = POk ms r \<longrightarrow> length r < length s'')"
proof (induction n arbitrary: d s d' s' d'' s'')
  case 0
  show ?case by simp
next
  case (Suc n)
  have V: "parse_value n d s = POk v r \<Longrightarrow> length r < length s" for d s v r
    using Suc.IH by blast
  have E: "parse_elems n d s = POk v r \<Longrightarrow> length r < length s" for d s v r
    using Suc.IH by blast
  have M: "parse_members n d s = POk v r \<Longrightarrow> length r < length s" for d s v r
    using Suc.IH by blast
  note W = less_le_trans [OF _ length_skip_ws]
  have "parse_value (Suc n) d s = POk v r \<longrightarrow> length r < length s" for v r
    by (subst parse_value.simps(2))
      (auto simp: map_pres_POk_iff simp del: parser_simps
        split: list.splits if_splits dest!: E M parse_scalar_shorter skip_ws_Cons)
  moreover have "parse_elems (Suc n) d' s' = POk v r \<longrightarrow> length r < length s'" for v r
    by (subst parse_elems.simps(2))
      (auto simp: map_pres_POk_iff simp del: parser_simps
        split: list.splits if_splits pres.splits dest!: V W [OF E] skip_ws_Cons)
  moreover have "parse_members (Suc n) d'' s'' = POk v r \<longrightarrow> length r < length s''" for v r
    by (subst parse_members.simps(2))
      (auto simp: map_pres_POk_iff Let_def simp del: parser_simps
        split: list.splits if_splits pres.splits dest!: W [OF V] W [OF M] scan_string_shorter skip_ws_Cons)
  ultimately show ?case by blast
qed

lemma parse_value_shorter: "parse_value n d s = POk v r \<Longrightarrow> length r < length s"
  using parse_shorter by blast

text \<open>Enough fuel: twice the length, and one more for the loops over elements and members.\<close>

text \<open>More fuel does not change what a parser with enough of it reads; one step for each parser.\<close>

lemma skip_ws_tail: "skip_ws cs = e # es \<Longrightarrow> Suc (length es) \<le> length cs"
  using length_skip_ws [of cs] by simp

lemma value_more_fuel:
  assumes E: "\<And>d s. 2 * length s + 1 < n \<Longrightarrow> parse_elems (Suc n) d s = parse_elems n d s"
    and M: "\<And>d s. 2 * length s + 1 < n \<Longrightarrow> parse_members (Suc n) d s = parse_members n d s"
    and L: "2 * length s < Suc n"
  shows "parse_value (Suc (Suc n)) d s = parse_value (Suc n) d s"
proof (cases s)
  case Nil
  then show ?thesis by simp
next
  case (Cons c cs)
  have "2 * length es + 3 < n" if "skip_ws cs = e # es" for e es
    using L Cons skip_ws_tail [OF that] by simp
  then show ?thesis
    by (subst (1 2) parse_value.simps(2))
      (auto simp: Cons E M simp del: parser_simps split: list.splits)
qed

lemma elems_more_fuel:
  assumes V: "\<And>d s. 2 * length s < n \<Longrightarrow> parse_value (Suc n) d s = parse_value n d s"
    and E: "\<And>d s. 2 * length s + 1 < n \<Longrightarrow> parse_elems (Suc n) d s = parse_elems n d s"
    and L: "2 * length s + 1 < Suc n"
  shows "parse_elems (Suc (Suc n)) d s = parse_elems (Suc n) d s"
proof -
  have "2 * length (skip_ws cs) + 1 < n" if "parse_value n d s = POk v r" "skip_ws r = c # cs" for v r c cs
    using L parse_value_shorter [OF that(1)] skip_ws_tail [OF that(2)] length_skip_ws [of cs] by simp
  then show ?thesis
    using L by (subst (1 2) parse_elems.simps(2))
      (auto simp: V E simp del: parser_simps split: list.splits pres.splits)
qed

lemma members_more_fuel:
  assumes V: "\<And>d s. 2 * length s < n \<Longrightarrow> parse_value (Suc n) d s = parse_value n d s"
    and M: "\<And>d s. 2 * length s + 1 < n \<Longrightarrow> parse_members (Suc n) d s = parse_members n d s"
    and L: "2 * length s + 1 < Suc n"
  shows "parse_members (Suc (Suc n)) d s = parse_members (Suc n) d s"
proof (cases s)
  case Nil
  then show ?thesis by simp
next
  case (Cons q qs)
  have 1: "2 * length (skip_ws cs) < n \<and> length (skip_ws cs) < length s"
    if "scan_string qs = POk name r1" "skip_ws r1 = c # cs" for name r1 c cs
    using L Cons scan_string_shorter [OF that(1)] skip_ws_tail [OF that(2)] length_skip_ws [of cs] by simp
  have 2: "2 * length (skip_ws es) + 1 < n"
    if "scan_string qs = POk name r1" "skip_ws r1 = c # cs"
      "parse_value n d (skip_ws cs) = POk v r2" "skip_ws r2 = e # es" for name r1 c cs v r2 e es
    using L 1 [OF that(1,2)] parse_value_shorter [OF that(3)] skip_ws_tail [OF that(4)]
      length_skip_ws [of es] by simp
  show ?thesis
    by (subst (1 2) parse_members.simps(2))
      (auto simp: Cons V Let_def 1 simp del: parser_simps split: list.splits pres.splits,
       metis M [OF 2])
qed

lemma parse_fuel:
  "(2 * length s < n \<longrightarrow> parse_value (Suc n) d s = parse_value n d s) \<and>
   (2 * length s' + 1 < n \<longrightarrow> parse_elems (Suc n) d' s' = parse_elems n d' s') \<and>
   (2 * length s'' + 1 < n \<longrightarrow> parse_members (Suc n) d'' s'' = parse_members n d'' s'')"
proof (induction n arbitrary: d s d' s' d'' s'')
  case 0
  show ?case by simp
next
  case (Suc n)
  have V: "2 * length s < n \<Longrightarrow> parse_value (Suc n) d s = parse_value n d s" for d s
    using Suc.IH by blast
  have E: "2 * length s + 1 < n \<Longrightarrow> parse_elems (Suc n) d s = parse_elems n d s" for d s
    using Suc.IH by blast
  have M: "2 * length s + 1 < n \<Longrightarrow> parse_members (Suc n) d s = parse_members n d s" for d s
    using Suc.IH by blast
  show ?case
    using value_more_fuel [OF E M] elems_more_fuel [OF V E] members_more_fuel [OF V M] by blast
qed

lemma parse_value_fuel:
  "2 * length s < n \<Longrightarrow> parse_value (n + k) d s = parse_value n d s"
  by (induction k) (use parse_fuel in auto)

lemma parse_json_fuel: "parse_value (2 * length s + 1 + k) 0 (skip_ws s) = parse_json s"
  unfolding parse_json_def
  by (rule parse_value_fuel) (use length_skip_ws [of s] in simp)

section \<open>Decoding into Go values\<close>

text \<open>A JSON string into a \<open>string\<close>: \<open>null\<close> leaves the variable as it is.\<close>

definition decode_string :: "string \<Rightarrow> json \<Rightarrow> string option" where
  "decode_string old v =
     (case v of JNull \<Rightarrow> Some old | JStr raw \<Rightarrow> Some (unquote raw) | _ \<Rightarrow> None)"

text \<open>The members of an object into a struct, one after the other.\<close>

fun decode_members :: "('a \<Rightarrow> string \<times> string \<times> json \<Rightarrow> 'a option) \<Rightarrow> 'a \<Rightarrow>
    (string \<times> string \<times> json) list \<Rightarrow> 'a option" where
  "decode_members f a [] = Some a"
| "decode_members f a (m # ms) = (case f a m of None \<Rightarrow> None | Some a' \<Rightarrow> decode_members f a' ms)"

definition decode_struct :: "('a \<Rightarrow> string \<times> string \<times> json \<Rightarrow> 'a option) \<Rightarrow> 'a \<Rightarrow> json \<Rightarrow> 'a option" where
  "decode_struct f a v =
     (case v of JNull \<Rightarrow> Some a | JObj ms \<Rightarrow> decode_members f a ms | _ \<Rightarrow> None)"

text \<open>The elements of an array into the slots of a slice. A slot keeps what it held, \<open>zero\<close> in a
  new one; the slots behind the new length stay for a later array.\<close>

fun decode_slots :: "('a \<Rightarrow> json \<Rightarrow> 'a option) \<Rightarrow> 'a \<Rightarrow> 'a list \<Rightarrow> json list \<Rightarrow> 'a list option" where
  "decode_slots dec zero slots [] = Some slots"
| "decode_slots dec zero [] (v # vs) =
     (case dec zero v of
        None \<Rightarrow> None
      | Some m \<Rightarrow> map_option ((#) m) (decode_slots dec zero [] vs))"
| "decode_slots dec zero (m0 # slots) (v # vs) =
     (case dec m0 v of
        None \<Rightarrow> None
      | Some m \<Rightarrow> map_option ((#) m) (decode_slots dec zero slots vs))"

text \<open>A slice while it is decoded: the slots and the length.\<close>

definition decode_slice :: "('a \<Rightarrow> json \<Rightarrow> 'a option) \<Rightarrow> 'a \<Rightarrow> 'a list \<times> nat \<Rightarrow> json \<Rightarrow>
    ('a list \<times> nat) option" where
  "decode_slice dec zero b v =
     (case v of
        JNull \<Rightarrow> Some ([], 0)
      | JArr [] \<Rightarrow> Some ([], 0)
      | JArr vs \<Rightarrow> map_option (\<lambda>ss. (ss, length vs)) (decode_slots dec zero (fst b) vs)
      | _ \<Rightarrow> None)"

lemma decode_slots_length:
  "decode_slots dec zero slots vs = Some ss \<Longrightarrow> length vs \<le> length ss"
  by (induction dec zero slots vs arbitrary: ss rule: decode_slots.induct) (auto split: option.splits)

end
