(* ===== verification/GoTime.thy ===== *)
theory GoTime
  imports GoText
begin

text \<open>
  What the program uses of Go's package \<open>time\<close>: \<open>parse_duration\<close> (\<open>time.ParseDuration\<close>),
  \<open>parse_rfc3339\<close> (\<open>time.Parse(time.RFC3339, s)\<close>) and \<open>unix_time\<close> (\<open>time.Unix(secs, 0)\<close>).

  Durations are accumulated in an unsigned 64-bit integer whose wrap-around is written out. The
  fraction of a unit is a product of two \<open>float64\<close> values: \<open>f64\<close> rounds a ratio to the nearest
  value with a 53-bit significand, ties to even, as numerator and denominator.
\<close>

section \<open>Double-precision rounding of positive ratios\<close>

fun bit_count :: "nat \<Rightarrow> nat" where
  "bit_count n = (if n = 0 then 0 else Suc (bit_count (n div 2)))"

declare bit_count.simps [simp del]

definition round_half_even :: "nat \<Rightarrow> nat \<Rightarrow> nat" where
  "round_half_even p q =
     (let d = p div q; r = p mod q
      in if 2 * r < q then d else if q < 2 * r then d + 1 else if even d then d else d + 1)"

definition f64 :: "nat \<times> nat \<Rightarrow> nat \<times> nat" where
  "f64 x =
     (case x of (p, q) \<Rightarrow>
        if p = 0 then (0, 1)
        else
          (let up = 53 + bit_count q - bit_count p; down = bit_count p - (53 + bit_count q);
               p' = p * 2 ^ up; q' = q * 2 ^ down
           in if p' div q' < 2 ^ 53 then (round_half_even p' q' * 2 ^ down, 2 ^ up)
              else if up = 0 then (round_half_even p' (2 * q') * 2 ^ Suc down, 1)
              else (round_half_even p' (2 * q') * 2 ^ Suc down, 2 ^ up)))"

definition f64_mul :: "nat \<times> nat \<Rightarrow> nat \<times> nat \<Rightarrow> nat \<times> nat" where
  "f64_mul x y = f64 (fst x * fst y, snd x * snd y)"

definition f64_div :: "nat \<times> nat \<Rightarrow> nat \<times> nat \<Rightarrow> nat \<times> nat" where
  "f64_div x y = f64 (fst x * snd y, snd x * fst y)"

text \<open>\<open>uint64(float64(f) * (float64(unit) / scale))\<close>.\<close>

definition fraction_ns :: "nat \<Rightarrow> nat \<Rightarrow> nat \<Rightarrow> nat" where
  "fraction_ns f unit scale =
     (case f64_mul (f64 (f, 1)) (f64_div (f64 (unit, 1)) (f64 (scale, 1))) of (p, q) \<Rightarrow> p div q)"

section \<open>Durations\<close>

fun leading_int :: "nat \<Rightarrow> string \<Rightarrow> (nat \<times> string) option" where
  "leading_int x [] = Some (x, [])"
| "leading_int x (c # cs) =
     (case digit_val c of
        None \<Rightarrow> Some (x, c # cs)
      | Some d \<Rightarrow>
          if x > 9223372036854775808 div 10 then None
          else if x * 10 + d > 9223372036854775808 then None
          else leading_int (x * 10 + d) cs)"

fun leading_fraction :: "nat \<Rightarrow> nat \<Rightarrow> bool \<Rightarrow> string \<Rightarrow> nat \<times> nat \<times> string" where
  "leading_fraction x scale overflow [] = (x, scale, [])"
| "leading_fraction x scale overflow (c # cs) =
     (case digit_val c of
        None \<Rightarrow> (x, scale, c # cs)
      | Some d \<Rightarrow>
          if overflow then leading_fraction x scale True cs
          else if x > 9223372036854775807 div 10 then leading_fraction x scale True cs
          else if x * 10 + d > 9223372036854775808 then leading_fraction x scale True cs
          else leading_fraction (x * 10 + d) (scale * 10) False cs)"

definition unit_map :: "string \<Rightarrow> nat option" where
  "unit_map u =
     map_of [(''ns'', 1), (''us'', 1000), ([CHR 0xC2, CHR 0xB5, CHR ''s''], 1000),
             ([CHR 0xCE, CHR 0xBC, CHR ''s''], 1000), (''ms'', 1000000), (''s'', 1000000000),
             (''m'', 60000000000), (''h'', 3600000000000)] u"

definition dot :: char where "dot = CHR ''.''"

definition is_unit_char :: "char \<Rightarrow> bool" where
  "is_unit_char c \<longleftrightarrow> c \<noteq> dot \<and> digit_val c = None"

text \<open>The optional period and digits after a number: the fraction, its scale, the rest, and
  whether there was a digit.\<close>

definition duration_fraction :: "string \<Rightarrow> nat \<times> nat \<times> string \<times> bool" where
  "duration_fraction s =
     (if s \<noteq> [] \<and> hd s = dot
      then (case leading_fraction 0 1 False (tl s) of
              (f, scale, r) \<Rightarrow> (f, scale, r, length r \<noteq> length (tl s)))
      else (0, 1, s, False))"

text \<open>The unit after the number \<open>v + f / scale\<close>: nanoseconds and the rest.\<close>

definition duration_unit :: "nat \<Rightarrow> nat \<Rightarrow> nat \<Rightarrow> string \<Rightarrow> (nat \<times> string) option" where
  "duration_unit v f scale s =
     (let u = takeWhile is_unit_char s; rest = dropWhile is_unit_char s
      in if u = [] then None
         else
           (case unit_map u of
              None \<Rightarrow> None
            | Some unit \<Rightarrow>
                if v > 9223372036854775808 div unit then None
                else
                  (let v' = (if f > 0 then v * unit + fraction_ns f unit scale else v * unit)
                   in if f > 0 \<and> v' > 9223372036854775808 then None else Some (v', rest))))"

definition duration_term :: "string \<Rightarrow> (nat \<times> string) option" where
  "duration_term s =
     (if s = [] \<or> (hd s \<noteq> dot \<and> digit_val (hd s) = None) then None
      else
        (case leading_int 0 s of
           None \<Rightarrow> None
         | Some (v, s1) \<Rightarrow>
             (case duration_fraction s1 of
                (f, scale, s2, post) \<Rightarrow>
                  if length s1 = length s \<and> \<not> post then None else duration_unit v f scale s2)))"

lemma leading_int_shorter: "leading_int x s = Some (v, r) \<Longrightarrow> length r \<le> length s"
  by (induction x s rule: leading_int.induct) (auto split: option.splits if_splits)

lemma leading_fraction_shorter: "leading_fraction x sc ov s = (f, sc', r) \<Longrightarrow> length r \<le> length s"
  by (induction x sc ov s rule: leading_fraction.induct) (auto split: option.splits if_splits)

lemma unit_map_nonempty: "unit_map u = Some n \<Longrightarrow> u \<noteq> []"
  by (auto simp: unit_map_def)

lemma duration_fraction_shorter: "duration_fraction s = (f, sc, r, post) \<Longrightarrow> length r \<le> length s"
  by (auto simp: duration_fraction_def split: if_splits prod.splits dest!: leading_fraction_shorter)

lemma duration_unit_shorter: "duration_unit v f sc s = Some (w, r) \<Longrightarrow> length r < length s"
proof -
  assume "duration_unit v f sc s = Some (w, r)"
  then have r: "r = dropWhile is_unit_char s" and u: "takeWhile is_unit_char s \<noteq> []"
    by (auto simp: duration_unit_def Let_def split: if_splits option.splits)
  have "length s = length (takeWhile is_unit_char s) + length r"
    unfolding r by (metis length_append takeWhile_dropWhile_id)
  with u show ?thesis by simp
qed

lemma duration_term_shorter: "duration_term s = Some (v, r) \<Longrightarrow> length r < length s"
  by (auto simp: duration_term_def split: if_splits option.splits prod.splits
      dest!: duration_unit_shorter duration_fraction_shorter leading_int_shorter)

function duration_terms :: "nat \<Rightarrow> string \<Rightarrow> nat option" where
  "duration_terms d s =
     (if s = [] then Some d
      else
        (case duration_term s of
           None \<Rightarrow> None
         | Some (v, rest) \<Rightarrow>
             let d' = (d + v) mod 18446744073709551616
             in if d' > 9223372036854775808 then None else duration_terms d' rest))"
  by pat_completeness auto
termination
  by (relation "measure (\<lambda>(d, s). length s)") (auto dest: duration_term_shorter)

declare duration_terms.simps [simp del]

definition parse_duration :: "string \<Rightarrow> int option" where
  "parse_duration orig =
     (let neg = (orig \<noteq> [] \<and> hd orig = CHR ''-'');
          s = (if orig \<noteq> [] \<and> (hd orig = CHR ''-'' \<or> hd orig = CHR ''+'') then tl orig else orig)
      in if s = ''0'' then Some 0
         else if s = [] then None
         else (case duration_terms 0 s of
                 None \<Rightarrow> None
               | Some d \<Rightarrow>
                   if neg then Some (wrap64 (- int d))
                   else if d > 9223372036854775807 then None
                   else Some (int d)))"

lemma parse_duration_in_range: "parse_duration s = Some d \<Longrightarrow> in_int64 d"
  by (auto simp: parse_duration_def Let_def in_int64_wrap64 split: if_splits option.splits)
    (auto simp: in_int64_def min_int64_def max_int64_def)

section \<open>Instants\<close>

definition ns_per_sec :: int where
  "ns_per_sec = 1000000000"

text \<open>\<open>time.Time\<close> keeps its seconds since year 1 in 64 bits: \<open>time.Unix\<close> wraps around.\<close>

definition unix_to_internal :: int where
  "unix_to_internal = 62135596800"

definition unix_time :: "int \<Rightarrow> int" where
  "unix_time secs = (wrap64 (secs + unix_to_internal) - unix_to_internal) * ns_per_sec"

definition zero_time :: int where
  "zero_time = - unix_to_internal * ns_per_sec"

definition is_leap :: "nat \<Rightarrow> bool" where
  "is_leap y \<longleftrightarrow> y mod 4 = 0 \<and> (y mod 100 \<noteq> 0 \<or> y mod 400 = 0)"

definition days_in :: "nat \<Rightarrow> nat \<Rightarrow> nat" where
  "days_in m y =
     (if m = 2 then (if is_leap y then 29 else 28)
      else if m \<in> {4, 6, 9, 11} then 30 else 31)"

text \<open>Days from 0000-01-01 to the first day of a year, and within a year to a month.\<close>

definition days_before_year :: "nat \<Rightarrow> nat" where
  "days_before_year y = 365 * y + (y + 3) div 4 - (y + 99) div 100 + (y + 399) div 400"

fun days_before_month :: "nat \<Rightarrow> nat \<Rightarrow> nat" where
  "days_before_month 0 y = 0"
| "days_before_month (Suc m) y = (if m = 0 then 0 else days_in m y + days_before_month m y)"

definition date_seconds :: "nat \<Rightarrow> nat \<Rightarrow> nat \<Rightarrow> nat \<Rightarrow> nat \<Rightarrow> nat \<Rightarrow> int" where
  "date_seconds year month day hour mn sec =
     (int (days_before_year year + days_before_month month year + (day - 1)) - 719528) * 86400 +
     int (hour * 3600 + mn * 60 + sec)"

text \<open>\<open>getnum\<close>: two digits, or one when the field is not fixed.\<close>

definition getnum :: "bool \<Rightarrow> string \<Rightarrow> (nat \<times> string) option" where
  "getnum fixed s =
     (case s of
        [] \<Rightarrow> None
      | c1 # cs \<Rightarrow>
          (case digit_val c1 of
             None \<Rightarrow> None
           | Some d1 \<Rightarrow>
               (case cs of
                  [] \<Rightarrow> if fixed then None else Some (d1, cs)
                | c2 # cs' \<Rightarrow>
                    (case digit_val c2 of
                       None \<Rightarrow> if fixed then None else Some (d1, cs)
                     | Some d2 \<Rightarrow> Some (d1 * 10 + d2, cs')))))"

definition expect :: "char \<Rightarrow> string \<Rightarrow> string option" where
  "expect ch s = (case s of [] \<Rightarrow> None | c # cs \<Rightarrow> if c = ch then Some cs else None)"

definition year_field :: "string \<Rightarrow> (nat \<times> string) option" where
  "year_field s =
     (if length s < 4 then None
      else (case digits_val 0 (take 4 s) of None \<Rightarrow> None | Some y \<Rightarrow> Some (y, drop 4 s)))"

definition is_digit :: "char \<Rightarrow> bool" where
  "is_digit c \<longleftrightarrow> digit_val c \<noteq> None"

text \<open>A fractional second (a comma or a period and digits, of which nine count), or none.\<close>

definition fraction_field :: "string \<Rightarrow> nat \<times> string" where
  "fraction_field s =
     (case s of
        c # d # _ \<Rightarrow>
          if (c = dot \<or> c = CHR '','') \<and> is_digit d
          then (let ds = takeWhile is_digit (tl s); used = take 9 ds
                in ((case digits_val 0 used of None \<Rightarrow> 0 | Some n \<Rightarrow> n * 10 ^ (9 - length used)),
                    drop (length ds) (tl s)))
          else (0, s)
      | _ \<Rightarrow> (0, s))"

text \<open>\<open>Z\<close>, or a signed offset \<open>hh:mm\<close>: the offset in seconds.\<close>

definition zone_field :: "string \<Rightarrow> (int \<times> string) option" where
  "zone_field s =
     (if s \<noteq> [] \<and> hd s = CHR ''Z'' then Some (0, tl s)
      else if length s < 6 then None
      else if s ! 3 \<noteq> CHR '':'' then None
      else
        (case (getnum True (take 2 (drop 1 s)), getnum True (take 2 (drop 4 s))) of
           (Some (hr, _), Some (mm, _)) \<Rightarrow>
             if hr > 24 \<or> mm > 60 then None
             else if hd s = CHR ''+'' then Some (int ((hr * 60 + mm) * 60), drop 6 s)
             else if hd s = CHR ''-'' then Some (- int ((hr * 60 + mm) * 60), drop 6 s)
             else None
         | _ \<Rightarrow> None))"

definition parse_rfc3339 :: "string \<Rightarrow> int option" where
  "parse_rfc3339 s =
     Option.bind (year_field s) (\<lambda>(year, s).
     Option.bind (expect (CHR ''-'') s) (\<lambda>s.
     Option.bind (getnum True s) (\<lambda>(month, s).
     if month < 1 \<or> 12 < month then None else
     Option.bind (expect (CHR ''-'') s) (\<lambda>s.
     Option.bind (getnum True s) (\<lambda>(day, s).
     Option.bind (expect (CHR ''T'') s) (\<lambda>s.
     Option.bind (getnum False s) (\<lambda>(hour, s).
     if 24 \<le> hour then None else
     Option.bind (expect (CHR '':'') s) (\<lambda>s.
     Option.bind (getnum True s) (\<lambda>(mn, s).
     if 60 \<le> mn then None else
     Option.bind (expect (CHR '':'') s) (\<lambda>s.
     Option.bind (getnum True s) (\<lambda>(sec, s).
     if 60 \<le> sec then None else
     (case fraction_field s of (nsec, s) \<Rightarrow>
     Option.bind (zone_field s) (\<lambda>(offset, s).
     if s \<noteq> [] then None
     else if day < 1 \<or> days_in month year < day then None
     else Some ((date_seconds year month day hour mn sec - offset) * ns_per_sec + int nsec)
     )))))))))))))"

end
