(* ===== verification/TopicHealth.thy ===== *)
theory TopicHealth
  imports ServiceTypes
begin

text \<open>
  \<open>internal/service/topic.go\<close> (\<open>list_service\<close>, \<open>describe_service\<close>) and
  \<open>internal/service/health.go\<close> (\<open>live\<close>, \<open>ready\<close>). A dependency is its name and its probe;
  \<open>ready\<close> runs the probes in order, each under its own timeout, over the state they act on.
\<close>

section \<open>Topics\<close>

definition list_service :: "'s lister \<Rightarrow> 's \<Rightarrow> ctx \<Rightarrow> 's \<times> string list outcome" where
  "list_service list_topics s c =
     and_then (list_topics s c) (\<lambda>e. Errorf [A (Lit ''list topics: ''), W e])
       (\<lambda>s' topics. (s', Ok topics))"

definition describe_error :: "string \<Rightarrow> goerr \<Rightarrow> goerr" where
  "describe_error topic e =
     Errorf [A (Lit ''describe topic ''), A (Quo topic), A (Lit '': ''), W e]"

definition describe_service ::
  "'s describer \<Rightarrow> 's \<Rightarrow> ctx \<Rightarrow> string \<Rightarrow> 's \<times> topic_metadata outcome" where
  "describe_service describe_topic s c topic =
     (if topic = '''' then (s, Err (Sentinel ErrEmptyTopic))
      else and_then (describe_topic s c topic) (describe_error topic) (\<lambda>s' md. (s', Ok md)))"

lemma list_service_Ok_iff:
  "list_service list_topics s c = (s', Ok names) \<longleftrightarrow> list_topics s c = (s', Ok names)"
  by (auto simp: list_service_def go_simps)

lemma describe_service_Ok_iff:
  "describe_service describe_topic s c topic = (s', Ok md) \<longleftrightarrow>
     topic \<noteq> '''' \<and> describe_topic s c topic = (s', Ok md)"
  by (auto simp: describe_service_def go_simps)

context admin_iface begin

lemma list_service_sorted:
  "list_service list_topics s c = (s', Ok names) \<Longrightarrow> sorted_wrt name_le names"
  by (auto simp: list_service_Ok_iff dest: topics_sorted)

lemma describe_service_partitions:
  "describe_service describe_topic s c topic = (s', Ok md) \<Longrightarrow>
     tm_name md = topic \<and> sorted (map pm_id (tm_partitions md))"
  by (auto simp: describe_service_Ok_iff dest: describes_topic partitions_sorted)

end

section \<open>Health\<close>

record dependency_status =
  ds_name :: string
  ds_status :: string
  ds_error :: "atom list"

record health_status =
  hs_status :: string
  hs_version :: string
  hs_uptime :: int
  hs_checks :: "dependency_status list"

record health_service =
  hv_version :: string
  hv_started :: int
  hv_timeout :: int

definition status_ok :: string where "status_ok = ''ok''"

definition status_degraded :: string where "status_degraded = ''degraded''"

definition new_health_service :: "string \<Rightarrow> int \<Rightarrow> int \<Rightarrow> health_service" where
  "new_health_service version now timeout =
     \<lparr>hv_version = version, hv_started = now, hv_timeout = timeout\<rparr>"

definition live :: "health_service \<Rightarrow> int \<Rightarrow> health_status" where
  "live h now =
     \<lparr>hs_status = status_ok, hs_version = hv_version h,
      hs_uptime = sat64 (now - hv_started h), hs_checks = []\<rparr>"

text \<open>One turn of the loop over the dependencies.\<close>

fun probe :: "string \<Rightarrow> unit outcome \<Rightarrow> dependency_status" where
  "probe name (Ok u) = \<lparr>ds_name = name, ds_status = ''ok'', ds_error = []\<rparr>"
| "probe name (Err e) = \<lparr>ds_name = name, ds_status = ''failed'', ds_error = error_text e\<rparr>"
| "probe name (Panic p) = \<lparr>ds_name = name, ds_status = ''ok'', ds_error = []\<rparr>"

fun ready_loop :: "('s \<Rightarrow> int) \<Rightarrow> int \<Rightarrow> ctx \<Rightarrow> (string \<times> 's checker) list \<Rightarrow> 's \<Rightarrow> health_status \<Rightarrow>
    's \<times> health_status outcome" where
  "ready_loop now timeout c [] s st = (s, Ok st)"
| "ready_loop now timeout c ((name, check) # deps) s st =
     (case check s (with_timeout (now s) c timeout) of
        (s', Panic p) \<Rightarrow> (s', Panic p)
      | (s', r) \<Rightarrow>
          ready_loop now timeout c deps s'
            (let st' = (case r of Err e \<Rightarrow> st\<lparr>hs_status := status_degraded\<rparr> | _ \<Rightarrow> st)
             in st'\<lparr>hs_checks := hs_checks st' @ [probe name r]\<rparr>))"

definition ready :: "('s \<Rightarrow> int) \<Rightarrow> health_service \<Rightarrow> (string \<times> 's checker) list \<Rightarrow> 's \<Rightarrow> ctx \<Rightarrow>
    's \<times> health_status outcome" where
  "ready now h deps s c =
     ready_loop now (hv_timeout h) c deps s
       \<lparr>hs_status = status_ok, hs_version = hv_version h,
        hs_uptime = sat64 (now s - hv_started h), hs_checks = []\<rparr>"

definition check_failed :: "dependency_status \<Rightarrow> bool" where
  "check_failed d \<longleftrightarrow> ds_status d = ''failed''"

text \<open>What the loop keeps: a status is ok or degraded, degraded exactly when a check failed, and
  there is a check for every dependency probed, in order.\<close>

definition health_inv :: "health_status \<Rightarrow> bool" where
  "health_inv st \<longleftrightarrow>
     hs_status st = (if \<exists>d \<in> set (hs_checks st). check_failed d then status_degraded else status_ok)"

lemma status_distinct [simp]: "status_ok \<noteq> status_degraded" "status_degraded \<noteq> status_ok"
  by (simp_all add: status_ok_def status_degraded_def)

lemma check_failed_probe [simp]: "check_failed (probe name r) \<longleftrightarrow> (\<exists>e. r = Err e)"
  by (cases r) (simp_all add: check_failed_def)

lemma ds_name_probe [simp]: "ds_name (probe name r) = name"
  by (cases r) simp_all

lemma ready_loop_inv:
  assumes "ready_loop now timeout c deps s st = (s', Ok st')" and "health_inv st"
  shows "health_inv st' \<and> map ds_name (hs_checks st') = map ds_name (hs_checks st) @ map fst deps"
  using assms
proof (induction now timeout c deps s st rule: ready_loop.induct)
  case (1 now timeout c s st)
  then show ?case by simp
next
  case (2 now timeout c name check deps s st)
  obtain s1 r where r: "check s (with_timeout (now s) c timeout) = (s1, r)" by force
  show ?case
  proof (cases r)
    case (Ok u)
    with r "2.prems" have step: "ready_loop now timeout c deps s1
        (st\<lparr>hs_checks := hs_checks st @ [probe name (Ok u)]\<rparr>) = (s', Ok st')"
      by simp
    have inv: "health_inv (st\<lparr>hs_checks := hs_checks st @ [probe name (Ok u)]\<rparr>)"
      using "2.prems"(2) by (simp add: health_inv_def check_failed_def)
    from "2.IH" (1) [OF r [symmetric] Ok] step inv show ?thesis by simp
  next
    case (Err e)
    with r "2.prems" have step: "ready_loop now timeout c deps s1
        (st\<lparr>hs_status := status_degraded, hs_checks := hs_checks st @ [probe name (Err e)]\<rparr>) = (s', Ok st')"
      by simp
    have inv: "health_inv (st\<lparr>hs_status := status_degraded,
        hs_checks := hs_checks st @ [probe name (Err e)]\<rparr>)"
      by (simp add: health_inv_def check_failed_def)
    from "2.IH" (2) [OF r [symmetric] Err] step inv show ?thesis by simp
  next
    case (Panic p)
    with r "2.prems" show ?thesis by simp
  qed
qed

lemma ready_inv:
  "ready now h deps s c = (s', Ok st) \<Longrightarrow>
     health_inv st \<and> map ds_name (hs_checks st) = map fst deps"
  unfolding ready_def by (drule ready_loop_inv) (simp_all add: health_inv_def)

end
