(* ===== verification/ApiCore.thy ===== *)
theory ApiCore
  imports ServiceTypes GoJson GoTime TopicHealth
begin

text \<open>
  The shared part of \<open>internal/api\<close>: the response bodies of every handler, \<open>classify\<close> and
  \<open>write_error\<close> (\<open>errors.go\<close>), \<open>respond_json\<close> (\<open>respond.go\<close>).

  A response is its status, content type and body. \<open>respond_json\<close> writes the status before it
  encodes the body, so a body that cannot be encoded (invalid raw JSON, a timestamp whose year
  is outside 0 to 9999) leaves a response with no body: \<open>encodable\<close> is the condition.
\<close>

record consumed_json =
  cj_partition :: int
  cj_offset :: int
  cj_key :: string
  cj_key_encoding :: string
  cj_value :: string
  cj_value_encoding :: string
  cj_headers :: "(string \<times> string) list"
  cj_timestamp :: int

record consume_response =
  cs_topic :: string
  cs_partition :: int
  cs_count :: nat
  cs_scanned :: nat
  cs_messages :: "consumed_json list"

record record_offset =
  ro_partition :: int
  ro_offset :: int

record publish_response =
  pu_topic :: string
  pu_published :: nat
  pu_offsets :: "record_offset list"

record partition_json =
  pj_id :: int
  pj_leader :: int
  pj_replicas :: "int list"
  pj_isr :: "int list"
  pj_low :: int
  pj_high :: int

record topic_response =
  tr_name :: string
  tr_replication :: int
  tr_partitions :: "partition_json list"

record health_check =
  hc_name :: string
  hc_status :: string
  hc_error :: "atom list"

record health_response =
  hr_status :: string
  hr_version :: string
  hr_uptime :: int
  hr_checks :: "health_check list"

datatype payload =
    PError string "atom list"
  | PPublish publish_response
  | PConsume consume_response
  | PTopics "string list" nat
  | PTopic topic_response
  | PHealth health_response
  | PRaw string

record response =
  rp_status :: int
  rp_content_type :: string
  rp_body :: "payload option"

section \<open>Encoding a body\<close>

text \<open>The instants whose year has four digits: from 0000-01-01 up to 10000-01-01, excluded.\<close>

definition year_in_range :: "int \<Rightarrow> bool" where
  "year_in_range t \<longleftrightarrow> -62167219200 * ns_per_sec \<le> t \<and> t < 253402300800 * ns_per_sec"

definition encodable :: "payload \<Rightarrow> bool" where
  "encodable p =
     (case p of
        PConsume r \<Rightarrow> list_all (\<lambda>m. json_valid (cj_value m) \<and> year_in_range (cj_timestamp m)) (cs_messages r)
      | _ \<Rightarrow> True)"

definition json_content_type :: string where
  "json_content_type = ''application/json; charset=utf-8''"

definition respond_json :: "int \<Rightarrow> payload \<Rightarrow> response" where
  "respond_json status p =
     \<lparr>rp_status = status, rp_content_type = json_content_type,
      rp_body = (if encodable p then Some p else None)\<rparr>"

section \<open>Errors\<close>

definition classify :: "goerr \<Rightarrow> int \<times> string" where
  "classify err =
     (if is_err err ErrEmptyTopic \<or> is_err err ErrEmptyValue \<or> is_err err ErrNoMessages \<or>
         is_err err ErrBadRequest
      then (400, ''invalid_request'')
      else if is_err err ErrTopicNotFound then (404, ''topic_not_found'')
      else if is_err err DeadlineExceeded then (504, ''kafka_timeout'')
      else if is_err err Canceled then (499, ''client_closed_request'')
      else (502, ''kafka_error''))"

definition write_error :: "goerr \<Rightarrow> response" where
  "write_error err = (case classify err of (status, code) \<Rightarrow> respond_json status (PError code (error_text err)))"

lemma classify_statuses: "fst (classify err) \<in> {400, 404, 504, 499, 502}"
  by (simp add: classify_def)

text \<open>The code of an error body and its status determine each other.\<close>

lemma classify_inj: "fst (classify e) = fst (classify e') \<longleftrightarrow> snd (classify e) = snd (classify e')"
  by (auto simp: classify_def)

lemma write_error_simps [simp]:
  "rp_status (write_error e) = fst (classify e)"
  "rp_body (write_error e) = Some (PError (snd (classify e)) (error_text e))"
  by (auto simp: write_error_def respond_json_def encodable_def split: prod.splits)

definition bad_request :: "goerr part list \<Rightarrow> goerr" where
  "bad_request ps = Errorf (W (Sentinel ErrBadRequest) # A (Lit '': '') # ps)"

lemma is_err_bad_request [simp]: "is_err (bad_request ps) ErrBadRequest"
  by (simp add: bad_request_def)

lemma classify_400:
  "is_err e ErrBadRequest \<Longrightarrow> classify e = (400, ''invalid_request'')"
  "is_err e ErrEmptyTopic \<Longrightarrow> classify e = (400, ''invalid_request'')"
  "is_err e ErrEmptyValue \<Longrightarrow> classify e = (400, ''invalid_request'')"
  "is_err e ErrNoMessages \<Longrightarrow> classify e = (400, ''invalid_request'')"
  by (simp_all add: classify_def)

text \<open>Wrapping with text in front does not change the class: \<open>fmt.Errorf("...%w", err)\<close>.\<close>

lemma classify_wrap: "wrapped ps = [e] \<Longrightarrow> classify (Errorf ps) = classify e"
  by (simp add: classify_def)

end
