(* ===== verification/ApiParams.thy ===== *)
theory ApiParams
  imports ApiCore "HOL-Library.AList"
begin

text \<open>
  \<open>internal/api/params.go\<close>: the query parameters and the encodings of keys and values.
  \<open>url.Values\<close> is the function from a name to the list of its values.
\<close>

type_synonym url_values = "string \<Rightarrow> string list"

definition url_get :: "url_values \<Rightarrow> string \<Rightarrow> string" where
  "url_get q k = (case q k of [] \<Rightarrow> '''' | v # vs \<Rightarrow> v)"

definition url_has :: "url_values \<Rightarrow> string \<Rightarrow> bool" where
  "url_has q k \<longleftrightarrow> q k \<noteq> []"

text \<open>Text between apostrophes (0x27) in an error message.\<close>

definition apos :: "string \<Rightarrow> string" where
  "apos s = CHR 0x27 # s @ [CHR 0x27]"

definition int_param :: "url_values \<Rightarrow> string \<Rightarrow> int \<Rightarrow> int outcome" where
  "int_param q key def =
     (let v = url_get q key
      in if v = '''' then Ok def
         else (case parse_int64 v of
                 None \<Rightarrow> Err (bad_request [A (Quo key), A (Lit '' must be an integer'')])
               | Some n \<Rightarrow> Ok n))"

definition duration_param :: "url_values \<Rightarrow> string \<Rightarrow> int \<Rightarrow> int outcome" where
  "duration_param q key def =
     (let v = url_get q key
      in if v = '''' then Ok def
         else (case parse_duration v of
                 None \<Rightarrow> Err (bad_request [A (Quo key), A (Lit '' must be a duration (e.g. 5s)'')])
               | Some d \<Rightarrow>
                   if d < 0 then Err (bad_request [A (Quo key), A (Lit '' must not be negative'')])
                   else Ok d))"

definition offset_form :: "goerr part" where
  "offset_form =
     A (Lit ('' must be '' @ apos ''earliest'' @ '', '' @ apos ''latest'' @ '', or a non-negative integer''))"

definition offset_param :: "url_values \<Rightarrow> string \<Rightarrow> int outcome" where
  "offset_param q key =
     (let v = url_get q key
      in if v = '''' \<or> v = ''earliest'' then Ok offset_earliest
         else if v = ''latest'' then Ok offset_latest
         else (case parse_int64 v of
                 Some n \<Rightarrow>
                   if n < 0
                   then Err (bad_request [A (Quo key), offset_form])
                   else Ok n
               | None \<Rightarrow>
                   Err (bad_request [A (Quo key), offset_form])))"

definition time_param :: "url_values \<Rightarrow> string \<Rightarrow> int option outcome" where
  "time_param q key =
     (let v = url_get q key
      in if v = '''' then Ok None
         else (case parse_rfc3339 v of
                 Some t \<Rightarrow> Ok (Some t)
               | None \<Rightarrow>
                   (case parse_int64 v of
                      Some secs \<Rightarrow> Ok (Some (unix_time secs))
                    | None \<Rightarrow> Err (bad_request [A (Quo key), A (Lit '' must be RFC3339 or Unix seconds'')]))))"

definition key_param :: "url_values \<Rightarrow> string option" where
  "key_param q = (if \<not> url_has q ''key'' then None else Some (url_get q ''key''))"

definition name_value_form :: "goerr part" where
  "name_value_form = A (Lit ('' must be in '' @ apos ''name:value'' @ '' form''))"

text \<open>The loop over the \<open>header\<close> values, with the map it fills.\<close>

fun header_loop :: "string list \<Rightarrow> (string \<times> string) list \<Rightarrow> (string \<times> string) list outcome" where
  "header_loop [] out = Ok out"
| "header_loop (hv # hvs) out =
     (case cut (CHR '':'') hv of
        None \<Rightarrow>
          Err (bad_request [A (Lit ''header filter ''), A (Quo hv), name_value_form])
      | Some (name, value) \<Rightarrow>
          if name = '''' then
            Err (bad_request [A (Lit ''header filter ''), A (Quo hv), name_value_form])
          else header_loop hvs (AList.update name value out))"

definition header_filters :: "url_values \<Rightarrow> (string \<times> string) list outcome" where
  "header_filters q = header_loop (q ''header'') []"

section \<open>Encodings\<close>

definition encoding_json :: string where "encoding_json = ''json''"
definition encoding_utf8 :: string where "encoding_utf8 = ''utf8''"
definition encoding_string :: string where "encoding_string = ''string''"
definition encoding_base64 :: string where "encoding_base64 = ''base64''"

lemmas encoding_defs = encoding_json_def encoding_utf8_def encoding_string_def encoding_base64_def

definition encode_value :: "bytes \<Rightarrow> string \<times> string" where
  "encode_value b =
     (if bytes_len b = 0 then (''null'', encoding_json)
      else if json_valid (bytes_str b) then (bytes_str b, encoding_json)
      else (quote # b64_encode (bytes_str b) @ [quote], encoding_base64))"

definition encode_key :: "bytes \<Rightarrow> string \<times> string" where
  "encode_key b =
     (if bytes_len b = 0 then ('''', '''')
      else if utf8_valid (bytes_str b) then (bytes_str b, encoding_utf8)
      else (b64_encode (bytes_str b), encoding_base64))"

section \<open>Lemmas\<close>

lemma url_get_absent [simp]: "q k = [] \<Longrightarrow> url_get q k = ''''"
  by (simp add: url_get_def)

text \<open>A parameter never panics, and it is refused only as a bad request.\<close>

definition client_error :: "'a outcome \<Rightarrow> bool" where
  "client_error r = (case r of Ok a \<Rightarrow> True | Err e \<Rightarrow> is_err e ErrBadRequest | Panic p \<Rightarrow> False)"

lemma client_error_simps [simp]:
  "client_error (Ok a)" "client_error (Err e) = is_err e ErrBadRequest" "\<not> client_error (Panic p)"
  by (simp_all add: client_error_def)

lemma client_error_try_then:
  "client_error r \<Longrightarrow> (\<And>a. r = Ok a \<Longrightarrow> client_error (k a)) \<Longrightarrow> client_error (try_then r k)"
  by (cases r) simp_all

lemma client_error_header_loop: "client_error (header_loop hvs out)"
  by (induction hvs out rule: header_loop.induct) (auto split: option.splits)

lemma client_error_params:
  "client_error (int_param q k d)" "client_error (duration_param q k d)"
  "client_error (offset_param q k)" "client_error (time_param q k)"
  "client_error (header_filters q)"
  by (auto simp: int_param_def duration_param_def offset_param_def time_param_def header_filters_def
      Let_def client_error_header_loop split: option.splits)

lemma int_param_Ok_range: "in_int64 d \<Longrightarrow> int_param q k d = Ok n \<Longrightarrow> in_int64 n"
  by (auto simp: int_param_def Let_def parse_int64_in_range split: if_splits option.splits)

lemma duration_param_nonneg: "0 \<le> d \<Longrightarrow> duration_param q k d = Ok n \<Longrightarrow> 0 \<le> n"
  by (auto simp: duration_param_def Let_def split: if_splits option.splits)

lemma offset_param_Ok:
  "offset_param q k = Ok n \<Longrightarrow> n = offset_earliest \<or> n = offset_latest \<or> 0 \<le> n"
  by (auto simp: offset_param_def Let_def split: if_splits option.splits)

lemma json_valid_null: "json_valid ''null''"
  by (simp add: json_valid_def parse_json_def skip_ws_def is_ws_def parse_scalar_def quote_def
      numeral_eq_Suc)

lemma encode_value_valid: "json_valid (fst (encode_value b))"
  by (simp add: encode_value_def json_valid_null plain_literal_valid b64_encode_plain)

end
