(* ===== verification/Publisher.thy ===== *)
theory Publisher
  imports ServiceTypes
begin

text \<open>
  \<open>internal/service/publisher.go\<close>: the publish use case. \<open>publish_batch\<close> validates a batch and
  hands it to the \<open>Producer\<close> interface; \<open>publish\<close> is the batch of one. The \<open>slog\<close> debug
  record is not modelled.
\<close>

definition empty_value_error :: "nat \<Rightarrow> goerr" where
  "empty_value_error i =
     Errorf [A (Lit ''message at index ''), A (Num (int i)), A (Lit '': ''), W (Sentinel ErrEmptyValue)]"

definition produce_error :: "string \<Rightarrow> goerr \<Rightarrow> goerr" where
  "produce_error topic e =
     Errorf [A (Lit ''produce to ''), A (Quo topic), A (Lit '': ''), W e]"

definition publish_batch ::
  "'s producer \<Rightarrow> 's \<Rightarrow> ctx \<Rightarrow> string \<Rightarrow> message list \<Rightarrow> 's \<times> publish_result list outcome" where
  "publish_batch produce s c topic msgs =
     (if topic = '''' then (s, Err (Sentinel ErrEmptyTopic))
      else if msgs = [] then (s, Err (Sentinel ErrNoMessages))
      else (case first_match 0 (\<lambda>m. bytes_len (m_value m) = 0) msgs of
              Some (i, m) \<Rightarrow> (s, Err (empty_value_error i))
            | None \<Rightarrow>
                and_then (produce s c topic msgs) (produce_error topic) (\<lambda>s' rs. (s', Ok rs))))"

definition publish ::
  "'s producer \<Rightarrow> 's \<Rightarrow> ctx \<Rightarrow> string \<Rightarrow> message \<Rightarrow> 's \<times> publish_result list outcome" where
  "publish produce s c topic msg = publish_batch produce s c topic [msg]"

text \<open>The specification of an acceptable batch.\<close>

definition valid_batch :: "string \<Rightarrow> message list \<Rightarrow> bool" where
  "valid_batch topic msgs \<longleftrightarrow>
     topic \<noteq> '''' \<and> msgs \<noteq> [] \<and> (\<forall>m \<in> set msgs. bytes_len (m_value m) \<noteq> 0)"

lemma publish_batch_valid:
  "valid_batch topic msgs \<Longrightarrow>
     publish_batch produce s c topic msgs =
       and_then (produce s c topic msgs) (produce_error topic) (\<lambda>s' rs. (s', Ok rs))"
proof -
  assume v: "valid_batch topic msgs"
  then have "first_match 0 (\<lambda>m. bytes_len (m_value m) = 0) msgs = None"
    by (auto simp: valid_batch_def first_match_None_iff)
  with v show ?thesis by (simp add: publish_batch_def valid_batch_def)
qed

lemma publish_batch_invalid:
  assumes "\<not> valid_batch topic msgs"
  obtains e where "publish_batch produce s c topic msgs = (s, Err e)"
    and "is_err e ErrEmptyTopic \<or> is_err e ErrNoMessages \<or> is_err e ErrEmptyValue"
proof (cases "topic = '''' \<or> msgs = []")
  case True
  then show thesis
    by (intro that [of "if topic = '''' then Sentinel ErrEmptyTopic else Sentinel ErrNoMessages"])
      (auto simp: publish_batch_def)
next
  case False
  with assms have "first_match 0 (\<lambda>m. bytes_len (m_value m) = 0) msgs \<noteq> None"
    by (auto simp: valid_batch_def first_match_None_iff)
  then obtain i m where "first_match 0 (\<lambda>m. bytes_len (m_value m) = 0) msgs = Some (i, m)"
    by auto
  with False show thesis
    by (intro that [of "empty_value_error i"]) (simp_all add: publish_batch_def empty_value_error_def)
qed

lemma publish_batch_Ok_iff:
  "publish_batch produce s c topic msgs = (s', Ok rs) \<longleftrightarrow>
     valid_batch topic msgs \<and> produce s c topic msgs = (s', Ok rs)"
proof (cases "valid_batch topic msgs")
  case True
  then show ?thesis by (auto simp: publish_batch_valid go_simps)
next
  case False
  then show ?thesis by (auto elim: publish_batch_invalid [of topic msgs produce s c])
qed

context producer_iface begin

text \<open>A successful publish reports either no coordinates or one for each message.\<close>

lemma publish_batch_results:
  "publish_batch produce s c topic msgs = (s', Ok rs) \<Longrightarrow> rs = [] \<or> length rs = length msgs"
  by (auto simp: publish_batch_Ok_iff dest: results_shape)

lemma publish_results:
  "publish produce s c topic msg = (s', Ok rs) \<Longrightarrow> rs = [] \<or> (\<exists>r. rs = [r])"
  by (auto simp: publish_def length_Suc_conv dest!: publish_batch_results)

end

end
