(* ===== verification/ApiPublish.thy ===== *)
theory ApiPublish
  imports ApiParams Publisher
begin

text \<open>
  \<open>internal/api/publish.go\<close>: the publish handlers.

  \<^item> \<open>decode_body\<close> is \<open>decode\<close>: \<open>http.MaxBytesReader\<close>, one strictly decoded JSON value, and the
    \<open>More\<close> check. \<open>decode_message\<close> and \<open>decode_batch\<close> are \<open>encoding/json\<close> on the two request
    structs: member names match under case folding, an unknown member is an error, \<open>null\<close> leaves
    a string or a struct as it is, members that come twice are merged. A type error does not
    stop the library, but the request is refused either way, so the model stops there.
  \<^item> The slots of a decoded slice outlive it: a second \<open>messages\<close> member decodes into the slots
    of the first (\<open>decode_slice\<close>).
  \<^item> The iteration order of a Go map is the parameter \<open>ord\<close>.
  \<^item> A handler returns its response, or the panic that unwound it; \<open>answering\<close> is the
    \<open>writeError(...); return\<close> that every error branch of a handler ends with.
\<close>

type_synonym header_map = "(string \<times> string) list"

record message_request =
  mr_key :: string
  mr_value :: bytes
  mr_value_encoding :: string
  mr_headers :: header_map

section \<open>Decoding\<close>

definition empty_request :: message_request where
  "empty_request = \<lparr>mr_key = '''', mr_value = None, mr_value_encoding = '''', mr_headers = []\<rparr>"

fun decode_header_members :: "header_map \<Rightarrow> (string \<times> string \<times> json) list \<Rightarrow> header_map option" where
  "decode_header_members hm [] = Some hm"
| "decode_header_members hm ((name, raw, v) # ms) =
     (case decode_string '''' v of
        None \<Rightarrow> None
      | Some s \<Rightarrow> decode_header_members (AList.update (unquote name) s hm) ms)"

definition decode_headers :: "header_map \<Rightarrow> json \<Rightarrow> header_map option" where
  "decode_headers hm v =
     (case v of JNull \<Rightarrow> Some [] | JObj ms \<Rightarrow> decode_header_members hm ms | _ \<Rightarrow> None)"

definition decode_member :: "message_request \<Rightarrow> string \<times> string \<times> json \<Rightarrow> message_request option" where
  "decode_member m member =
     (case member of (name, raw, v) \<Rightarrow>
        (let n = unquote name
         in if equal_fold n ''key'' then
              map_option (\<lambda>s. m\<lparr>mr_key := s\<rparr>) (decode_string (mr_key m) v)
            else if equal_fold n ''value'' then Some (m\<lparr>mr_value := Some raw\<rparr>)
            else if equal_fold n ''value_encoding'' then
              map_option (\<lambda>s. m\<lparr>mr_value_encoding := s\<rparr>) (decode_string (mr_value_encoding m) v)
            else if equal_fold n ''headers'' then
              map_option (\<lambda>h. m\<lparr>mr_headers := h\<rparr>) (decode_headers (mr_headers m) v)
            else None))"

definition decode_message :: "message_request \<Rightarrow> json \<Rightarrow> message_request option" where
  "decode_message = decode_struct decode_member"

definition decode_batch_member ::
  "message_request list \<times> nat \<Rightarrow> string \<times> string \<times> json \<Rightarrow> (message_request list \<times> nat) option" where
  "decode_batch_member b member =
     (case member of (name, raw, v) \<Rightarrow>
        if equal_fold (unquote name) ''messages'' then decode_slice decode_message empty_request b v
        else None)"

definition decode_batch :: "json \<Rightarrow> message_request list option" where
  "decode_batch v =
     map_option (\<lambda>(slots, n). take n slots) (decode_struct decode_batch_member ([], 0) v)"

section \<open>Reading the body\<close>

definition invalid_json :: "string \<Rightarrow> goerr" where
  "invalid_json msg = bad_request [A (Lit ''invalid JSON body: ''), W (LibError msg [])]"

definition too_large :: "int \<Rightarrow> goerr" where
  "too_large n = bad_request [A (Lit ''request body exceeds ''), A (Num n), A (Lit '' bytes'')]"

definition not_single :: goerr where
  "not_single = bad_request [A (Lit ''body must contain a single JSON object'')]"

definition is_scalar :: "json \<Rightarrow> bool" where
  "is_scalar v = (case v of JArr vs \<Rightarrow> False | JObj ms \<Rightarrow> False | _ \<Rightarrow> True)"

text \<open>\<open>Decoder.More\<close>: there is a next byte, and it does not close an array or an object.\<close>

definition dec_more :: "string \<Rightarrow> bool" where
  "dec_more r = (case skip_ws r of [] \<Rightarrow> False | c # cs \<Rightarrow> c \<noteq> CHR '']'' \<and> c \<noteq> CHR ''}'')"

text \<open>The reader gives the first \<open>max\<close> bytes; the size error comes when more are asked for, which
  the decoder does for an incomplete value and after a scalar.\<close>

definition decode_body :: "(json \<Rightarrow> 'a option) \<Rightarrow> int \<Rightarrow> string \<Rightarrow> 'a outcome" where
  "decode_body dec max_bytes body =
     (let data = take (nat max_bytes) body; truncated = nat max_bytes < length body
      in case parse_json data of
           PFail \<Rightarrow> Err (invalid_json ''invalid character'')
         | PMore \<Rightarrow> Err (if truncated then too_large max_bytes else invalid_json ''unexpected EOF'')
         | POk v r \<Rightarrow>
             if truncated \<and> r = [] \<and> is_scalar v then Err (too_large max_bytes)
             else (case dec v of
                     None \<Rightarrow> Err (invalid_json ''unknown field or wrong type'')
                   | Some a \<Rightarrow> if dec_more r then Err not_single else Ok a))"

section \<open>Messages\<close>

definition unmarshal_string :: "bytes \<Rightarrow> string option" where
  "unmarshal_string raw =
     (case parse_json (bytes_str raw) of
        POk v r \<Rightarrow> if skip_ws r = [] then decode_string '''' v else None
      | _ \<Rightarrow> None)"

definition decode_publish_value :: "bytes \<Rightarrow> string \<Rightarrow> bytes outcome" where
  "decode_publish_value raw encoding =
     (let enc = go_lower encoding
      in if enc = '''' \<or> enc = encoding_json then Ok raw
         else if enc = encoding_string then
           (case unmarshal_string raw of
              None \<Rightarrow> Err (bad_request [A (Lit ''value must be a JSON string when value_encoding=string'')])
            | Some s \<Rightarrow> Ok (Some s))
         else if enc = encoding_base64 then
           (case unmarshal_string raw of
              None \<Rightarrow> Err (bad_request [A (Lit ''value must be a base64 JSON string when value_encoding=base64'')])
            | Some s \<Rightarrow>
                (case b64_decode s of
                   None \<Rightarrow> Err (bad_request [A (Lit ''value is not valid base64: ''),
                                              W (LibError ''illegal base64 data'' [])])
                 | Some d \<Rightarrow> Ok (Some d)))
         else Err (bad_request [A (Lit ''unknown value_encoding ''), A (Quo encoding),
                                A (Lit '' (want json, string, or base64)'')]))"

definition to_message :: "(header_map \<Rightarrow> header_map) \<Rightarrow> message_request \<Rightarrow> message outcome" where
  "to_message ord m =
     try_then (decode_publish_value (mr_value m) (mr_value_encoding m))
       (\<lambda>value. Ok \<lparr>m_key = (if mr_key m \<noteq> '''' then Some (mr_key m) else None), m_value = value,
                    m_headers =
                      (if length (mr_headers m) > 0
                       then map (\<lambda>(k, v). \<lparr>h_key = k, h_value = Some v\<rparr>) (ord (mr_headers m)) else [])\<rparr>)"

definition index_error :: "nat \<Rightarrow> goerr \<Rightarrow> goerr" where
  "index_error i e = Errorf [A (Lit ''message at index ''), A (Num (int i)), A (Lit '': ''), W e]"

fun to_messages :: "(header_map \<Rightarrow> header_map) \<Rightarrow> nat \<Rightarrow> message_request list \<Rightarrow> message list outcome" where
  "to_messages ord i [] = Ok []"
| "to_messages ord i (m # ms) =
     (case to_message ord m of
        Err e \<Rightarrow> Err (index_error i e)
      | Panic p \<Rightarrow> Panic p
      | Ok msg \<Rightarrow> try_then (to_messages ord (Suc i) ms) (\<lambda>msgs. Ok (msg # msgs)))"

fun to_offsets :: "publish_result list \<Rightarrow> record_offset list" where
  "to_offsets [] = []"
| "to_offsets (r # rs) = \<lparr>ro_partition = pr_partition r, ro_offset = pr_offset r\<rparr> # to_offsets rs"

section \<open>Handlers\<close>

fun answering :: "'s \<times> response outcome \<Rightarrow> 's \<times> response outcome" where
  "answering (s, Err e) = (s, Ok (write_error e))"
| "answering (s, Ok r) = (s, Ok r)"
| "answering (s, Panic p) = (s, Panic p)"

type_synonym 's publisher = "'s \<Rightarrow> ctx \<Rightarrow> string \<Rightarrow> message \<Rightarrow> 's \<times> publish_result list outcome"
type_synonym 's batch_publisher = "'s \<Rightarrow> ctx \<Rightarrow> string \<Rightarrow> message list \<Rightarrow> 's \<times> publish_result list outcome"

definition publish_one_handler ::
  "'s publisher \<Rightarrow> (header_map \<Rightarrow> header_map) \<Rightarrow> int \<Rightarrow> 's \<Rightarrow> ctx \<Rightarrow> string \<Rightarrow> string \<Rightarrow>
     's \<times> response outcome" where
  "publish_one_handler pub ord max_bytes s c topic body =
     answering
       (and_then (s, decode_body (decode_message empty_request) max_bytes body) id (\<lambda>s req.
        and_then (s, to_message ord req) id (\<lambda>s msg.
        and_then (pub s c topic msg) id (\<lambda>s results.
          (s, Ok (respond_json 200
             (PPublish \<lparr>pu_topic = topic, pu_published = 1, pu_offsets = to_offsets results\<rparr>)))))))"

definition batch_too_big :: "nat \<Rightarrow> int \<Rightarrow> goerr" where
  "batch_too_big n mx =
     bad_request [A (Lit ''batch size ''), A (Num (int n)), A (Lit '' exceeds limit ''), A (Num mx)]"

definition publish_batch_handler ::
  "'s batch_publisher \<Rightarrow> (header_map \<Rightarrow> header_map) \<Rightarrow> int \<Rightarrow> int \<Rightarrow> 's \<Rightarrow> ctx \<Rightarrow> string \<Rightarrow> string \<Rightarrow>
     's \<times> response outcome" where
  "publish_batch_handler pub ord max_bytes max_batch s c topic body =
     answering
       (and_then (s, decode_body decode_batch max_bytes body) id (\<lambda>s reqs.
        if int (length reqs) > max_batch then (s, Err (batch_too_big (length reqs) max_batch))
        else and_then (s, to_messages ord 0 reqs) id (\<lambda>s msgs.
             and_then (pub s c topic msgs) id (\<lambda>s results.
               (s, Ok (respond_json 200
                  (PPublish \<lparr>pu_topic = topic, pu_published = length msgs,
                             pu_offsets = to_offsets results\<rparr>)))))))"

section \<open>Lemmas\<close>

lemma to_offsets_map: "to_offsets rs = map (\<lambda>r. \<lparr>ro_partition = pr_partition r, ro_offset = pr_offset r\<rparr>) rs"
  by (induction rs) simp_all

lemma length_to_offsets [simp]: "length (to_offsets rs) = length rs"
  by (simp add: to_offsets_map)

lemma respond_publish [simp]:
  "respond_json st (PPublish r) =
     \<lparr>rp_status = st, rp_content_type = json_content_type, rp_body = Some (PPublish r)\<rparr>"
  by (simp add: respond_json_def encodable_def)

lemma client_error_decode_body: "client_error (decode_body dec mx body)"
  by (auto simp: decode_body_def Let_def invalid_json_def too_large_def not_single_def
      split: pres.splits option.splits)

lemma client_error_decode_value: "client_error (decode_publish_value raw enc)"
  by (auto simp: decode_publish_value_def Let_def split: option.splits)

lemma client_error_to_message: "client_error (to_message ord m)"
  unfolding to_message_def by (rule client_error_try_then [OF client_error_decode_value]) simp

lemma client_error_to_messages: "client_error (to_messages ord i ms)"
proof (induction ms arbitrary: i)
  case Nil
  then show ?case by simp
next
  case (Cons m ms)
  show ?case
    using client_error_to_message [of ord m] Cons [of "Suc i"]
    by (cases "to_message ord m") (auto simp: index_error_def client_error_try_then)
qed

lemma client_error_status: "client_error r \<Longrightarrow> r = Err e \<Longrightarrow> classify e = (400, ''invalid_request'')"
  by (simp add: classify_400)

lemma to_messages_length: "to_messages ord i ms = Ok msgs \<Longrightarrow> length msgs = length ms"
  by (induction ms arbitrary: i msgs) (auto simp: go_simps split: outcome.splits)

lemma to_messages_nth:
  "to_messages ord i ms = Ok msgs \<Longrightarrow> k < length ms \<Longrightarrow> to_message ord (ms ! k) = Ok (msgs ! k)"
proof (induction ms arbitrary: i k msgs)
  case Nil
  then show ?case by simp
next
  case (Cons m ms)
  from Cons.prems(1) obtain msg rest where "to_message ord m = Ok msg"
    "to_messages ord (Suc i) ms = Ok rest" "msgs = msg # rest"
    by (auto simp: go_simps split: outcome.splits)
  with Cons.prems(2) Cons.IH [of "Suc i" rest "k - 1"] show ?case by (cases k) simp_all
qed

lemma answering_Ok_iff:
  "answering r = (s', Ok rsp) \<longleftrightarrow> r = (s', Ok rsp) \<or> (\<exists>e. r = (s', Err e) \<and> rsp = write_error e)"
  by (cases r rule: answering.cases) auto

text \<open>An error response never has status 200, so a 200 comes from the last line of a handler.\<close>

lemma classify_not_200 [simp]: "fst (classify e) \<noteq> 200"
  using classify_statuses [of e] by auto

lemma answering_200_iff:
  "rp_status rsp = 200 \<Longrightarrow> answering r = (s', Ok rsp) \<longleftrightarrow> r = (s', Ok rsp)"
  by (auto simp: answering_Ok_iff)

section \<open>What a handler guarantees\<close>

lemma guard_Ok_iff: "(if g then (s, Err e) else r) = (s', Ok a) \<longleftrightarrow> \<not> g \<and> r = (s', Ok a)"
  by simp

text \<open>Without a 200 from the use case, no messages were given to it, or it failed.\<close>

lemma publish_one_handler_200_iff:
  assumes "rp_status rsp = 200"
  shows "publish_one_handler pub ord mx s c topic body = (s', Ok rsp) \<longleftrightarrow>
    (\<exists>req msg rs. decode_body (decode_message empty_request) mx body = Ok req \<and>
       to_message ord req = Ok msg \<and> pub s c topic msg = (s', Ok rs) \<and>
       rsp = respond_json 200 (PPublish \<lparr>pu_topic = topic, pu_published = 1, pu_offsets = to_offsets rs\<rparr>))"
  using assms by (auto simp: publish_one_handler_def answering_200_iff go_simps)

lemma publish_batch_handler_200_iff:
  assumes "rp_status rsp = 200"
  shows "publish_batch_handler pub ord mx mb s c topic body = (s', Ok rsp) \<longleftrightarrow>
    (\<exists>reqs msgs rs. decode_body decode_batch mx body = Ok reqs \<and> int (length reqs) \<le> mb \<and>
       to_messages ord 0 reqs = Ok msgs \<and> pub s c topic msgs = (s', Ok rs) \<and>
       rsp = respond_json 200
         (PPublish \<lparr>pu_topic = topic, pu_published = length msgs, pu_offsets = to_offsets rs\<rparr>))"
  using assms
  by (auto simp: publish_batch_handler_def answering_200_iff go_simps guard_Ok_iff not_less)

text \<open>The value a consumer gets can be published again as it is, with its encoding tag.\<close>

lemma unmarshal_plain:
  "\<forall>c \<in> set s. plain_char c \<Longrightarrow> unmarshal_string (Some (quote # s @ [quote])) = Some s"
  by (simp add: unmarshal_string_def plain_literal skip_ws_def decode_string_def plain_unquote)

lemma decode_encoded_value:
  assumes "bytes_len (Some b) \<noteq> 0"
  shows "decode_publish_value (Some (fst (encode_value (Some b)))) (snd (encode_value (Some b))) = Ok (Some b)"
proof (cases "json_valid b")
  case True
  with assms show ?thesis
    by (simp add: encode_value_def decode_publish_value_def go_lower_ascii is_ascii_def
        encoding_defs lower_char_def Let_def)
next
  case False
  with assms show ?thesis
    by (simp add: encode_value_def decode_publish_value_def go_lower_ascii is_ascii_def
        encoding_defs lower_char_def Let_def unmarshal_plain b64_encode_plain b64_decode_encode)
qed

end
