(* ===== verification/Consumer.thy ===== *)
theory Consumer
  imports ServiceTypes
begin

text \<open>
  \<open>internal/service/consumer.go\<close>: the consume use case. \<open>matches\<close> and \<open>has_header\<close> are the
  message filter, \<open>clamp\<close> and \<open>clamp_duration\<close> the limits, \<open>consume\<close> validates a query,
  bounds it, scans through the \<open>MessageReader\<close> interface and filters. \<open>now\<close> is the clock
  \<open>context.WithTimeout\<close> reads.
\<close>

definition is_zero_filter :: "message_filter \<Rightarrow> bool" where
  "is_zero_filter f \<longleftrightarrow>
     mf_key f = None \<and> length (mf_headers f) = 0 \<and> mf_since f = None \<and> mf_until f = None"

fun has_header :: "header list \<Rightarrow> string \<Rightarrow> string \<Rightarrow> bool" where
  "has_header [] key value = False"
| "has_header (h # hs) key value =
     (if h_key h = key \<and> bytes_str (h_value h) = value then True else has_header hs key value)"

text \<open>The \<open>range\<close> over the filter's headers: the first one missing answers false.\<close>

fun all_headers :: "header list \<Rightarrow> (string \<times> string) list \<Rightarrow> bool" where
  "all_headers hs [] = True"
| "all_headers hs ((k, v) # rest) = (if \<not> has_header hs k v then False else all_headers hs rest)"

definition matches :: "message_filter \<Rightarrow> consumed_message \<Rightarrow> bool" where
  "matches f m =
     (if (case mf_key f of None \<Rightarrow> False | Some k \<Rightarrow> bytes_str (cm_key m) \<noteq> k) then False
      else if (case mf_since f of None \<Rightarrow> False | Some t \<Rightarrow> cm_timestamp m < t) then False
      else if (case mf_until f of None \<Rightarrow> False | Some t \<Rightarrow> t < cm_timestamp m) then False
      else all_headers (cm_headers m) (mf_headers f))"

definition clamp :: "int \<Rightarrow> int \<Rightarrow> int \<Rightarrow> int" where
  "clamp v def mx = (let v = (if v \<le> 0 then def else v) in if v > mx then mx else v)"

definition clamp_duration :: "int \<Rightarrow> int \<Rightarrow> int \<Rightarrow> int" where
  "clamp_duration v def mx = (let v = (if v \<le> 0 then def else v) in if v > mx then mx else v)"

fun filter_loop :: "message_filter \<Rightarrow> consumed_message list \<Rightarrow> consumed_message list \<Rightarrow>
    consumed_message list" where
  "filter_loop f [] out = out"
| "filter_loop f (m # ms) out = filter_loop f ms (if matches f m then out @ [m] else out)"

definition invalid_query :: "string \<Rightarrow> goerr" where
  "invalid_query what = Errorf [W (Sentinel ErrInvalidQuery), A (Lit ('': '' @ what))]"

text \<open>The text \<open>'until' must not be before 'since'\<close>; 0x27 is the apostrophe.\<close>

definition quoted_until_since :: string where
  "quoted_until_since =
     CHR 0x27 # ''until'' @ CHR 0x27 # '' must not be before '' @ CHR 0x27 # ''since'' @ [CHR 0x27]"

definition consume_error :: "string \<Rightarrow> goerr \<Rightarrow> goerr" where
  "consume_error topic e =
     Errorf [A (Lit ''consume from ''), A (Quo topic), A (Lit '': ''), W e]"

definition read_request_of :: "consumer_config \<Rightarrow> consume_query \<Rightarrow> read_request" where
  "read_request_of cfg q =
     \<lparr>rr_topic = cq_topic q, rr_partition = cq_partition q, rr_offset = cq_offset q,
      rr_from_time = cq_from_time q,
      rr_limit = clamp (cq_limit q) (cc_default_limit cfg) (cc_max_limit cfg)\<rparr>"

definition consume ::
  "'s reader \<Rightarrow> ('s \<Rightarrow> int) \<Rightarrow> consumer_config \<Rightarrow> 's \<Rightarrow> ctx \<Rightarrow> consume_query \<Rightarrow>
     's \<times> consume_result outcome" where
  "consume read now cfg s c q =
     (if cq_topic q = '''' then (s, Err (Sentinel ErrEmptyTopic))
      else if cq_partition q < 0 then (s, Err (invalid_query ''partition must be >= 0''))
      else if (case (mf_since (cq_filter q), mf_until (cq_filter q)) of
                 (Some since, Some until) \<Rightarrow> until < since | _ \<Rightarrow> False)
        then (s, Err (invalid_query quoted_until_since))
      else
        (let wait = clamp_duration (cq_timeout q) (cc_default_wait cfg) (cc_max_wait cfg);
             c' = with_timeout (now s) c wait
         in and_then (read s c' (read_request_of cfg q)) (consume_error (cq_topic q))
              (\<lambda>s' scanned.
                 (s', Ok \<lparr>cr_messages =
                            (if \<not> is_zero_filter (cq_filter q)
                             then filter_loop (cq_filter q) scanned [] else scanned),
                          cr_scanned = length scanned\<rparr>))))"

section \<open>Filters\<close>

lemma has_header_iff:
  "has_header hs k v \<longleftrightarrow> (\<exists>h \<in> set hs. h_key h = k \<and> bytes_str (h_value h) = v)"
  by (induction hs) auto

lemma all_headers_iff: "all_headers hs fs \<longleftrightarrow> (\<forall>(k, v) \<in> set fs. has_header hs k v)"
  by (induction hs fs rule: all_headers.induct) auto

lemma filter_loop_filter: "filter_loop f ms out = out @ filter (matches f) ms"
  by (induction ms arbitrary: out) auto

text \<open>The criteria of a filter as one predicate: every one set must hold.\<close>

definition satisfies :: "message_filter \<Rightarrow> consumed_message \<Rightarrow> bool" where
  "satisfies f m \<longleftrightarrow>
     (\<forall>k. mf_key f = Some k \<longrightarrow> bytes_str (cm_key m) = k) \<and>
     (\<forall>t. mf_since f = Some t \<longrightarrow> t \<le> cm_timestamp m) \<and>
     (\<forall>t. mf_until f = Some t \<longrightarrow> cm_timestamp m \<le> t) \<and>
     (\<forall>k v. (k, v) \<in> set (mf_headers f) \<longrightarrow>
        (\<exists>h \<in> set (cm_headers m). h_key h = k \<and> bytes_str (h_value h) = v))"

lemma matches_satisfies: "matches f = satisfies f"
  by (rule ext) (auto simp: matches_def satisfies_def all_headers_iff has_header_iff split: option.splits)

lemma zero_filter_satisfies: "is_zero_filter f \<Longrightarrow> satisfies f = (\<lambda>m. True)"
  by (rule ext) (simp add: is_zero_filter_def satisfies_def)

lemma filtered_messages:
  "(if \<not> is_zero_filter f then filter_loop f ms [] else ms) = filter (satisfies f) ms"
  by (auto simp: filter_loop_filter matches_satisfies zero_filter_satisfies)

section \<open>Limits\<close>

lemma clamp_le: "clamp v d mx \<le> mx"
  by (simp add: clamp_def Let_def)

lemma clamp_positive: "1 \<le> d \<Longrightarrow> d \<le> mx \<Longrightarrow> 1 \<le> clamp v d mx"
  by (auto simp: clamp_def Let_def)

lemma clamp_id: "0 < v \<Longrightarrow> v \<le> mx \<Longrightarrow> clamp v d mx = v"
  by (simp add: clamp_def Let_def)

lemma clamp_duration_eq: "clamp_duration v d mx = clamp v d mx"
  by (simp add: clamp_def clamp_duration_def)

section \<open>The use case\<close>

definition valid_query :: "consume_query \<Rightarrow> bool" where
  "valid_query q \<longleftrightarrow>
     cq_topic q \<noteq> '''' \<and> 0 \<le> cq_partition q \<and>
     (\<forall>a b. mf_since (cq_filter q) = Some a \<longrightarrow> mf_until (cq_filter q) = Some b \<longrightarrow> a \<le> b)"

definition scan_ctx :: "('s \<Rightarrow> int) \<Rightarrow> consumer_config \<Rightarrow> 's \<Rightarrow> ctx \<Rightarrow> consume_query \<Rightarrow> ctx" where
  "scan_ctx now cfg s c q =
     with_timeout (now s) c (clamp (cq_timeout q) (cc_default_wait cfg) (cc_max_wait cfg))"

lemma consume_valid:
  "valid_query q \<Longrightarrow>
     consume read now cfg s c q =
       and_then (read s (scan_ctx now cfg s c q) (read_request_of cfg q)) (consume_error (cq_topic q))
         (\<lambda>s' scanned. (s', Ok \<lparr>cr_messages = filter (satisfies (cq_filter q)) scanned,
                                cr_scanned = length scanned\<rparr>))"
  by (auto simp: consume_def valid_query_def scan_ctx_def Let_def clamp_duration_eq filtered_messages
      linorder_not_less [symmetric] split: option.splits)

lemma consume_invalid:
  assumes "\<not> valid_query q"
  obtains e where "consume read now cfg s c q = (s, Err e)"
    and "e = Sentinel ErrEmptyTopic \<or> is_err e ErrInvalidQuery"
proof (cases "cq_topic q = ''''")
  case True
  then show thesis by (intro that [of "Sentinel ErrEmptyTopic"]) (simp_all add: consume_def)
next
  case False
  note topic = this
  show thesis
  proof (cases "cq_partition q < 0")
    case True
    with topic show thesis
      by (intro that [of "invalid_query ''partition must be >= 0''"])
        (simp_all add: consume_def invalid_query_def)
  next
    case False
    with topic assms obtain a b
      where "mf_since (cq_filter q) = Some a" "mf_until (cq_filter q) = Some b" "b < a"
      by (auto simp: valid_query_def not_le)
    with topic False show thesis
      by (intro that [of "invalid_query quoted_until_since"])
        (simp_all add: consume_def invalid_query_def)
  qed
qed

lemma consume_Ok_iff:
  "consume read now cfg s c q = (s', Ok res) \<longleftrightarrow>
     valid_query q \<and>
     (\<exists>scanned. read s (scan_ctx now cfg s c q) (read_request_of cfg q) = (s', Ok scanned) \<and>
        res = \<lparr>cr_messages = filter (satisfies (cq_filter q)) scanned, cr_scanned = length scanned\<rparr>)"
proof (cases "valid_query q")
  case True
  then show ?thesis by (auto simp: consume_valid go_simps)
next
  case False
  then show ?thesis by (auto elim: consume_invalid [of q read now cfg s c])
qed

context reader_iface begin

text \<open>What a caller gets is bounded by the configured maximum, whatever it asked for.\<close>

lemma consume_bounded:
  assumes "consume read now cfg s c q = (s', Ok res)"
  shows "length (cr_messages res) \<le> cr_scanned res"
    and "int (cr_scanned res) \<le> cc_max_limit cfg"
proof -
  from assms obtain scanned where
    r: "read s (scan_ctx now cfg s c q) (read_request_of cfg q) = (s', Ok scanned)"
    and res: "res = \<lparr>cr_messages = filter (satisfies (cq_filter q)) scanned,
                     cr_scanned = length scanned\<rparr>"
    by (auto simp: consume_Ok_iff)
  show "length (cr_messages res) \<le> cr_scanned res" by (simp add: res)
  have "int (length scanned) \<le> rr_limit (read_request_of cfg q)"
    by (rule read_bounded [OF r])
  also have "\<dots> \<le> cc_max_limit cfg"
    by (simp add: read_request_of_def clamp_le)
  finally show "int (cr_scanned res) \<le> cc_max_limit cfg" by (simp add: res)
qed

end

end
