(* ===== verification/ApiConsume.thy ===== *)
theory ApiConsume
  imports ApiPublish Consumer
begin

text \<open>
  \<open>internal/api/consume.go\<close>: the consume handler. \<open>parse_consume_query\<close> reads the parameters in
  the code's order, the first bad one ends it; \<open>to_consumed_messages\<close> renders the messages;
  \<open>consume_handler\<close> is the handler over the \<open>MessageConsumer\<close> interface.
\<close>

definition parse_consume_query :: "string \<Rightarrow> url_values \<Rightarrow> consume_query outcome" where
  "parse_consume_query topic q =
     try_then (int_param q ''partition'' 0) (\<lambda>partition.
     try_then (offset_param q ''offset'') (\<lambda>offset.
     try_then (int_param q ''limit'' 0) (\<lambda>limit.
     try_then (duration_param q ''timeout'' 0) (\<lambda>timeout.
     try_then (time_param q ''from_timestamp'') (\<lambda>from_time.
     try_then (time_param q ''since'') (\<lambda>since.
     try_then (time_param q ''until'') (\<lambda>until.
     try_then (header_filters q) (\<lambda>headers.
       Ok \<lparr>cq_topic = topic, cq_partition = partition, cq_offset = offset, cq_from_time = from_time,
           cq_limit = limit, cq_timeout = timeout,
           cq_filter = \<lparr>mf_key = key_param q, mf_headers = headers, mf_since = since,
                        mf_until = until\<rparr>\<rparr>))))))))"

text \<open>The headers of a message as a map: the last of two headers with one name stays.\<close>

fun header_map_of :: "header list \<Rightarrow> header_map \<Rightarrow> header_map" where
  "header_map_of [] out = out"
| "header_map_of (h # hs) out =
     header_map_of hs (AList.update (h_key h) (bytes_str (h_value h)) out)"

definition render_message :: "consumed_message \<Rightarrow> consumed_json" where
  "render_message m =
     (case (encode_key (cm_key m), encode_value (cm_value m)) of
        ((key, key_enc), (val, val_enc)) \<Rightarrow>
          \<lparr>cj_partition = cm_partition m, cj_offset = cm_offset m, cj_key = key,
           cj_key_encoding = key_enc, cj_value = val, cj_value_encoding = val_enc,
           cj_headers = (if length (cm_headers m) > 0 then header_map_of (cm_headers m) [] else []),
           cj_timestamp = cm_timestamp m\<rparr>)"

definition to_consumed_messages :: "consumed_message list \<Rightarrow> consumed_json list" where
  "to_consumed_messages msgs = map render_message msgs"

type_synonym 's message_consumer = "'s \<Rightarrow> ctx \<Rightarrow> consume_query \<Rightarrow> 's \<times> consume_result outcome"

definition consume_handler ::
  "'s message_consumer \<Rightarrow> 's \<Rightarrow> ctx \<Rightarrow> string \<Rightarrow> url_values \<Rightarrow> 's \<times> response outcome" where
  "consume_handler consumer s c topic q =
     answering
       (and_then (s, parse_consume_query topic q) id (\<lambda>s query.
        and_then (consumer s c query) id (\<lambda>s result.
          (s, Ok (respond_json 200
             (PConsume \<lparr>cs_topic = topic, cs_partition = cq_partition query,
                        cs_count = length (cr_messages result), cs_scanned = cr_scanned result,
                        cs_messages = to_consumed_messages (cr_messages result)\<rparr>))))))"

section \<open>Parameters\<close>

lemma client_error_parse: "client_error (parse_consume_query topic q)"
  unfolding parse_consume_query_def
  by (intro client_error_try_then client_error_params) simp

text \<open>A query that was parsed is inside the ranges the use case and the reader rely on.\<close>

lemma parse_consume_query_Ok:
  assumes "parse_consume_query topic q = Ok query"
  shows "cq_topic query = topic" and "in_int64 (cq_partition query)" and "in_int64 (cq_limit query)"
    and "0 \<le> cq_timeout query"
    and "cq_offset query = offset_earliest \<or> cq_offset query = offset_latest \<or> 0 \<le> cq_offset query"
    and "mf_key (cq_filter query) = key_param q"
  using assms
  by (auto simp: parse_consume_query_def go_simps in_int64_def min_int64_def max_int64_def
      dest!: int_param_Ok_range [rotated] duration_param_nonneg [rotated] dest: offset_param_Ok)

section \<open>Rendering\<close>

lemma map_of_header_map_of:
  "map_of (header_map_of hs out) k =
     (case map_of (rev (map (\<lambda>h. (h_key h, bytes_str (h_value h))) hs)) k of
        None \<Rightarrow> map_of out k | Some v \<Rightarrow> Some v)"
  by (induction hs arbitrary: out) (auto simp: update_conv' map_add_def split: option.splits)

lemma rendered_fields [simp]:
  "cj_value (render_message m) = fst (encode_value (cm_value m))"
  "cj_value_encoding (render_message m) = snd (encode_value (cm_value m))"
  "cj_timestamp (render_message m) = cm_timestamp m"
  "cj_partition (render_message m) = cm_partition m"
  "cj_offset (render_message m) = cm_offset m"
  "cj_key (render_message m) = fst (encode_key (cm_key m))"
  "cj_key_encoding (render_message m) = snd (encode_key (cm_key m))"
  by (simp_all add: render_message_def split: prod.splits)

text \<open>Only a timestamp outside the years 0 to 9999 can leave a consume response without a body.\<close>

lemma encodable_consume:
  "encodable (PConsume (r\<lparr>cs_messages := to_consumed_messages ms\<rparr>)) \<longleftrightarrow>
     (\<forall>m \<in> set ms. year_in_range (cm_timestamp m))"
  by (auto simp: encodable_def to_consumed_messages_def list_all_iff encode_value_valid)

section \<open>The handler\<close>

lemma consume_handler_200_iff:
  assumes "rp_status rsp = 200"
  shows "consume_handler consumer s c topic q = (s', Ok rsp) \<longleftrightarrow>
    (\<exists>query result. parse_consume_query topic q = Ok query \<and>
       consumer s c query = (s', Ok result) \<and>
       rsp = respond_json 200
         (PConsume \<lparr>cs_topic = topic, cs_partition = cq_partition query,
                    cs_count = length (cr_messages result), cs_scanned = cr_scanned result,
                    cs_messages = to_consumed_messages (cr_messages result)\<rparr>))"
  using assms by (auto simp: consume_handler_def answering_200_iff go_simps)

lemma consume_handler_bad_parameter:
  assumes "parse_consume_query topic q = Err e"
  shows "consume_handler consumer s c topic q = (s, Ok (write_error e))"
    and "classify e = (400, ''invalid_request'')"
  using assms client_error_parse [of topic q] by (simp_all add: consume_handler_def classify_400)

section \<open>Keys\<close>

text \<open>What a client that reads the tag recovers from a rendered key.\<close>

definition decode_key :: "string \<Rightarrow> string \<Rightarrow> string option" where
  "decode_key k tag =
     (if tag = encoding_base64 then b64_decode k else if tag = encoding_utf8 \<or> tag = '''' then Some k
      else None)"

lemma decode_encoded_key: "decode_key (fst (encode_key b)) (snd (encode_key b)) = Some (bytes_str b)"
  by (auto simp: encode_key_def decode_key_def bytes_len_0_iff encoding_defs b64_decode_encode)

end
