(* ===== verification/GoCompact.thy ===== *)
theory GoCompact
  imports GoJson
begin

text \<open>
  The compaction that \<open>encoding/json\<close> applies to a \<open>json.RawMessage\<close> (\<open>appendCompact\<close> with HTML
  escaping): white space outside strings goes; inside strings \<open><\<close>, \<open>>\<close>, \<open>&\<close>, U+2028 and U+2029
  become \<open>\u\<close> escapes. The flag of \<open>compact\<close> says whether the text starts inside a string.

  \<open>raw_text\<close> is the text that can stand between the quotes of a JSON string: exactly what
  \<open>scan_string\<close> accepts (\<open>scan_raw\<close>, \<open>scan_string_raw\<close>). Compaction keeps such a text one
  (\<open>raw_text_compact\<close>) and keeps the Go string it stands for (\<open>unquote_compact\<close>).
\<close>

section \<open>Compaction\<close>

definition html_char :: "char \<Rightarrow> bool" where
  "html_char c \<longleftrightarrow> c = CHR ''<'' \<or> c = CHR ''>'' \<or> c = CHR ''&''"

definition hex_digit :: "nat \<Rightarrow> char" where
  "hex_digit n = ''0123456789abcdef'' ! n"

definition unicode_escape :: "nat \<Rightarrow> string" where
  "unicode_escape n =
     [backslash, CHR ''u'', hex_digit (n div 4096 mod 16), hex_digit (n div 256 mod 16),
      hex_digit (n div 16 mod 16), hex_digit (n mod 16)]"

definition line_separator :: "string \<Rightarrow> bool" where
  "line_separator s \<longleftrightarrow>
     take 3 s = [CHR 0xE2, CHR 0x80, CHR 0xA8] \<or> take 3 s = [CHR 0xE2, CHR 0x80, CHR 0xA9]"

definition separator_rune :: "char \<Rightarrow> nat" where
  "separator_rune l = (if l = CHR 0xA8 then 0x2028 else 0x2029)"

function compact :: "bool \<Rightarrow> string \<Rightarrow> string" where
  "compact b [] = []"
| "compact False (c # cs) = (if is_ws c then compact False cs else c # compact (c = quote) cs)"
| "compact True (c # cs) =
     (if c = quote then c # compact False cs
      else if c = backslash then (case cs of [] \<Rightarrow> [c] | e # es \<Rightarrow> c # e # compact True es)
      else if html_char c then unicode_escape (byte c) @ compact True cs
      else if line_separator (c # cs)
        then unicode_escape (separator_rune (cs ! 1)) @ compact True (drop 2 cs)
      else c # compact True cs)"
  by pat_completeness auto
termination
  by (relation "measure (length \<circ> snd)") auto

declare compact.simps(3) [simp del]

lemma compact_skip_ws [simp]: "compact False (skip_ws s) = compact False s"
  by (induction s) (auto simp: skip_ws_def)

lemma compact_Cons: "skip_ws s = c # cs \<Longrightarrow> compact False s = c # compact (c = quote) cs"
  by (induction s) (auto simp: skip_ws_def split: if_splits)

lemma compact_Nil: "skip_ws s = [] \<Longrightarrow> compact False s = []"
  by (induction s) (auto simp: skip_ws_def split: if_splits)

lemma skip_ws_compact [simp]: "skip_ws (compact False s) = compact False s"
  by (induction s) (auto simp: skip_ws_def)

section \<open>Raw string text\<close>

inductive raw_text :: "string \<Rightarrow> bool" where
  raw_end: "raw_text []"
| raw_simple: "simple_escape e \<Longrightarrow> raw_text a \<Longrightarrow> raw_text (backslash # e # a)"
| raw_unicode: "list_all is_hex [h1, h2, h3, h4] \<Longrightarrow> raw_text a \<Longrightarrow>
    raw_text (backslash # CHR ''u'' # h1 # h2 # h3 # h4 # a)"
| raw_char: "c \<noteq> quote \<Longrightarrow> c \<noteq> backslash \<Longrightarrow> 32 \<le> byte c \<Longrightarrow> raw_text a \<Longrightarrow> raw_text (c # a)"

lemma scan_raw: "raw_text a \<Longrightarrow> scan_string (a @ quote # r) = POk a r"
  by (induction rule: raw_text.induct) (auto simp: simple_escape_def quote_def backslash_def)

lemma scan_string_raw: "scan_string s = POk a r \<Longrightarrow> s = a @ quote # r \<and> raw_text a"
proof (induction s arbitrary: a rule: measure_induct_rule [of length])
  case (less s)
  show ?case
  proof (cases s)
    case Nil
    with less.prems show ?thesis by simp
  next
    case (Cons c cs)
    consider "c = quote" "a = []" "r = cs"
      | e cs1 b where "c = backslash" "cs = e # cs1" "simple_escape e" "scan_string cs1 = POk b r" "a = c # e # b"
      | h1 h2 h3 h4 cs2 b where "c = backslash" "cs = CHR ''u'' # h1 # h2 # h3 # h4 # cs2"
          "list_all is_hex [h1, h2, h3, h4]" "scan_string cs2 = POk b r" "a = c # CHR ''u'' # h1 # h2 # h3 # h4 # b"
      | b where "c \<noteq> quote" "c \<noteq> backslash" "32 \<le> byte c" "scan_string cs = POk b r" "a = c # b"
      using less.prems Cons
      by (simp only: scan_string.simps(2))
        (auto simp del: scan_string.simps simp: prepend_POk_iff not_less split: list.splits if_splits)
    then show ?thesis
    proof cases
      case 1
      with Cons show ?thesis by (simp add: raw_end)
    next
      case 2
      with Cons less.IH [of cs1 b] show ?thesis by (simp add: raw_simple)
    next
      case 3
      with Cons less.IH [of cs2 b] show ?thesis by (simp add: raw_unicode)
    next
      case 4
      with Cons less.IH [of cs b] show ?thesis by (simp add: raw_char)
    qed
  qed
qed

inductive_cases raw_text_ConsE: "raw_text (c # a)"

lemma raw_text_char: "raw_text (c # a) \<Longrightarrow> c \<noteq> backslash \<Longrightarrow> raw_text a"
  by (auto elim: raw_text_ConsE)

lemma hex_digit_val: "n < 16 \<Longrightarrow> hex_val (hex_digit n) = Some n"
proof -
  have "list_all (\<lambda>n. hex_val (hex_digit n) = Some n) [0..<16]" by code_simp
  then show "n < 16 \<Longrightarrow> hex_val (hex_digit n) = Some n" by (auto simp: list_all_iff)
qed

lemma hex4_digits:
  assumes "n < 0x10000"
  shows "hex4 [hex_digit (n div 4096 mod 16), hex_digit (n div 256 mod 16), hex_digit (n div 16 mod 16), hex_digit (n mod 16)] =
    Some n"
proof -
  have 1: "n div 4096 mod 16 * 16 + n div 256 mod 16 = n div 256"
    using assms div_mult_mod_eq [of "n div 256" 16] by (simp add: div_mult2_eq [symmetric])
  have 2: "n div 256 * 16 + n div 16 mod 16 = n div 16"
    using div_mult_mod_eq [of "n div 16" 16] by (simp add: div_mult2_eq [symmetric])
  have "((n div 4096 mod 16 * 16 + n div 256 mod 16) * 16 + n div 16 mod 16) * 16 + n mod 16 = n"
    by (simp only: 1 2 div_mult_mod_eq)
  moreover have "hex_val (hex_digit (k mod 16)) = Some (k mod 16)" for k by (simp add: hex_digit_val)
  ultimately show ?thesis by (simp only: hex4_def list.case prod.case option.case)
qed

lemma raw_unicode_escape: "raw_text a \<Longrightarrow> raw_text (unicode_escape n @ a)"
  by (auto simp: unicode_escape_def is_hex_def hex_digit_val intro!: raw_unicode)

lemma unquote_unicode_escape:
  assumes "n < 0xD800"
  shows "unquote (unicode_escape n @ x) = encode_rune n @ unquote x"
  using assms hex4_digits [of n]
  by (simp add: unicode_escape_def unquote.simps)

lemma low_surrogate_unicode_escape: "n < 0xD800 \<Longrightarrow> low_surrogate hi (unicode_escape n @ x) = None"
  using hex4_digits [of n] by (simp add: low_surrogate_def unicode_escape_def)

subsection \<open>Characters that compaction copies\<close>

definition copied :: "char \<Rightarrow> bool" where
  "copied c \<longleftrightarrow> c \<noteq> quote \<and> c \<noteq> backslash \<and> \<not> html_char c \<and> c \<noteq> CHR 0xE2"

lemma compact_copied [simp]: "copied c \<Longrightarrow> compact True (c # cs) = c # compact True cs"
  by (simp add: compact.simps(3) copied_def line_separator_def)

lemma cont_copied: "cont c \<Longrightarrow> copied c"
  by (auto simp: cont_def byte_in_def copied_def html_char_def quote_def backslash_def)

lemma hex_copied: "is_hex c \<Longrightarrow> copied c"
  by (auto simp: is_hex_def hex_val_def Let_def copied_def html_char_def quote_def backslash_def split: if_splits)

lemma compact_escape [simp]: "compact True (backslash # e # es) = backslash # e # compact True es"
  by (simp add: compact.simps(3) quote_def backslash_def)

lemma hd_not_cont: "\<not> cont c \<Longrightarrow> \<not> cont (hd (compact True (c # cs)))"
  by (auto simp: compact.simps(3) unicode_escape_def cont_def byte_in_def backslash_def split: list.splits)

lemma compact_True_Cons: "compact True (c # cs) \<noteq> []"
  by (auto simp: compact.simps(3) unicode_escape_def split: list.splits)

lemma all_cont_compact: "all_cont n (compact True s) = all_cont n s"
proof (induction n arbitrary: s)
  case 0
  show ?case by simp
next
  case (Suc n)
  show ?case
  proof (cases s)
    case Nil
    then show ?thesis by simp
  next
    case (Cons c cs)
    show ?thesis
    proof (cases "cont c")
      case True
      with Suc Cons show ?thesis by (simp add: cont_copied)
    next
      case False
      obtain x xs where "compact True (c # cs) = x # xs" by (metis compact_True_Cons list.exhaust)
      with hd_not_cont [OF False, of cs] Cons False show ?thesis by simp
    qed
  qed
qed

lemma follows_compact:
  assumes "0x80 \<le> lo" and "hi \<le> 0xBF"
  shows "follows lo hi n (compact True s) = follows lo hi n s"
proof (cases s)
  case Nil
  then show ?thesis by simp
next
  case (Cons c cs)
  have range: "byte_in lo hi x \<Longrightarrow> cont x" for x using assms by (auto simp: byte_in_def cont_def)
  show ?thesis
  proof (cases "cont c")
    case True
    with Cons show ?thesis by (simp add: cont_copied follows_def all_cont_compact)
  next
    case False
    obtain x xs where "compact True (c # cs) = x # xs" by (metis compact_True_Cons list.exhaust)
    with hd_not_cont [OF False, of cs] Cons False range show ?thesis by (auto simp: follows_def)
  qed
qed

lemma utf8_len_compact: "utf8_len (c # compact True a) = utf8_len (c # a)"
  by (simp add: utf8_len_def follows_compact Let_def)

lemma follows_all_cont: "follows lo hi n s \<Longrightarrow> 0x80 \<le> lo \<Longrightarrow> hi \<le> 0xBF \<Longrightarrow> all_cont (Suc n) s"
  by (auto simp: follows_def byte_in_def cont_def split: list.splits)

lemma utf8_len_all_cont: "utf8_len (c # a) = Suc k \<Longrightarrow> all_cont k a"
  by (auto simp: utf8_len_def Let_def split: if_splits dest!: follows_all_cont simp del: all_cont.simps(3)
      simp: eval_nat_numeral)

lemma compact_conts:
  "all_cont k a \<Longrightarrow> k \<le> length a \<and> compact True a = take k a @ compact True (drop k a) \<and> (raw_text a \<longrightarrow> raw_text (drop k a))"
proof (induction k arbitrary: a)
  case 0
  show ?case by simp
next
  case (Suc k)
  then obtain c cs where a: "a = c # cs" "cont c" "all_cont k cs" by (cases a) auto
  have "c \<noteq> backslash" using cont_copied [OF a(2)] by (simp add: copied_def)
  with Suc.IH [OF a(3)] a cont_copied [OF a(2)] show ?case by (auto dest: raw_text_char)
qed

text \<open>Compaction keeps a string literal a literal and keeps the string it stands for.\<close>

lemma not_copied_cases:
  assumes "\<not> copied c" and "c \<noteq> quote" and "c \<noteq> backslash"
  obtains "html_char c" | "c = CHR 0xE2"
  using assms by (auto simp: copied_def)

lemma line_separatorE:
  assumes "line_separator (c # s)"
  obtains l t where "c = CHR 0xE2" and "s = CHR 0x80 # l # t" and "l = CHR 0xA8 \<or> l = CHR 0xA9"
proof (cases s)
  case Nil
  with assms show ?thesis by (simp add: line_separator_def)
next
  case (Cons x xs)
  with assms that show ?thesis by (cases xs) (auto simp: line_separator_def)
qed

lemma separator_copied: "copied (CHR 0x80)" "l = CHR 0xA8 \<or> l = CHR 0xA9 \<Longrightarrow> copied l"
  by (auto simp: copied_def html_char_def quote_def backslash_def)

lemma line_separator_append: "raw_text a \<Longrightarrow> line_separator (c # a @ quote # r) = line_separator (c # a)"
proof -
  have "line_separator (c # a @ quote # r) \<Longrightarrow> line_separator (c # a)"
    by (cases a; cases "tl a") (auto simp: line_separator_def quote_def)
  moreover have "line_separator (c # a) \<Longrightarrow> line_separator (c # a @ quote # r)"
    by (elim line_separatorE) (auto simp: line_separator_def)
  ultimately show ?thesis by blast
qed

lemma compact_html:
  "html_char c \<Longrightarrow> compact True (c # cs) = unicode_escape (byte c) @ compact True cs"
  by (auto simp: compact.simps(3) html_char_def quote_def backslash_def)

lemma compact_separator:
  "line_separator (CHR 0xE2 # CHR 0x80 # l # t) \<Longrightarrow>
     compact True (CHR 0xE2 # CHR 0x80 # l # t) = unicode_escape (separator_rune l) @ compact True t"
  by (simp add: compact.simps(3) html_char_def quote_def backslash_def separator_rune_def)

lemma compact_same:
  "c \<noteq> quote \<Longrightarrow> c \<noteq> backslash \<Longrightarrow> \<not> html_char c \<Longrightarrow> \<not> line_separator (c # cs) \<Longrightarrow>
     compact True (c # cs) = c # compact True cs"
  by (simp add: compact.simps(3))

lemma compact_raw_append:
  "raw_text a \<Longrightarrow> compact True (a @ quote # r) = compact True a @ quote # compact False r"
proof (induction rule: raw_text.induct)
  case raw_end
  show ?case by (simp add: compact.simps(3))
next
  case (raw_simple e a)
  then show ?case by simp
next
  case (raw_unicode h1 h2 h3 h4 a)
  then show ?case by (simp add: hex_copied)
next
  case (raw_char c a)
  show ?case
  proof (cases "html_char c")
    case True
    with raw_char show ?thesis by (simp add: compact_html)
  next
    case html: False
    show ?thesis
    proof (cases "line_separator (c # a)")
      case True
      then obtain l t where a: "c = CHR 0xE2" "a = CHR 0x80 # l # t" "l = CHR 0xA8 \<or> l = CHR 0xA9"
        by (rule line_separatorE)
      then show ?thesis
        using raw_char True line_separator_append [of a c r] separator_copied
        by (simp add: compact_separator)
    next
      case False
      with raw_char html line_separator_append [of a c r] show ?thesis by (simp add: compact_same)
    qed
  qed
qed

lemma raw_text_compact: "raw_text a \<Longrightarrow> raw_text (compact True a)"
proof (induction rule: raw_text.induct)
  case raw_end
  show ?case by (simp add: raw_text.raw_end)
next
  case (raw_simple e a)
  then show ?case by (simp add: raw_text.raw_simple)
next
  case (raw_unicode h1 h2 h3 h4 a)
  then show ?case by (simp add: hex_copied raw_text.raw_unicode)
next
  case (raw_char c a)
  consider "html_char c" | l t where "line_separator (c # a)" "c = CHR 0xE2" "a = CHR 0x80 # l # t"
      "l = CHR 0xA8 \<or> l = CHR 0xA9" | "\<not> html_char c" "\<not> line_separator (c # a)"
    by (meson line_separatorE)
  then show ?case
  proof cases
    case 1
    with raw_char show ?thesis by (simp add: compact_html raw_unicode_escape)
  next
    case 2
    then have "raw_text (CHR 0x80 # l # compact True t)" using raw_char.IH separator_copied by simp
    then have "raw_text (compact True t)" using 2(4) by (auto simp: backslash_def dest!: raw_text_char)
    with 2 show ?thesis by (simp add: compact_separator raw_unicode_escape)
  next
    case 3
    with raw_char show ?thesis by (simp add: compact_same raw_text.raw_char)
  qed
qed

lemma scan_string_compact:
  assumes "scan_string s = POk a r"
  shows "compact True s = compact True a @ quote # compact False r"
    and "scan_string (compact True s) = POk (compact True a) (compact False r)"
  using scan_string_raw [OF assms] by (auto simp: compact_raw_append scan_raw raw_text_compact)

inductive_cases raw_text_backslashE: "raw_text (backslash # a)"

lemma simple_not_u: "simple_escape e \<Longrightarrow> e \<noteq> CHR ''u''"
  by (auto simp: simple_escape_def quote_def backslash_def)

lemma low_surrogate_char: "c \<noteq> backslash \<Longrightarrow> low_surrogate n (c # s) = None"
  by (simp add: low_surrogate_def)

lemma html_ascii: "html_char c \<Longrightarrow> byte c < 0x80"
  by (auto simp: html_char_def)

lemma low_surrogate_compact: "raw_text a \<Longrightarrow> low_surrogate n (compact True a) = low_surrogate n a"
proof (erule raw_text.cases)
  fix e b
  assume "a = backslash # e # b" "simple_escape e"
  then show ?thesis by (simp add: low_surrogate_def simple_not_u)
next
  fix c b
  assume a: "a = c # b" "c \<noteq> quote" "c \<noteq> backslash"
  consider "html_char c" | l t where "line_separator (c # b)" "c = CHR 0xE2" "b = CHR 0x80 # l # t"
    | "\<not> html_char c" "\<not> line_separator (c # b)"
    by (meson line_separatorE)
  then show ?thesis
  proof cases
    case 1
    with a html_ascii [OF 1] show ?thesis
      by (simp add: compact_html low_surrogate_unicode_escape low_surrogate_char)
  next
    case 2
    with a show ?thesis
      by (auto simp: compact_separator low_surrogate_unicode_escape separator_rune_def low_surrogate_char)
  next
    case 3
    with a show ?thesis by (simp add: compact_same low_surrogate_char)
  qed
qed (auto simp: low_surrogate_def hex_copied)

lemma low_surrogate_text:
  assumes "low_surrogate n a = Some m" and "raw_text a"
  obtains h1 h2 h3 h4 b where "a = backslash # CHR ''u'' # h1 # h2 # h3 # h4 # b"
    and "list_all is_hex [h1, h2, h3, h4]" and "raw_text b"
  using assms(2,1)
  by (cases rule: raw_text.cases)
    (auto simp: low_surrogate_def simple_escape_def backslash_def quote_def split: if_splits)

lemma unquote_char:
  "c \<noteq> backslash \<Longrightarrow> utf8_len (c # cs) = 0 \<Longrightarrow> unquote (c # cs) = replacement @ unquote cs"
  "c \<noteq> backslash \<Longrightarrow> utf8_len (c # cs) = Suc k \<Longrightarrow>
     unquote (c # cs) = c # take k cs @ unquote (drop k cs)"
  by (simp_all add: unquote.simps)

lemma unquote_unicode:
  assumes "hex4 [h1, h2, h3, h4] = Some n"
  shows "unquote (backslash # CHR ''u'' # h1 # h2 # h3 # h4 # cs) =
     (if 0xD800 \<le> n \<and> n < 0xE000
      then (case low_surrogate n cs of
              Some r \<Rightarrow> encode_rune r @ unquote (drop 6 cs)
            | None \<Rightarrow> replacement @ unquote cs)
      else encode_rune n @ unquote cs)"
  using assms by (simp add: unquote.simps(2) split: option.splits)

lemma hex4_defined:
  assumes "list_all is_hex [h1, h2, h3, h4]"
  obtains n where "hex4 [h1, h2, h3, h4] = Some n"
  using assms by (auto simp: is_hex_def hex4_def)

lemma separator_runes:
  "encode_rune 0x2028 = [CHR 0xE2, CHR 0x80, CHR 0xA8]"
  "encode_rune 0x2029 = [CHR 0xE2, CHR 0x80, CHR 0xA9]"
  by (simp_all add: encode_rune_def char_of_eq_iff take_bit_eq_mod)

text \<open>One character or escape, when the rest is known.\<close>

lemma unquote_compact_unicode:
  assumes "list_all is_hex [h1, h2, h3, h4]" and "raw_text b"
    and "\<And>x. raw_text x \<Longrightarrow> length x \<le> length b \<Longrightarrow> unquote (compact True x) = unquote x"
  shows "unquote (compact True (backslash # CHR ''u'' # h1 # h2 # h3 # h4 # b)) =
    unquote (backslash # CHR ''u'' # h1 # h2 # h3 # h4 # b)"
proof -
  obtain n where n: "hex4 [h1, h2, h3, h4] = Some n" using assms(1) by (rule hex4_defined)
  have "unquote (drop 6 (compact True b)) = unquote (drop 6 b)" if "low_surrogate n b = Some m" for m
    using low_surrogate_text [OF that assms(2)]
  proof cases
    case (1 k1 k2 k3 k4 c)
    with assms(3) [of c] show ?thesis by (simp add: hex_copied)
  qed
  with assms n show ?thesis
    by (simp add: hex_copied unquote_unicode low_surrogate_compact split: option.splits)
qed

lemma unquote_compact_same:
  assumes "c \<noteq> quote" and "c \<noteq> backslash" and "\<not> html_char c" and "\<not> line_separator (c # b)" and "raw_text b"
    and "\<And>x. raw_text x \<Longrightarrow> length x \<le> length b \<Longrightarrow> unquote (compact True x) = unquote x"
  shows "unquote (compact True (c # b)) = unquote (c # b)"
proof (cases "utf8_len (c # b)")
  case 0
  with assms show ?thesis by (simp add: compact_same unquote_char utf8_len_compact)
next
  case (Suc k)
  note k = compact_conts [OF utf8_len_all_cont [OF Suc]]
  have "utf8_len (c # compact True b) = Suc k" by (simp add: utf8_len_compact Suc)
  moreover have "unquote (compact True (drop k b)) = unquote (drop k b)" using assms(5,6) k by simp
  moreover have "take k (compact True b) = take k b" "drop k (compact True b) = compact True (drop k b)"
    using k by simp_all
  ultimately show ?thesis using assms Suc by (simp add: compact_same unquote_char)
qed

lemma unquote_compact_separator:
  assumes "line_separator (CHR 0xE2 # CHR 0x80 # l # t)" and "l = CHR 0xA8 \<or> l = CHR 0xA9"
    and "unquote (compact True t) = unquote t"
  shows "unquote (compact True (CHR 0xE2 # CHR 0x80 # l # t)) = unquote (CHR 0xE2 # CHR 0x80 # l # t)"
proof -
  have "utf8_len (CHR 0xE2 # CHR 0x80 # l # t) = Suc 2"
    using assms(2) by (auto simp: utf8_len_def follows_def cont_def byte_in_def numeral_2_eq_2)
  moreover have "encode_rune (separator_rune l) = [CHR 0xE2, CHR 0x80, l]"
    using assms(2) by (auto simp: separator_runes separator_rune_def)
  moreover have "separator_rune l < 0xD800" by (simp add: separator_rune_def)
  moreover have "CHR 0xE2 \<noteq> backslash" by (simp add: backslash_def)
  ultimately show ?thesis using assms
    by (simp add: compact_separator unquote_unicode_escape unquote_char numeral_2_eq_2)
qed

lemma unquote_compact_html:
  assumes "html_char c" and "c \<noteq> backslash" and "unquote (compact True b) = unquote b"
  shows "unquote (compact True (c # b)) = unquote (c # b)"
proof -
  have "byte c < 0x80" using assms(1) by (rule html_ascii)
  then have "utf8_len (c # b) = Suc 0" "encode_rune (byte c) = [c]"
    by (simp_all add: utf8_len_def encode_rune_def)
  with assms \<open>byte c < 0x80\<close> show ?thesis
    by (simp add: compact_html unquote_unicode_escape unquote_char)
qed

lemma unquote_compact: "raw_text a \<Longrightarrow> unquote (compact True a) = unquote a"
proof (induction a rule: measure_induct_rule [of length])
  case (less a)
  from less.prems show ?case
  proof (cases rule: raw_text.cases)
    case raw_end
    then show ?thesis by simp
  next
    case (raw_simple e b)
    with less.IH [of b] show ?thesis
      by (simp add: unquote.simps(2) simple_not_u)
  next
    case (raw_unicode h1 h2 h3 h4 b)
    have "unquote (compact True x) = unquote x" if "raw_text x" "length x \<le> length b" for x
      using less.IH [of x] that raw_unicode(1) by simp
    with raw_unicode show ?thesis by (simp only: unquote_compact_unicode)
  next
    case (raw_char c b)
    have IH: "unquote (compact True x) = unquote x" if "raw_text x" "length x \<le> length b" for x
      using less.IH [of x] that raw_char(1) by simp
    consider "html_char c" | l t where "line_separator (c # b)" "c = CHR 0xE2" "b = CHR 0x80 # l # t"
        "l = CHR 0xA8 \<or> l = CHR 0xA9" | "\<not> html_char c" "\<not> line_separator (c # b)"
      by (meson line_separatorE)
    then show ?thesis
    proof cases
      case 1
      with raw_char IH [of b] show ?thesis by (simp add: unquote_compact_html)
    next
      case 2
      then have "raw_text t" using raw_char(5) by (auto simp: backslash_def dest!: raw_text_char)
      with 2 raw_char(1) IH [of t] show ?thesis by (simp add: unquote_compact_separator)
    next
      case 3
      have "unquote (compact True (c # b)) = unquote (c # b)"
        by (rule unquote_compact_same [OF _ _ _ _ _ IH]) (use 3 raw_char in blast)+
      with raw_char(1) show ?thesis by simp
    qed
  qed
qed

end
