(* ===== verification/GoCompactValue.thy ===== *)
theory GoCompactValue
  imports GoCompact
begin

text \<open>
  Compaction of whole values. \<open>read_as p n d t v\<close>: the parser \<open>p\<close> reads the value \<open>v\<close> off the
  text \<open>t\<close>, whatever fuel beyond \<open>n\<close>, nesting up to \<open>d\<close> and following text it is given; its rules
  (\<open>reads_scalar\<close> to \<open>reads_more_members\<close>) say how the text of a value is made from the texts of its
  parts. \<open>compact_value\<close>: a text that parses still does so after compaction, with the same value.
  Values are compared by \<open>canon\<close>, with the strings decoded.
\<close>

section \<open>Numbers and literals\<close>

definition inert :: "char \<Rightarrow> bool" where
  "inert c \<longleftrightarrow> \<not> is_ws c \<and> c \<noteq> quote"

lemma compact_inert: "list_all inert a \<Longrightarrow> compact False (a @ x) = a @ compact False x"
  by (induction a) (simp_all add: inert_def)

text \<open>A text that no number continues into.\<close>

definition apart :: "string \<Rightarrow> bool" where
  "apart r \<longleftrightarrow> r = [] \<or> \<not> digit (hd r) \<and> hd r \<noteq> CHR ''.'' \<and> hd r \<noteq> CHR ''e'' \<and> hd r \<noteq> CHR ''E''"

definition ended :: "string \<Rightarrow> bool" where
  "ended r \<longleftrightarrow> skip_ws r = [] \<or> hd (skip_ws r) \<in> {CHR '','', CHR '']'', CHR ''}''}"

lemma ended_apart: "ended r \<Longrightarrow> apart (compact False r)"
  by (cases "skip_ws r")
    (auto simp: ended_def apart_def compact_Cons compact_Nil digit_def digit_val_def)

definition undigit :: "string \<Rightarrow> bool" where
  "undigit r \<longleftrightarrow> r = [] \<or> \<not> digit (hd r)"

lemma digit_inert: "digit c \<Longrightarrow> inert c"
  by (auto simp: digit_def digit_val_def inert_def is_ws_def quote_def Let_def split: if_splits)

lemma digits1_local:
  assumes "digits1 s = POk a r"
  shows "s = a @ r \<and> list_all inert a \<and> (\<forall>r'. undigit r' \<longrightarrow> digits1 (a @ r') = POk a r') \<and>
    a \<noteq> [] \<and> digit (hd a)"
proof -
  from assms have a: "s \<noteq> []" "digit (hd s)" "a = takeWhile digit s" "r = dropWhile digit s"
    by (auto simp: digits1_def split: list.splits if_splits)
  then have d: "\<forall>c \<in> set a. digit c" "a \<noteq> []" by (auto dest: set_takeWhileD simp: takeWhile_eq_Nil_iff)
  moreover have "digits1 (a @ r') = POk a r'" if "undigit r'" for r'
    using that d
    by (cases a; cases r') (auto simp: digits1_def undigit_def)
  moreover have "hd a = hd s" using a by (cases s) auto
  ultimately show ?thesis using a by (auto simp: list_all_iff digit_inert)
qed

lemma int_part_local:
  assumes "int_part s = POk a r"
  shows "s = a @ r \<and> list_all inert a \<and> (\<forall>r'. undigit r' \<longrightarrow> int_part (a @ r') = POk a r') \<and>
    a \<noteq> [] \<and> digit (hd a)"
proof (cases "s \<noteq> [] \<and> hd s = CHR ''0''")
  case True
  with assms show ?thesis
    by (cases s) (auto simp: int_part_def inert_def is_ws_def quote_def digit_def digit_val_def)
next
  case False
  with assms have "digits1 s = POk a r" by (auto simp: int_part_def split: list.splits if_splits)
  from digits1_local [OF this] False show ?thesis by (cases a) (auto simp: int_part_def)
qed

lemma frac_part_local:
  assumes "frac_part s = POk a r"
  shows "s = a @ r \<and> list_all inert a \<and>
    (\<forall>r'. undigit r' \<and> (r' = [] \<or> hd r' \<noteq> CHR ''.'') \<longrightarrow> frac_part (a @ r') = POk a r') \<and>
    (a = [] \<or> hd a = CHR ''.'')"
proof (cases "s \<noteq> [] \<and> hd s = CHR ''.''")
  case True
  then obtain b where b: "a = CHR ''.'' # b" "digits1 (tl s) = POk b r"
    using assms by (cases s) (auto simp: frac_part_def prepend_POk_iff)
  from True b(1) digits1_local [OF b(2)] show ?thesis
    by (cases s) (auto simp: frac_part_def inert_def is_ws_def quote_def)
next
  case False
  with assms show ?thesis by (auto simp: frac_part_def split: list.splits if_splits)
qed

lemma exp_part_local:
  assumes "exp_part s = POk a r"
  shows "s = a @ r \<and> list_all inert a \<and>
    (\<forall>r'. undigit r' \<and> (r' = [] \<or> hd r' \<noteq> CHR ''e'' \<and> hd r' \<noteq> CHR ''E'') \<longrightarrow> exp_part (a @ r') = POk a r') \<and>
    (a = [] \<or> hd a = CHR ''e'' \<or> hd a = CHR ''E'')"
proof (cases "s \<noteq> [] \<and> (hd s = CHR ''e'' \<or> hd s = CHR ''E'')")
  case True
  then obtain c cs where s: "s = c # cs" "c = CHR ''e'' \<or> c = CHR ''E''" by (cases s) auto
  then have c: "inert c" by (auto simp: inert_def is_ws_def quote_def)
  from s assms obtain d ds where cs: "cs = d # ds" by (auto simp: exp_part_def split: list.splits)
  show ?thesis
  proof (cases "d = CHR ''+'' \<or> d = CHR ''-''")
    case True
    then have "inert d" by (auto simp: inert_def is_ws_def quote_def)
    moreover obtain b where "a = c # d # b" "digits1 ds = POk b r"
      using assms s cs True by (auto simp: exp_part_def prepend_POk_iff)
    ultimately show ?thesis using s cs c True digits1_local [of ds b r] by (auto simp: exp_part_def)
  next
    case False
    obtain b where b: "a = c # b" "digits1 cs = POk b r"
      using assms s cs False by (auto simp: exp_part_def prepend_POk_iff)
    have "digit d" using digits1_local [OF b(2)] cs by (cases b) auto
    with b s cs c False digits1_local [of cs b r] show ?thesis
      by (cases b) (auto simp: exp_part_def)
  qed
next
  case False
  with assms show ?thesis by (auto simp: exp_part_def split: list.splits if_splits)
qed

lemma apart_append:
  assumes "apart r" and "e = [] \<or> hd e = CHR ''e'' \<or> hd e = CHR ''E''"
  shows "undigit (e @ r)" and "e @ r = [] \<or> hd (e @ r) \<noteq> CHR ''.''"
  using assms by (cases e; auto simp: apart_def undigit_def digit_def digit_val_def)+

lemma scan_number_local:
  assumes "scan_number s = POk a r"
  shows "s = a @ r \<and> list_all inert a \<and> (\<forall>r'. apart r' \<longrightarrow> scan_number (a @ r') = POk a r') \<and> a \<noteq> []"
proof -
  define sign where "sign = (if s \<noteq> [] \<and> hd s = CHR ''-'' then [CHR ''-''] else [])"
  have sign: "list_all inert sign" by (simp add: sign_def inert_def is_ws_def quote_def)
  obtain i r1 f r2 e where parts: "int_part (drop (length sign) s) = POk i r1" "frac_part r1 = POk f r2"
      "exp_part r2 = POk e r" "a = sign @ i @ f @ e"
    using assms
    by (cases s) (auto simp: scan_number_def bind_text_POk_iff prepend_POk_iff sign_def split: if_splits)
  note i = int_part_local [OF parts(1)] and f = frac_part_local [OF parts(2)] and e = exp_part_local [OF parts(3)]
  have "s = sign @ drop (length sign) s" by (cases s) (auto simp: sign_def)
  moreover have "scan_number (a @ r') = POk a r'" if r': "apart r'" for r'
  proof -
    have e': "exp_part (e @ r') = POk e r'" using e r' by (auto simp: apart_def undigit_def)
    have f': "frac_part (f @ e @ r') = POk f (e @ r')" using f apart_append [OF r'] e by blast
    have "undigit (f @ e @ r')" using f apart_append [OF r'] e
      by (cases f) (auto simp: undigit_def digit_def digit_val_def)
    then have i': "int_part (i @ f @ e @ r') = POk i (f @ e @ r')" using i by blast
    show ?thesis
    proof (cases "sign = []")
      case True
      moreover have "hd i \<noteq> CHR ''-''" using i by (auto simp: digit_def digit_val_def)
      ultimately show ?thesis using parts(4) i i' f' e'
        by (cases i) (auto simp: scan_number_def)
    next
      case False
      then have "sign = [CHR ''-'']" by (simp add: sign_def split: if_splits)
      then show ?thesis using parts(4) i' f' e' by (auto simp: scan_number_def)
    qed
  qed
  ultimately show ?thesis using parts(4) i f e sign by auto
qed

lemma scan_literal_local:
  "scan_literal l s = POk a r \<Longrightarrow> s = l @ r \<and> (\<forall>r'. scan_literal l (l @ r') = POk l r')"
  by (induction l s arbitrary: a rule: scan_literal.induct) (auto simp: prepend_POk_iff split: if_splits)

lemma scan_literal_compact:
  "scan_literal l s = POk a r \<Longrightarrow> list_all inert l \<Longrightarrow>
     compact False s = l @ compact False r \<and> scan_literal l (compact False s) = POk l (compact False r)"
  using scan_literal_local [of l s a r] by (auto simp: compact_inert)

section \<open>Values\<close>

primrec canon :: "json \<Rightarrow> json" where
  "canon JNull = JNull"
| "canon (JBool b) = JBool b"
| "canon (JNum n) = JNum n"
| "canon (JStr s) = JStr (unquote s)"
| "canon (JArr vs) = JArr (map canon vs)"
| "canon (JObj ms) = JObj (map (\<lambda>(n, raw, v). (unquote n, [], v)) (map (map_prod id (map_prod id canon)) ms))"


definition front :: "string \<Rightarrow> bool" where
  "front t \<longleftrightarrow> t \<noteq> [] \<and> \<not> is_ws (hd t)"

lemma skip_front [simp]: "front t \<Longrightarrow> skip_ws (t @ x) = t @ x"
  by (cases t) (auto simp: front_def skip_ws_def)

lemma front_Cons [simp]: "front (c # t) \<longleftrightarrow> \<not> is_ws c"
  by (simp add: front_def)

lemma front_append: "front t \<Longrightarrow> front (t @ u)"
  by (simp add: front_def)

lemma json_punctuation [simp]:
  "\<not> is_ws (CHR ''{'')" "\<not> is_ws (CHR ''}'')" "\<not> is_ws (CHR ''['')" "\<not> is_ws (CHR '']'')"
  "\<not> is_ws (CHR '','')" "\<not> is_ws (CHR '':'')"
  "CHR ''{'' \<noteq> quote" "CHR ''}'' \<noteq> quote" "CHR ''['' \<noteq> quote" "CHR '']'' \<noteq> quote"
  "CHR '','' \<noteq> quote" "CHR '':'' \<noteq> quote"
  by (simp_all add: is_ws_def quote_def)

lemma skip_ws_punct: "\<not> is_ws c \<Longrightarrow> skip_ws (c # x) = c # x"
  by (simp add: skip_ws_def)

lemma apart_punct: "c \<in> {CHR '','', CHR '']'', CHR ''}''} \<Longrightarrow> apart (c # x)"
  by (auto simp: apart_def digit_def digit_val_def)

lemma literal_inert: "list_all inert ''rue''" "list_all inert ''alse''" "list_all inert ''ull''"
  by (simp_all add: inert_def is_ws_def quote_def)

text \<open>A scalar, compacted and put before another text.\<close>

lemma compact_scalar:
  assumes "parse_scalar c cs = POk v r" and "ended r" and "c \<noteq> CHR ''{''" and "c \<noteq> CHR ''[''"
  shows "\<exists>t v'. compact False (c # cs) = t @ compact False r \<and> front t \<and> canon v' = canon v \<and>
    (\<forall>x. apart x \<longrightarrow> (\<exists>e es. t @ x = e # es \<and> e \<noteq> CHR ''{'' \<and> e \<noteq> CHR ''['' \<and> parse_scalar e es = POk v' x))"
proof -
  consider a where "c = quote" "scan_string cs = POk a r" "v = JStr a"
    | a where "c = CHR ''t''" "scan_literal ''rue'' cs = POk a r" "v = JBool True"
    | a where "c = CHR ''f''" "scan_literal ''alse'' cs = POk a r" "v = JBool False"
    | a where "c = CHR ''n''" "scan_literal ''ull'' cs = POk a r" "v = JNull"
    | a where "c \<noteq> quote" "c \<notin> {CHR ''t'', CHR ''f'', CHR ''n''}" "scan_number (c # cs) = POk a r" "v = JNum a"
    using assms(1) by (auto simp: parse_scalar_def map_pres_POk_iff simp del: scan_literal.simps split: if_splits)
  then show ?thesis
  proof cases
    case 1
    note raw = scan_string_raw [OF 1(2)]
    have "compact False (c # cs) = (quote # compact True a @ [quote]) @ compact False r"
      using 1 raw by (simp add: compact_raw_append)
    moreover have "canon (JStr (compact True a)) = canon v" using 1 raw by (simp add: unquote_compact)
    moreover have "parse_scalar quote (compact True a @ quote # x) = POk (JStr (compact True a)) x" for x
      using raw by (simp add: parse_scalar_def scan_raw raw_text_compact)
    ultimately show ?thesis
      by (intro exI [of _ "quote # compact True a @ [quote]"] exI [of _ "JStr (compact True a)"])
        (simp add: quote_def is_ws_def)
  next
    case 2
    show ?thesis using scan_literal_local [OF 2(2)] 2 literal_inert
      by (intro exI [of _ "''true''"] exI [of _ v])
        (auto simp: parse_scalar_def is_ws_def quote_def compact_inert simp del: scan_literal.simps)
  next
    case 3
    show ?thesis using scan_literal_local [OF 3(2)] 3 literal_inert
      by (intro exI [of _ "''false''"] exI [of _ v])
        (auto simp: parse_scalar_def is_ws_def quote_def compact_inert simp del: scan_literal.simps)
  next
    case 4
    show ?thesis using scan_literal_local [OF 4(2)] 4 literal_inert
      by (intro exI [of _ "''null''"] exI [of _ v])
        (auto simp: parse_scalar_def is_ws_def quote_def compact_inert simp del: scan_literal.simps)
  next
    case 5
    note n = scan_number_local [OF 5(3)]
    then obtain a' where a: "a = c # a'" by (cases a) auto
    with n 5 assms(3,4) show ?thesis
      by (intro exI [of _ a] exI [of _ v]) (auto simp: compact_inert parse_scalar_def inert_def)
  qed
qed

lemma front_Nil [simp]: "\<not> front []"
  by (simp add: front_def)

definition read_as :: "(nat \<Rightarrow> nat \<Rightarrow> string \<Rightarrow> 'a pres) \<Rightarrow> nat \<Rightarrow> nat \<Rightarrow> string \<Rightarrow> 'a \<Rightarrow> bool" where
  "read_as p n d t v \<longleftrightarrow> front t \<and> (\<forall>m d' x. n \<le> m \<and> d' \<le> d \<and> apart x \<longrightarrow> p m d' (t @ x) = POk v x)"

lemma read_asD: "read_as p n d t v \<Longrightarrow> n \<le> m \<Longrightarrow> d' \<le> d \<Longrightarrow> apart x \<Longrightarrow> p m d' (t @ x) = POk v x"
  by (simp add: read_as_def)

lemma read_as_front [simp]: "read_as p n d t v \<Longrightarrow> front t"
  by (simp add: read_as_def)

lemma read_as_skip [simp]: "read_as p n d t v \<Longrightarrow> skip_ws (t @ x) = t @ x"
  by simp

lemma read_asI:
  assumes "front t" and "\<And>m d' x. n \<le> m \<Longrightarrow> d' \<le> d \<Longrightarrow> apart x \<Longrightarrow> p (Suc m) d' (t @ x) = POk v x"
  shows "read_as p (Suc n) d t v"
  unfolding read_as_def
proof (intro conjI allI impI)
  show "front t" by (rule assms(1))
next
  fix m d' x
  assume "Suc n \<le> m \<and> d' \<le> d \<and> apart x"
  with assms(2) [of "m - 1" d' x] show "p m d' (t @ x) = POk v x" by (cases m) auto
qed

definition canon_member :: "string \<times> string \<times> json \<Rightarrow> string \<times> string \<times> json" where
  "canon_member m = (case m of (n, raw, v) \<Rightarrow> (unquote n, [], canon v))"

lemma canon_object [simp]: "canon (JObj ms) = JObj (map canon_member ms)"
  by (auto simp: canon_member_def split: prod.splits)

declare canon.simps(6) [simp del]

text \<open>How the parts of a text are read.\<close>

lemma reads_scalar:
  assumes "front t"
    and "\<And>x. apart x \<Longrightarrow> \<exists>e es. t @ x = e # es \<and> e \<noteq> CHR ''{'' \<and> e \<noteq> CHR ''['' \<and> parse_scalar e es = POk v x"
  shows "read_as parse_value (Suc n) d t v"
proof (rule read_asI [OF assms(1)])
  fix m d' x
  assume "apart x"
  then obtain e es where "t @ x = e # es" "e \<noteq> CHR ''{''" "e \<noteq> CHR ''[''" "parse_scalar e es = POk v x"
    using assms(2) by blast
  then show "parse_value (Suc m) d' (t @ x) = POk v x" by simp
qed

lemma reads_empty:
  "d < max_nesting \<Longrightarrow> read_as parse_value (Suc n) d ''{}'' (JObj [])"
  "d < max_nesting \<Longrightarrow> read_as parse_value (Suc n) d ''[]'' (JArr [])"
  by (auto intro!: read_asI simp: skip_ws_punct)

lemma hd_front: "front t \<Longrightarrow> \<exists>e es. t = e # es \<and> \<not> is_ws e"
  by (cases t) auto

lemma reads_array:
  assumes "read_as parse_elems n (Suc d) t vs" and "d < max_nesting" and "hd t \<noteq> CHR '']''"
  shows "read_as parse_value (Suc n) d (CHR ''['' # t) (JArr vs)"
proof (rule read_asI)
  fix m d' x
  assume *: "n \<le> m" "d' \<le> d" "apart x"
  obtain e es where t: "t = e # es" "\<not> is_ws e" using hd_front read_as_front [OF assms(1)] by blast
  have "parse_elems m (Suc d') (t @ x) = POk vs x" by (rule read_asD [OF assms(1)]) (use * in auto)
  with t assms * show "parse_value (Suc m) d' ((CHR ''['' # t) @ x) = POk (JArr vs) x"
    by (simp add: skip_ws_punct)
qed simp

lemma reads_object:
  assumes "read_as parse_members n (Suc d) t ms" and "d < max_nesting" and "hd t \<noteq> CHR ''}''"
  shows "read_as parse_value (Suc n) d (CHR ''{'' # t) (JObj ms)"
proof (rule read_asI)
  fix m d' x
  assume *: "n \<le> m" "d' \<le> d" "apart x"
  obtain e es where t: "t = e # es" "\<not> is_ws e" using hd_front read_as_front [OF assms(1)] by blast
  have "parse_members m (Suc d') (t @ x) = POk ms x" by (rule read_asD [OF assms(1)]) (use * in auto)
  with t assms * show "parse_value (Suc m) d' ((CHR ''{'' # t) @ x) = POk (JObj ms) x"
    by (simp add: skip_ws_punct)
qed simp

lemma reads_last:
  assumes "read_as parse_value n d t v"
  shows "read_as parse_elems (Suc n) d (t @ '']'') [v]"
  by (rule read_asI) (use assms in \<open>auto simp: front_append read_asD apart_punct skip_ws_punct\<close>)

lemma reads_more:
  assumes "read_as parse_value n d t v" and "read_as parse_elems n d u vs"
  shows "read_as parse_elems (Suc n) d (t @ CHR '','' # u) (v # vs)"
proof (rule read_asI)
  fix m d' x
  assume *: "n \<le> m" "d' \<le> d" "apart x"
  have "parse_value m d' (t @ CHR '','' # u @ x) = POk v (CHR '','' # u @ x)"
    "parse_elems m d' (u @ x) = POk vs x"
    by (rule read_asD [OF assms(1)] read_asD [OF assms(2)]; use * in \<open>simp add: apart_punct\<close>)+
  with assms show "parse_elems (Suc m) d' ((t @ CHR '','' # u) @ x) = POk (v # vs) x"
    by (simp add: skip_ws_punct)
qed (use assms in \<open>simp add: front_append\<close>)

definition member_text :: "string \<Rightarrow> string \<Rightarrow> string" where
  "member_text name t = quote # name @ quote # CHR '':'' # t"

lemma reads_last_member:
  assumes "raw_text name" and "read_as parse_value n d t v"
  shows "read_as parse_members (Suc n) d (member_text name t @ ''}'') [(name, t, v)]"
proof (rule read_asI)
  fix m d' x
  assume *: "n \<le> m" "d' \<le> d" "apart x"
  have "parse_value m d' (t @ CHR ''}'' # x) = POk v (CHR ''}'' # x)"
    by (rule read_asD [OF assms(2)]) (use * in \<open>simp_all add: apart_punct\<close>)
  with assms show "parse_members (Suc m) d' ((member_text name t @ ''}'') @ x) = POk [(name, t, v)] x"
    by (simp add: member_text_def skip_ws_punct scan_raw)
qed (simp add: member_text_def)

lemma reads_more_members:
  assumes "raw_text name" and "read_as parse_value n d t v" and "read_as parse_members n d u ms"
  shows "read_as parse_members (Suc n) d (member_text name t @ CHR '','' # u) ((name, t, v) # ms)"
proof (rule read_asI)
  fix m d' x
  assume *: "n \<le> m" "d' \<le> d" "apart x"
  have "parse_value m d' (t @ CHR '','' # u @ x) = POk v (CHR '','' # u @ x)"
    "parse_members m d' (u @ x) = POk ms x"
    by (rule read_asD [OF assms(2)] read_asD [OF assms(3)]; use * in \<open>simp add: apart_punct\<close>)+
  with assms show "parse_members (Suc m) d' ((member_text name t @ CHR '','' # u) @ x) = POk ((name, t, v) # ms) x"
    by (simp add: member_text_def skip_ws_punct scan_raw)
qed (simp add: member_text_def)

section \<open>Compaction\<close>

definition compacts :: "(nat \<Rightarrow> nat \<Rightarrow> string \<Rightarrow> 'a pres) \<Rightarrow> ('a \<Rightarrow> 'b) \<Rightarrow> nat \<Rightarrow> nat \<Rightarrow> string \<Rightarrow> string \<Rightarrow> 'a \<Rightarrow> bool" where
  "compacts p f n d s r v \<longleftrightarrow>
     (\<exists>t v'. compact False s = t @ compact False r \<and> f v' = f v \<and> read_as p n d t v')"

lemma compact_punct: "\<not> is_ws c \<Longrightarrow> c \<noteq> quote \<Longrightarrow> compact False (c # cs) = c # compact False cs"
  by simp

lemma ended_punct: "skip_ws r = c # cs \<Longrightarrow> c \<in> {CHR '','', CHR '']'', CHR ''}''} \<Longrightarrow> ended r"
  by (simp add: ended_def)

lemma compact_front: "compact False (c # cs) = t @ u \<Longrightarrow> front t \<Longrightarrow> \<not> is_ws c \<Longrightarrow> hd t = c"
  by (cases t) auto

lemma skip_ws_not_ws: "skip_ws s = c # cs \<Longrightarrow> \<not> is_ws c"
  by (metis hd_dropWhile list.sel(1) list.simps(3) skip_ws_def)

text \<open>The parts of a text one by one: what the compaction of a part gives is put together the way the
  parser takes it apart.\<close>

lemma compactsI:
  "compact False s = t @ compact False r \<Longrightarrow> f v' = f v \<Longrightarrow> read_as p n d t v' \<Longrightarrow> compacts p f n d s r v"
  unfolding compacts_def by blast

lemma compactsE:
  assumes "compacts p f n d s r v"
  obtains t v' where "compact False s = t @ compact False r" and "f v' = f v" and "read_as p n d t v'"
  using assms unfolding compacts_def by blast

lemma compacts_empty_object:
  "d < max_nesting \<Longrightarrow> skip_ws cs = CHR ''}'' # es \<Longrightarrow>
     compacts parse_value canon (Suc n) d (CHR ''{'' # cs) es (JObj [])"
  by (rule compactsI [of _ "''{}''" _ _ "JObj []"]) (simp_all add: reads_empty compact_Cons)

lemma compacts_empty_array:
  "d < max_nesting \<Longrightarrow> skip_ws cs = CHR '']'' # es \<Longrightarrow>
     compacts parse_value canon (Suc n) d (CHR ''['' # cs) es (JArr [])"
  by (rule compactsI [of _ "''[]''" _ _ "JArr []"]) (simp_all add: reads_empty compact_Cons)

lemma compacts_object:
  assumes "d < max_nesting" and "skip_ws cs = e # es" and "e \<noteq> CHR ''}''"
    and "compacts parse_members (map canon_member) n (Suc d) (e # es) r ms"
  shows "compacts parse_value canon (Suc n) d (CHR ''{'' # cs) r (JObj ms)"
proof -
  obtain t ms' where t: "compact False (e # es) = t @ compact False r" "map canon_member ms' = map canon_member ms"
      "read_as parse_members n (Suc d) t ms'"
    using assms(4) by (rule compactsE)
  have "hd t \<noteq> CHR ''}''" using compact_front [OF t(1)] t(3) skip_ws_not_ws [OF assms(2)] assms(3) by simp
  moreover have "compact False (CHR ''{'' # cs) = (CHR ''{'' # t) @ compact False r"
    using compact_skip_ws [of cs] assms(2) t(1) by (simp add: compact_punct del: compact.simps(2))
  ultimately show ?thesis using t assms(1)
    by (intro compactsI [of _ "CHR ''{'' # t" _ _ "JObj ms'"]) (simp_all add: reads_object)
qed

lemma compacts_array:
  assumes "d < max_nesting" and "skip_ws cs = e # es" and "e \<noteq> CHR '']''"
    and "compacts parse_elems (map canon) n (Suc d) (e # es) r vs"
  shows "compacts parse_value canon (Suc n) d (CHR ''['' # cs) r (JArr vs)"
proof -
  obtain t vs' where t: "compact False (e # es) = t @ compact False r" "map canon vs' = map canon vs"
      "read_as parse_elems n (Suc d) t vs'"
    using assms(4) by (rule compactsE)
  have "hd t \<noteq> CHR '']''" using compact_front [OF t(1)] t(3) skip_ws_not_ws [OF assms(2)] assms(3) by simp
  moreover have "compact False (CHR ''['' # cs) = (CHR ''['' # t) @ compact False r"
    using compact_skip_ws [of cs] assms(2) t(1) by (simp add: compact_punct del: compact.simps(2))
  ultimately show ?thesis using t assms(1)
    by (intro compactsI [of _ "CHR ''['' # t" _ _ "JArr vs'"]) (simp_all add: reads_array)
qed

lemma compacts_scalar:
  assumes "parse_scalar c cs = POk v r" and "ended r" and "c \<noteq> CHR ''{''" and "c \<noteq> CHR ''[''"
  shows "compacts parse_value canon (Suc n) d (c # cs) r v"
proof -
  obtain t v' where t: "compact False (c # cs) = t @ compact False r" "front t" "canon v' = canon v"
    "\<forall>x. apart x \<longrightarrow> (\<exists>e es. t @ x = e # es \<and> e \<noteq> CHR ''{'' \<and> e \<noteq> CHR ''['' \<and> parse_scalar e es = POk v' x)"
    using compact_scalar [OF assms] by blast
  have "read_as parse_value (Suc n) d t v'" by (rule reads_scalar) (use t in blast)+
  with t show ?thesis by (blast intro: compactsI)
qed

lemma compacts_last:
  assumes "compacts parse_value canon n d s r v" and "skip_ws r = CHR '']'' # cs"
  shows "compacts parse_elems (map canon) (Suc n) d s cs [v]"
proof -
  obtain t v' where t: "compact False s = t @ compact False r" "canon v' = canon v" "read_as parse_value n d t v'"
    using assms(1) by (rule compactsE)
  with compact_Cons [OF assms(2)] show ?thesis
    by (intro compactsI [of _ "t @ '']''" _ _ "[v']"]) (simp_all add: reads_last)
qed

lemma compacts_more:
  assumes "compacts parse_value canon n d s r v" and "skip_ws r = CHR '','' # cs"
    and "compacts parse_elems (map canon) n d (skip_ws cs) r' vs"
  shows "compacts parse_elems (map canon) (Suc n) d s r' (v # vs)"
proof -
  obtain t v' where t: "compact False s = t @ compact False r" "canon v' = canon v" "read_as parse_value n d t v'"
    using assms(1) by (rule compactsE)
  obtain u vs' where "compact False (skip_ws cs) = u @ compact False r'" "map canon vs' = map canon vs"
      "read_as parse_elems n d u vs'"
    using assms(3) by (rule compactsE)
  with t compact_Cons [OF assms(2)] show ?thesis
    by (intro compactsI [of _ "t @ CHR '','' # u" _ _ "v' # vs'"]) (simp_all add: reads_more)
qed

text \<open>A member up to the end of its value.\<close>

lemma compact_member:
  assumes "scan_string qs = POk name r1" and "skip_ws r1 = CHR '':'' # cs"
    and "compacts parse_value canon n d (skip_ws cs) r v" and "skip_ws r = e # es" and "e \<in> {CHR '','', CHR ''}''}"
  obtains name' t v' where "raw_text name'" and "read_as parse_value n d t v'"
    and "canon_member (name', t, v') = canon_member (name, raw, v)"
    and "compact False (quote # qs) = member_text name' t @ e # compact False es"
proof -
  obtain t v' where t: "compact False (skip_ws cs) = t @ compact False r" "canon v' = canon v" "read_as parse_value n d t v'"
    using assms(3) by (rule compactsE)
  note name = scan_string_raw [OF assms(1)]
  have "compact False r = e # compact False es" using compact_Cons [OF assms(4)] assms(5) by auto
  moreover have "compact False r1 = CHR '':'' # compact False cs" using compact_Cons [OF assms(2)] by simp
  ultimately have "compact False (quote # qs) = member_text (compact True name) t @ e # compact False es"
    using scan_string_compact(1) [OF assms(1)] t(1) by (simp add: member_text_def)
  moreover have "canon_member (compact True name, t, v') = canon_member (name, raw, v)"
    using name t(2) by (simp add: canon_member_def unquote_compact)
  ultimately show ?thesis using name t(3) by (intro that) (auto simp: raw_text_compact)
qed

lemma compacts_last_member:
  assumes "scan_string qs = POk name r1" and "skip_ws r1 = CHR '':'' # cs"
    and "compacts parse_value canon n d (skip_ws cs) r v" and "skip_ws r = CHR ''}'' # es"
  shows "compacts parse_members (map canon_member) (Suc n) d (quote # qs) es [(name, raw, v)]"
proof -
  obtain name' t v' where m: "raw_text name'" "read_as parse_value n d t v'"
    "canon_member (name', t, v') = canon_member (name, raw, v)"
    "compact False (quote # qs) = member_text name' t @ CHR ''}'' # compact False es"
    by (rule compact_member [OF assms]) auto
  then show ?thesis
    by (intro compactsI [of _ "member_text name' t @ ''}''" _ _ "[(name', t, v')]"])
      (simp_all add: reads_last_member del: compact.simps(2))
qed

lemma compacts_more_members:
  assumes "scan_string qs = POk name r1" and "skip_ws r1 = CHR '':'' # cs"
    and "compacts parse_value canon n d (skip_ws cs) r v" and "skip_ws r = CHR '','' # es"
    and "compacts parse_members (map canon_member) n d (skip_ws es) r' ms"
  shows "compacts parse_members (map canon_member) (Suc n) d (quote # qs) r' ((name, raw, v) # ms)"
proof -
  obtain name' t v' where m: "raw_text name'" "read_as parse_value n d t v'"
    "canon_member (name', t, v') = canon_member (name, raw, v)"
    "compact False (quote # qs) = member_text name' t @ CHR '','' # compact False es"
    by (rule compact_member [OF assms(1-4)]) auto
  obtain u ms' where "compact False (skip_ws es) = u @ compact False r'"
      "map canon_member ms' = map canon_member ms" "read_as parse_members n d u ms'"
    using assms(5) by (rule compactsE)
  with m show ?thesis
    by (intro compactsI [of _ "member_text name' t @ CHR '','' # u" _ _ "(name', t, v') # ms'"])
      (simp_all add: reads_more_members del: compact.simps(2))
qed

lemma compact_parse:
  "(parse_value n d s = POk v r \<and> ended r \<longrightarrow> compacts parse_value canon n d s r v) \<and>
   (parse_elems n d' s' = POk vs r' \<longrightarrow> compacts parse_elems (map canon) n d' s' r' vs) \<and>
   (parse_members n d'' s'' = POk ms r'' \<longrightarrow> compacts parse_members (map canon_member) n d'' s'' r'' ms)"
proof (induction n arbitrary: d s v r d' s' vs r' d'' s'' ms r'')
  case 0
  show ?case by simp
next
  case (Suc n)
  have V: "parse_value n d s = POk v r \<Longrightarrow> ended r \<Longrightarrow> compacts parse_value canon n d s r v" for d s v r
    using Suc.IH by blast
  have E: "parse_elems n d s = POk vs r \<Longrightarrow> compacts parse_elems (map canon) n d s r vs" for d s vs r
    using Suc.IH by blast
  have M: "parse_members n d s = POk ms r \<Longrightarrow> compacts parse_members (map canon_member) n d s r ms" for d s ms r
    using Suc.IH by blast
  have "compacts parse_value canon (Suc n) d s r v" if "parse_value (Suc n) d s = POk v r" "ended r"
    using that unfolding parse_value.simps(2)
    by (auto simp: map_pres_POk_iff not_le simp del: parser_simps compact.simps split: list.splits if_splits
        intro: compacts_empty_object compacts_empty_array compacts_object [OF _ _ _ M] compacts_array [OF _ _ _ E] compacts_scalar)
  moreover have "compacts parse_elems (map canon) (Suc n) d' s' r' vs" if "parse_elems (Suc n) d' s' = POk vs r'"
    using that unfolding parse_elems.simps(2)
    by (auto simp: map_pres_POk_iff simp del: parser_simps split: pres.splits list.splits if_splits
        intro!: compacts_last [OF V] compacts_more [OF V _ E] ended_punct)
  moreover have "compacts parse_members (map canon_member) (Suc n) d'' s'' r'' ms"
    if "parse_members (Suc n) d'' s'' = POk ms r''"
    using that unfolding parse_members.simps(2)
    by (auto simp: map_pres_POk_iff Let_def simp del: parser_simps split: pres.splits list.splits if_splits
        intro!: compacts_last_member [OF _ _ V] compacts_more_members [OF _ _ V _ M] ended_punct)
  ultimately show ?case by blast
qed

lemma compact_value:
  assumes "parse_value n d s = POk v r" and "skip_ws r = []"
  obtains v' where "read_as parse_value n d (compact False s) v'" and "canon v' = canon v"
proof -
  from assms(2) have r: "ended r" "compact False r = []" by (simp_all add: ended_def compact_Nil)
  then have "compacts parse_value canon n d s r v" using assms(1) compact_parse by blast
  with r that show ?thesis by (auto simp: compacts_def)
qed

end
