(* ===== verification/GoJsonWrite.thy ===== *)
theory GoJsonWrite
  imports GoCompactValue
begin

text \<open>
  The writer of \<open>encoding/json\<close> (\<open>Encoder.Encode\<close>, HTML escaping on): \<open>quote_string\<close> writes a Go
  string, \<open>doc_text\<close> a document made of numbers, strings, raw JSON, slices and structs, \<open>encoded\<close>
  adds the final newline. \<open>encoded_reads_back\<close>: when the numbers are JSON numbers, the raw parts are
  JSON and nothing nests deeper than a reader allows (\<open>fits\<close>), the text is one JSON value and it
  is the one the document stands for (\<open>doc_value\<close>).
\<close>

section \<open>Writing strings\<close>

definition short_escape :: "char \<Rightarrow> char option" where
  "short_escape c =
     map_of [(CHR 0x08, CHR ''b''), (CHR 0x0C, CHR ''f''), (CHR 0x0A, CHR ''n''), (CHR 0x0D, CHR ''r''),
             (CHR 0x09, CHR ''t''), (backslash, backslash), (quote, quote)] c"

definition escape_ascii :: "char \<Rightarrow> string" where
  "escape_ascii c =
     (case short_escape c of
        Some e \<Rightarrow> [backslash, e]
      | None \<Rightarrow> if byte c < 32 \<or> html_char c then unicode_escape (byte c) else [c])"

function escape_text :: "string \<Rightarrow> string" where
  "escape_text [] = []"
| "escape_text (c # cs) =
     (if byte c < 0x80 then escape_ascii c @ escape_text cs
      else if utf8_len (c # cs) = 0 then unicode_escape 0xFFFD @ escape_text cs
      else if line_separator (c # cs)
        then unicode_escape (separator_rune (cs ! 1)) @ escape_text (drop 2 cs)
      else take (utf8_len (c # cs)) (c # cs) @ escape_text (drop (utf8_len (c # cs)) (c # cs)))"
  by pat_completeness auto
termination
  by (relation "measure length") auto

declare escape_text.simps(2) [simp del]

definition quote_string :: "string \<Rightarrow> string" where
  "quote_string s = quote # escape_text s @ [quote]"

text \<open>A Go string as Unicode text: bytes that are no UTF-8 are replaced.\<close>

function to_utf8 :: "string \<Rightarrow> string" where
  "to_utf8 [] = []"
| "to_utf8 (c # cs) =
     (if utf8_len (c # cs) = 0 then replacement @ to_utf8 cs
      else take (utf8_len (c # cs)) (c # cs) @ to_utf8 (drop (utf8_len (c # cs)) (c # cs)))"
  by pat_completeness auto
termination
  by (relation "measure length") auto

declare to_utf8.simps(2) [simp del]

lemma to_utf8_valid: "utf8_valid s \<Longrightarrow> to_utf8 s = s"
proof (induction s rule: to_utf8.induct)
  case 1
  show ?case by simp
next
  case (2 c cs)
  then show ?case
    by (subst (asm) utf8_valid.simps) (auto simp: to_utf8.simps(2) split: if_splits)
qed

lemma all_cont_prefix: "all_cont n s \<Longrightarrow> n \<le> m \<Longrightarrow> all_cont n (take m s @ y)"
proof (induction n arbitrary: s m)
  case 0
  show ?case by simp
next
  case (Suc n)
  then show ?case by (cases s; cases m) auto
qed

lemma follows_prefix: "follows lo hi n s \<Longrightarrow> follows lo hi n (take (Suc n) s @ y)"
  by (auto simp: follows_def all_cont_prefix split: list.splits)

lemma utf8_len_prefix: "utf8_len (c # cs) = Suc k \<Longrightarrow> utf8_len (c # take k cs @ y) = Suc k"
proof -
  assume a: "utf8_len (c # cs) = Suc k"
  then have "k \<in> {0, 1, 2, 3}" by (auto simp: utf8_len_def Let_def split: if_splits)
  with a show ?thesis
    by (auto simp: utf8_len_def Let_def numeral_2_eq_2 numeral_3_eq_3 split: if_splits
        dest: follows_prefix [where y = y])
qed

lemma short_escape_simple: "short_escape c = Some e \<Longrightarrow> simple_escape e \<and> escape_char e = c"
  by (auto simp: short_escape_def simple_escape_def escape_char_def backslash_def quote_def split: if_splits)

lemma not_short_escape: "short_escape c = None \<Longrightarrow> c \<noteq> quote \<and> c \<noteq> backslash"
  by (auto simp: short_escape_def split: if_splits)

lemma raw_conts: "all_cont k a \<Longrightarrow> raw_text b \<Longrightarrow> raw_text (take k a @ b)"
proof (induction k arbitrary: a)
  case 0
  then show ?case by simp
next
  case (Suc k)
  then obtain c cs where a: "a = c # cs" "cont c" "all_cont k cs" by (cases a) auto
  then have "c \<noteq> quote" "c \<noteq> backslash" "32 \<le> byte c"
    using cont_copied [OF a(2)] by (auto simp: copied_def cont_def byte_in_def)
  with Suc a show ?case by (simp add: raw_char)
qed

lemma high_char: "\<not> byte c < 0x80 \<Longrightarrow> c \<noteq> quote \<and> c \<noteq> backslash \<and> 32 \<le> byte c"
  by (auto simp: quote_def backslash_def)

lemma raw_escape_text: "raw_text (escape_text s)"
proof (induction s rule: escape_text.induct)
  case 1
  show ?case by (simp add: raw_end)
next
  case (2 c cs)
  consider "byte c < 0x80" | "\<not> byte c < 0x80" "utf8_len (c # cs) = 0"
    | "\<not> byte c < 0x80" "line_separator (c # cs)" "utf8_len (c # cs) \<noteq> 0"
    | k where "\<not> byte c < 0x80" "\<not> line_separator (c # cs)" "utf8_len (c # cs) = Suc k"
    by (cases "utf8_len (c # cs)") auto
  then show ?case
  proof cases
    case 1
    with 2 show ?thesis
      by (auto simp: escape_text.simps(2) escape_ascii_def raw_simple raw_unicode_escape raw_char
          short_escape_simple not_short_escape split: option.splits)
  next
    case 2
    with "2.IH" show ?thesis by (simp add: escape_text.simps(2) raw_unicode_escape)
  next
    case 3
    with "2.IH" show ?thesis by (simp add: escape_text.simps(2) raw_unicode_escape)
  next
    case 4
    with "2.IH" utf8_len_all_cont [OF 4(3)] high_char [OF 4(1)] show ?thesis
      by (simp add: escape_text.simps(2) raw_char raw_conts)
  qed
qed

lemma replacement_rune: "encode_rune 0xFFFD = replacement"
  by (simp add: encode_rune_def char_of_eq_iff take_bit_eq_mod replacement_def)

lemma unquote_unicode_bmp:
  assumes "n < 0x10000" and "\<not> (0xD800 \<le> n \<and> n < 0xE000)"
  shows "unquote (unicode_escape n @ x) = encode_rune n @ unquote x"
  by (simp only: unicode_escape_def append.simps unquote_unicode [OF hex4_digits [OF assms(1)]] assms(2) if_False)

lemma unquote_simple:
  "simple_escape e \<Longrightarrow> unquote (backslash # e # x) = escape_char e # unquote x"
  by (simp add: unquote.simps(2) simple_not_u)

lemma unquote_escape_text: "unquote (escape_text s) = to_utf8 s"
proof (induction s rule: escape_text.induct)
  case 1
  show ?case by simp
next
  case (2 c cs)
  consider "byte c < 0x80" | "\<not> byte c < 0x80" "utf8_len (c # cs) = 0"
    | "\<not> byte c < 0x80" "line_separator (c # cs)" "utf8_len (c # cs) \<noteq> 0"
    | k where "\<not> byte c < 0x80" "\<not> line_separator (c # cs)" "utf8_len (c # cs) = Suc k"
    by (cases "utf8_len (c # cs)") auto
  then show ?case
  proof cases
    case 1
    then have len: "utf8_len (c # x) = Suc 0" for x by (simp add: utf8_len_def)
    have rune: "encode_rune (byte c) = [c]" using 1 by (simp add: encode_rune_def)
    have "unquote (escape_ascii c @ x) = c # unquote x" for x
      using 1 by (auto simp: escape_ascii_def unquote_simple short_escape_simple not_short_escape
          unquote_unicode_bmp rune unquote_char len split: option.splits)
    with 1 "2.IH" len show ?thesis by (simp add: escape_text.simps(2) to_utf8.simps(2))
  next
    case 2
    with "2.IH" show ?thesis
      by (simp add: escape_text.simps(2) to_utf8.simps(2) unquote_unicode_bmp replacement_rune)
  next
    case 3
    then obtain l t where l: "c = CHR 0xE2" "cs = CHR 0x80 # l # t" "l = CHR 0xA8 \<or> l = CHR 0xA9"
      by (meson line_separatorE)
    then have "utf8_len (c # cs) = Suc 2" by (auto simp: utf8_len_def follows_def cont_def byte_in_def numeral_2_eq_2)
    moreover have "encode_rune (separator_rune l) = [CHR 0xE2, CHR 0x80, l]"
      using l(3) by (auto simp: separator_runes separator_rune_def)
    moreover have "separator_rune l < 0xD800" by (simp add: separator_rune_def)
    ultimately show ?thesis using 3 l "2.IH"
      by (simp add: escape_text.simps(2) to_utf8.simps(2) unquote_unicode_escape numeral_2_eq_2)
  next
    case 4
    have "k \<le> length cs" using compact_conts [OF utf8_len_all_cont [OF 4(3)]] by simp
    with 4 "2.IH" high_char [OF 4(1)] show ?thesis
      by (simp add: escape_text.simps(2) to_utf8.simps(2) unquote_char(2) [OF _ utf8_len_prefix])
  qed
qed

section \<open>Documents\<close>

text \<open>What the encoder is given: numbers as text, Go strings, raw JSON, slices and structs.\<close>

datatype doc =
    DNum string
  | DStr string
  | DRaw string
  | DArr "doc list"
  | DObj "(string \<times> doc) list"

fun commas :: "string list \<Rightarrow> string" where
  "commas [] = []"
| "commas [t] = t"
| "commas (t # ts) = t @ CHR '','' # commas ts"

primrec doc_text :: "doc \<Rightarrow> string" where
  "doc_text (DNum t) = t"
| "doc_text (DStr s) = quote_string s"
| "doc_text (DRaw r) = compact False r"
| "doc_text (DArr ds) = CHR ''['' # commas (map doc_text ds) @ '']''"
| "doc_text (DObj ms) =
     CHR ''{'' # commas (map (\<lambda>(n, t). quote_string n @ CHR '':'' # t) (map (map_prod id doc_text) ms)) @ ''}''"

text \<open>The value such a document stands for, with the strings decoded.\<close>

definition raw_value :: "string \<Rightarrow> json" where
  "raw_value r = (case parse_json r of POk v rest \<Rightarrow> canon v | _ \<Rightarrow> JNull)"

primrec doc_value :: "doc \<Rightarrow> json" where
  "doc_value (DNum t) = JNum t"
| "doc_value (DStr s) = JStr (to_utf8 s)"
| "doc_value (DRaw r) = raw_value r"
| "doc_value (DArr ds) = JArr (map doc_value ds)"
| "doc_value (DObj ms) = JObj (map (\<lambda>(n, v). (to_utf8 n, [], v)) (map (map_prod id doc_value) ms))"

definition json_fits :: "nat \<Rightarrow> string \<Rightarrow> bool" where
  "json_fits d r =
     (case parse_value (2 * length r + 1) d (skip_ws r) of POk v rest \<Rightarrow> skip_ws rest = [] | _ \<Rightarrow> False)"

primrec fits :: "doc \<Rightarrow> nat \<Rightarrow> bool" where
  "fits (DNum t) = (\<lambda>d. scan_number t = POk t [])"
| "fits (DStr s) = (\<lambda>d. True)"
| "fits (DRaw r) = (\<lambda>d. json_fits d r)"
| "fits (DArr ds) = (\<lambda>d. d < max_nesting \<and> list_all (\<lambda>f. f (Suc d)) (map fits ds))"
| "fits (DObj ms) = (\<lambda>d. d < max_nesting \<and> list_all (\<lambda>(n, f). f (Suc d)) (map (map_prod id fits) ms))"

lemma json_fits_0: "json_fits 0 r = json_valid r"
  by (simp add: json_fits_def json_valid_def parse_json_def)

text \<open>Less nesting around a text does not change how it is read.\<close>

lemma parse_depth:
  "(parse_value n d s = POk v r \<and> e \<le> d \<longrightarrow> parse_value n e s = POk v r) \<and>
   (parse_elems n d' s' = POk vs r' \<and> e' \<le> d' \<longrightarrow> parse_elems n e' s' = POk vs r') \<and>
   (parse_members n d'' s'' = POk ms r'' \<and> e'' \<le> d'' \<longrightarrow> parse_members n e'' s'' = POk ms r'')"
proof (induction n arbitrary: d e s v r d' e' s' vs r' d'' e'' s'' ms r'')
  case 0
  show ?case by simp
next
  case (Suc n)
  have V: "parse_value n d s = POk v r \<Longrightarrow> e \<le> d \<Longrightarrow> parse_value n e s = POk v r" for d e s v r
    using Suc.IH by blast
  have E: "parse_elems n d s = POk vs r \<Longrightarrow> e \<le> d \<Longrightarrow> parse_elems n e s = POk vs r" for d e s vs r
    using Suc.IH by blast
  have M: "parse_members n d s = POk ms r \<Longrightarrow> e \<le> d \<Longrightarrow> parse_members n e s = POk ms r" for d e s ms r
    using Suc.IH by blast
  have "parse_value (Suc n) e s = POk v r" if "parse_value (Suc n) d s = POk v r" "e \<le> d"
    using that unfolding parse_value.simps(2)
    by (auto simp: map_pres_POk_iff simp del: parser_simps split: list.splits if_splits
        dest!: E [of "Suc d" _ _ _ "Suc e"] M [of "Suc d" _ _ _ "Suc e"])
  moreover have "parse_elems (Suc n) e' s' = POk vs r'" if "parse_elems (Suc n) d' s' = POk vs r'" "e' \<le> d'"
    using that unfolding parse_elems.simps(2)
    by (auto simp: map_pres_POk_iff simp del: parser_simps split: list.splits if_splits pres.splits
        dest!: V [of d' _ _ _ e'] E [of d' _ _ _ e'])
  moreover have "parse_members (Suc n) e'' s'' = POk ms r''"
    if "parse_members (Suc n) d'' s'' = POk ms r''" "e'' \<le> d''"
    using that unfolding parse_members.simps(2)
    by (auto simp: map_pres_POk_iff Let_def simp del: parser_simps split: list.splits if_splits pres.splits
        dest!: V [of d'' _ _ _ e''] M [of d'' _ _ _ e''])
  ultimately show ?case by blast
qed

section \<open>What is written can be read\<close>

lemma reads_mono: "read_as p n d t v \<Longrightarrow> n \<le> n' \<Longrightarrow> read_as p n' d t v"
  by (simp add: read_as_def)

lemma quote_punct: "quote \<noteq> CHR ''{''" "quote \<noteq> CHR ''[''" "quote \<noteq> CHR '']''" "quote \<noteq> CHR ''}''"
  by (simp_all add: quote_def)

lemma reads_string: "read_as parse_value (Suc n) d (quote_string s) (JStr (escape_text s))"
  by (rule reads_scalar)
    (simp_all add: quote_string_def parse_scalar_def scan_raw raw_escape_text quote_punct)

lemma reads_number:
  assumes "scan_number t = POk t []"
  shows "read_as parse_value (Suc n) d t (JNum t)"
proof -
  note t = scan_number_local [OF assms]
  then obtain c cs where c: "t = c # cs" by (cases t) auto
  have s: "scan_number (t @ x) = POk t x" if "apart x" for x using t that by blast
  have "c \<notin> {CHR ''{'', CHR ''['', CHR ''t'', CHR ''f'', CHR ''n''}"
  proof
    assume "c \<in> {CHR ''{'', CHR ''['', CHR ''t'', CHR ''f'', CHR ''n''}"
    then have "scan_number t = PFail"
      using c by (auto simp: scan_number_def int_part_def digits1_def digit_def digit_val_def)
    with assms show False by simp
  qed
  with c t s show ?thesis
    by (intro reads_scalar) (auto simp: parse_scalar_def inert_def)
qed

lemma reads_raw:
  assumes "json_fits d r"
  obtains n v where "read_as parse_value n d (compact False r) v" and "canon v = raw_value r"
proof -
  obtain u rest where u: "parse_value (2 * length r + 1) d (skip_ws r) = POk u rest" "skip_ws rest = []"
    using assms by (auto simp: json_fits_def split: pres.splits)
  then have "parse_value (2 * length r + 1) 0 (skip_ws r) = POk u rest" using parse_depth by blast
  then have "parse_json r = POk u rest" by (simp only: parse_json_def)
  with compact_value [OF u] that show ?thesis by (auto simp: raw_value_def)
qed

lemma commas_Cons: "ts \<noteq> [] \<Longrightarrow> commas (t # ts) = t @ CHR '','' # commas ts"
  by (cases ts) simp_all

lemma doc_elements:
  assumes "list_all (\<lambda>e. \<exists>n v. read_as parse_value n d (doc_text e) v \<and> canon v = doc_value e) ds" and "ds \<noteq> []"
  shows "\<exists>n vs. read_as parse_elems n d (commas (map doc_text ds) @ '']'') vs \<and> map canon vs = map doc_value ds"
  using assms
proof (induction ds)
  case Nil
  then show ?case by simp
next
  case (Cons e ds)
  then obtain n v where v: "read_as parse_value n d (doc_text e) v" "canon v = doc_value e" by auto
  show ?case
  proof (cases "ds = []")
    case True
    with reads_last [OF v(1)] v(2) show ?thesis by (intro exI [of _ "Suc n"] exI [of _ "[v]"]) simp
  next
    case False
    with Cons obtain k vs where vs: "read_as parse_elems k d (commas (map doc_text ds) @ '']'') vs"
        "map canon vs = map doc_value ds"
      by auto
    from False v vs
      reads_more [OF reads_mono [OF v(1), of "max n k"] reads_mono [OF vs(1), of "max n k"]]
    show ?thesis
      by (intro exI [of _ "Suc (max n k)"] exI [of _ "v # vs"]) (simp add: commas_Cons)
  qed
qed

lemma member_string: "member_text (escape_text n) t = quote_string n @ CHR '':'' # t"
  by (simp add: member_text_def quote_string_def)

lemma doc_members:
  assumes "list_all (\<lambda>(m, e). \<exists>n v. read_as parse_value n d (doc_text e) v \<and> canon v = doc_value e) ms" and "ms \<noteq> []"
  shows "\<exists>n vs. read_as parse_members n d (commas (map (\<lambda>(m, e). quote_string m @ CHR '':'' # doc_text e) ms) @ ''}'') vs \<and>
    map canon_member vs = map (\<lambda>(m, e). (to_utf8 m, [], doc_value e)) ms"
  using assms
proof (induction ms)
  case Nil
  then show ?case by simp
next
  case (Cons me ms)
  obtain m e where me: "me = (m, e)" by (cases me)
  with Cons.prems obtain n v where v: "read_as parse_value n d (doc_text e) v" "canon v = doc_value e" by auto
  note name = raw_escape_text [of m]
  have c: "canon_member (escape_text m, t, v) = (to_utf8 m, [], doc_value e)" for t
    by (simp add: canon_member_def unquote_escape_text v(2))
  show ?case
  proof (cases "ms = []")
    case True
    with reads_last_member [OF name v(1)] me c show ?thesis
      by (intro exI [of _ "Suc n"] exI [of _ "[(escape_text m, doc_text e, v)]"]) (simp add: member_string)
  next
    case False
    with Cons obtain k vs where
      vs: "read_as parse_members k d (commas (map (\<lambda>(m, e). quote_string m @ CHR '':'' # doc_text e) ms) @ ''}'') vs"
        "map canon_member vs = map (\<lambda>(m, e). (to_utf8 m, [], doc_value e)) ms"
      by auto
    from False vs me c
      reads_more_members [OF name reads_mono [OF v(1), of "max n k"] reads_mono [OF vs(1), of "max n k"]]
    show ?thesis
      by (intro exI [of _ "Suc (max n k)"] exI [of _ "(escape_text m, doc_text e, v) # vs"])
        (simp add: commas_Cons member_string)
  qed
qed

lemma members_text:
  "map (\<lambda>(n, t). quote_string n @ CHR '':'' # t) (map (map_prod id doc_text) ms) =
     map (\<lambda>(m, e). quote_string m @ CHR '':'' # doc_text e) ms"
  by (induction ms) auto

lemma members_value:
  "map (\<lambda>(n, v). (to_utf8 n, [], v)) (map (map_prod id doc_value) ms) = map (\<lambda>(m, e). (to_utf8 m, [], doc_value e)) ms"
  by (induction ms) auto

lemma reads_value_hd:
  assumes "read_as parse_value n d t v"
  shows "hd t \<noteq> CHR '']''"
proof
  assume "hd t = CHR '']''"
  then obtain cs where t: "t = CHR '']'' # cs" using read_as_front [OF assms] by (cases t) auto
  have "parse_value (Suc n) d (t @ []) = POk v []" by (rule read_asD [OF assms]) (simp_all add: apart_def)
  then show False
    using t by (simp add: parse_scalar_def scan_number_def int_part_def digits1_def digit_def digit_val_def quote_def)
qed

definition doc_reads :: "nat \<Rightarrow> doc \<Rightarrow> bool" where
  "doc_reads d e \<longleftrightarrow> (\<exists>n v. read_as parse_value n d (doc_text e) v \<and> canon v = doc_value e)"

lemma doc_readsI: "read_as parse_value n d (doc_text e) v \<Longrightarrow> canon v = doc_value e \<Longrightarrow> doc_reads d e"
  by (auto simp: doc_reads_def)

lemma array_reads:
  assumes "fits (DArr ds) d" and "list_all (doc_reads (Suc d)) ds"
  shows "doc_reads d (DArr ds)"
proof (cases "ds = []")
  case True
  with assms(1) reads_empty(2) [of d 0] show ?thesis
    by (intro doc_readsI [of "Suc 0" _ _ "JArr []"]) simp_all
next
  case False
  from doc_elements [OF assms(2) [unfolded doc_reads_def] False] obtain n vs where
    vs: "read_as parse_elems n (Suc d) (commas (map doc_text ds) @ '']'') vs" "map canon vs = map doc_value ds" by auto
  obtain e es where ds: "ds = e # es" using False by (cases ds) auto
  with assms(2) obtain k v where v: "read_as parse_value k (Suc d) (doc_text e) v" by (auto simp: doc_reads_def)
  have "hd (commas (map doc_text ds) @ '']'') = hd (doc_text e)"
    using ds read_as_front [OF v] by (cases es; cases "doc_text e") auto
  with reads_value_hd [OF v] have "hd (commas (map doc_text ds) @ '']'') \<noteq> CHR '']''" by simp
  with reads_array [OF vs(1)] assms(1) vs(2) show ?thesis
    by (intro doc_readsI [of "Suc n" _ _ "JArr vs"]) simp_all
qed

lemma object_reads:
  assumes "fits (DObj ms) d" and "list_all (\<lambda>(m, e). doc_reads (Suc d) e) ms"
  shows "doc_reads d (DObj ms)"
proof (cases "ms = []")
  case True
  with assms(1) reads_empty(1) [of d 0] show ?thesis
    by (intro doc_readsI [of "Suc 0" _ _ "JObj []"]) simp_all
next
  case False
  from doc_members [OF assms(2) [unfolded doc_reads_def] False] obtain n vs where
    vs: "read_as parse_members n (Suc d) (commas (map (\<lambda>(m, e). quote_string m @ CHR '':'' # doc_text e) ms) @ ''}'') vs"
      "map canon_member vs = map (\<lambda>(m, e). (to_utf8 m, [], doc_value e)) ms" by auto
  have "hd (commas (map (\<lambda>(m, e). quote_string m @ CHR '':'' # doc_text e) ms) @ ''}'') \<noteq> CHR ''}''"
    using False by (cases ms; cases "tl ms") (auto simp: quote_string_def quote_punct)
  with reads_object [OF vs(1)] assms(1) have "read_as parse_value (Suc n) d (doc_text (DObj ms)) (JObj vs)"
    by (simp only: doc_text.simps members_text append_Cons fits.simps, simp)
  moreover have "canon (JObj vs) = doc_value (DObj ms)"
    using vs(2) by (simp only: doc_value.simps members_value canon_object)
  ultimately show ?thesis by (rule doc_readsI)
qed

lemma doc_fits_read: "fits e d \<Longrightarrow> \<exists>n v. read_as parse_value n d (doc_text e) v \<and> canon v = doc_value e"
  unfolding doc_reads_def [symmetric]
proof (induction e arbitrary: d)
  case (DNum t)
  then show ?case using reads_number [of t 0 d] by (intro doc_readsI [of "Suc 0" _ _ "JNum t"]) simp_all
next
  case (DStr s)
  show ?case using reads_string [of 0 d s]
    by (intro doc_readsI [of "Suc 0" _ _ "JStr (escape_text s)"]) (simp_all add: unquote_escape_text)
next
  case (DRaw r)
  then have "json_fits d r" by simp
  then show ?case by (rule reads_raw) (auto simp: doc_reads_def)
next
  case (DArr ds)
  then have "list_all (doc_reads (Suc d)) ds" by (auto simp: list_all_iff)
  with DArr.prems show ?case by (rule array_reads)
next
  case (DObj ms)
  then have "list_all (\<lambda>(m, e). doc_reads (Suc d) e) ms" by (fastforce simp: list_all_iff)
  with DObj.prems show ?case by (rule object_reads)
qed

definition encoded :: "doc \<Rightarrow> string" where
  "encoded e = doc_text e @ [CHR 0x0A]"

lemma encoded_reads_back:
  assumes "fits e 0"
  shows "\<exists>v. parse_json (encoded e) = POk v [CHR 0x0A] \<and> canon v = doc_value e"
proof -
  obtain n v where v: "read_as parse_value n 0 (doc_text e) v" "canon v = doc_value e"
    using doc_fits_read [OF assms] by blast
  have "parse_value (2 * length (encoded e) + 1 + n) 0 (skip_ws (encoded e)) = POk v [CHR 0x0A]"
    using v(1) read_asD [OF v(1), of "2 * length (encoded e) + 1 + n" 0 "[CHR 0x0A]"]
    by (simp add: encoded_def apart_def digit_def digit_val_def)
  with v(2) show ?thesis by (simp only: parse_json_fuel) blast
qed

end
