(* ===== verification/GoTimeFormat.thy ===== *)
theory GoTimeFormat
  imports GoTime
begin

text \<open>
  Writing an instant in the layout \<open>time.RFC3339Nano\<close>, as \<open>time.Time.MarshalJSON\<close> does, in UTC: the
  container image of the program sets no time zone, so its local zone is UTC. The year is found by
  counting up from \<open>day div 366\<close>, which is never too late. \<open>parse_format\<close>: the RFC 3339 parser of
  the query parameters reads back exactly the instant that was written.
\<close>

fun fixed_digits :: "nat \<Rightarrow> nat \<Rightarrow> string" where
  "fixed_digits 0 n = []"
| "fixed_digits (Suc k) n = fixed_digits k (n div 10) @ [digit_char (n mod 10)]"

text \<open>A fraction of \<open>k\<close> digits without its trailing zeros.\<close>

fun frac_text :: "nat \<Rightarrow> nat \<Rightarrow> string" where
  "frac_text 0 n = []"
| "frac_text (Suc k) n = (if n mod 10 = 0 then frac_text k (n div 10) else fixed_digits (Suc k) n)"

lemma days_before_year_Suc: "days_before_year (Suc y) = days_before_year y + (if is_leap y then 366 else 365)"
proof -
  define a b c where "a = (y + 3) div 4" and "b = (y + 99) div 100" and "c = (y + 399) div 400"
  have step: "Suc (y + k) div Suc k = (y + k) div Suc k + (if Suc k dvd y then 1 else 0)" for k
    using mod_add_self2 [of y "Suc k"] by (simp add: div_Suc mod_eq_0_iff_dvd)
  have next_abc: "(Suc y + 3) div 4 = a + (if 4 dvd y then 1 else 0)"
    "(Suc y + 99) div 100 = b + (if 100 dvd y then 1 else 0)"
    "(Suc y + 399) div 400 = c + (if 400 dvd y then 1 else 0)"
    using step [of 3] step [of 99] step [of 399] by (simp_all add: a_def b_def c_def)
  have "y \<le> 4 * a" using div_mult_mod_eq [of "y + 3" 4] mod_less_divisor [of 4 "y + 3"] unfolding a_def by linarith
  then have "y + 99 < (a + 1) * 100" by simp
  then have "b \<le> a" unfolding b_def using less_mult_imp_div_less by fastforce
  moreover have "days_before_year y = 365 * y + a - b + c"
    by (simp only: days_before_year_def a_def b_def c_def)
  moreover have "days_before_year (Suc y) = 365 * Suc y + (a + (if 4 dvd y then 1 else 0)) -
      (b + (if 100 dvd y then 1 else 0)) + (c + (if 400 dvd y then 1 else 0))"
    by (simp only: days_before_year_def next_abc)
  moreover have "400 dvd y \<Longrightarrow> 100 dvd y" "100 dvd y \<Longrightarrow> 4 dvd y" by (erule dvd_trans [rotated]; simp)+
  moreover have "is_leap y \<longleftrightarrow> 4 dvd y \<and> (\<not> 100 dvd y \<or> 400 dvd y)"
    by (simp only: is_leap_def mod_eq_0_iff_dvd simp_thms)
  ultimately show ?thesis
    by (cases "4 dvd y"; cases "100 dvd y"; cases "400 dvd y") simp_all
qed

lemma days_before_year_grows: "365 * y \<le> days_before_year y \<and> days_before_year y \<le> 366 * y"
  by (induction y) (auto simp: days_before_year_Suc, auto simp: days_before_year_def)

text \<open>The year of a day, counted up from one that is not later.\<close>

function year_from :: "nat \<Rightarrow> nat \<Rightarrow> nat" where
  "year_from day y = (if days_before_year (Suc y) \<le> day then year_from day (Suc y) else y)"
  by pat_completeness auto
termination
proof (relation "measure (\<lambda>(day, y). day - y)")
  fix day y
  assume "days_before_year (Suc y) \<le> day"
  with days_before_year_grows [of "Suc y"] have "365 * Suc y \<le> day" by (blast intro: order_trans)
  then have "y < day" by simp
  then show "((day, Suc y), day, y) \<in> measure (\<lambda>(day, y). day - y)" by simp
qed simp

declare year_from.simps [simp del]

definition year_of :: "nat \<Rightarrow> nat" where
  "year_of day = year_from day (day div 366)"

definition month_of :: "nat \<Rightarrow> nat \<Rightarrow> nat" where
  "month_of yday y = (case find (\<lambda>m. yday < days_before_month (Suc m) y) [1..<13] of Some m \<Rightarrow> m | None \<Rightarrow> 12)"

definition format_rfc3339 :: "int \<Rightarrow> string" where
  "format_rfc3339 t =
     (let secs = nat (t div ns_per_sec + 719528 * 86400);
          nsec = nat (t mod ns_per_sec);
          day = secs div 86400;
          clock = secs mod 86400;
          year = year_of day;
          yday = day - days_before_year year;
          month = month_of yday year
      in fixed_digits 4 year @ CHR ''-'' # fixed_digits 2 month @ CHR ''-'' #
         fixed_digits 2 (yday - days_before_month month year + 1) @ CHR ''T'' #
         fixed_digits 2 (clock div 3600) @ CHR '':'' # fixed_digits 2 (clock div 60 mod 60) @ CHR '':'' #
         fixed_digits 2 (clock mod 60) @ (if nsec = 0 then [] else dot # frac_text 9 nsec) @ ''Z'')"

section \<open>Dates\<close>

lemma year_from_spec:
  "days_before_year y \<le> day \<Longrightarrow>
     days_before_year (year_from day y) \<le> day \<and> day < days_before_year (Suc (year_from day y))"
proof (induction day y rule: year_from.induct)
  case (1 day y)
  then show ?case by (subst (1 2) year_from.simps) (auto simp: not_le)
qed

lemma year_of_spec: "days_before_year (year_of day) \<le> day" "day < days_before_year (Suc (year_of day))"
proof -
  have "days_before_year (day div 366) \<le> 366 * (day div 366)" using days_before_year_grows by blast
  then have "days_before_year (day div 366) \<le> day" using div_mult_mod_eq [of day 366] by linarith
  from year_from_spec [OF this]
  show "days_before_year (year_of day) \<le> day" "day < days_before_year (Suc (year_of day))"
    by (simp_all add: year_of_def)
qed

lemma days_before_year_mono: "y \<le> z \<Longrightarrow> days_before_year y \<le> days_before_year z"
  by (induction rule: dec_induct) (auto simp: days_before_year_Suc)

lemma year_of_bound: "day < days_before_year z \<Longrightarrow> year_of day < z"
  using year_of_spec(1) [of day] days_before_year_mono [of z "year_of day"] by (meson leD leI le_less_trans)

lemma days_of_year: "days_before_month 13 y = (if is_leap y then 366 else 365)"
  by (simp add: eval_nat_numeral days_in_def)

lemma month_of_spec:
  assumes "yday < days_before_month 13 y"
  shows "1 \<le> month_of yday y" "month_of yday y \<le> 12"
    and "days_before_month (month_of yday y) y \<le> yday"
    and "yday - days_before_month (month_of yday y) y + 1 \<le> days_in (month_of yday y) y"
proof -
  define p where "p m \<longleftrightarrow> yday < days_before_month (Suc m) y" for m
  have "p 12" using assms by (simp add: p_def)
  moreover have "12 \<in> set [1::nat..<13]" by simp
  ultimately have "find p [1..<13] \<noteq> None" by (metis find_None_iff)
  then obtain m where m: "find p [1..<13] = Some m" by auto
  then obtain i where i: "i < 12" "m = i + 1" "p m" "\<forall>j < i. \<not> p (j + 1)"
    by (auto simp: find_Some_iff)
  have "p = (\<lambda>m. yday < days_before_month (Suc m) y)" by (rule ext) (rule p_def)
  with m have mo: "month_of yday y = m" by (simp only: month_of_def option.case)
  show "1 \<le> month_of yday y" "month_of yday y \<le> 12" using i by (simp_all add: mo)
  show le: "days_before_month (month_of yday y) y \<le> yday"
  proof (cases i)
    case 0
    with i show ?thesis by (simp add: mo)
  next
    case (Suc j)
    with i have "m = Suc (Suc j)" "\<not> p (Suc j)" by simp_all
    then show ?thesis by (simp only: mo p_def not_less)
  qed
  show "yday - days_before_month (month_of yday y) y + 1 \<le> days_in (month_of yday y) y"
    using i le by (simp add: mo p_def)
qed

section \<open>Digits\<close>

lemma length_fixed_digits [simp]: "length (fixed_digits k n) = k"
  by (induction k n rule: fixed_digits.induct) simp_all

lemma digits_val_fixed: "digits_val 0 (fixed_digits k n) = Some (n mod 10 ^ k)"
proof (induction k n rule: fixed_digits.induct)
  case (1 n)
  show ?case by simp
next
  case (2 k n)
  have "10 * (n div 10 mod 10 ^ k) + n mod 10 = n mod 10 ^ Suc k"
    by (simp add: mod_mult2_eq)
  with 2 show ?case by (simp add: digits_val_append)
qed

lemma fixed_digits_digits: "list_all is_digit (fixed_digits k n)"
  by (induction k n rule: fixed_digits.induct) (simp_all add: is_digit_def)

lemma frac_text_digits: "list_all is_digit (frac_text k n)"
proof (induction k n rule: frac_text.induct)
  case (2 k n)
  then show ?case using fixed_digits_digits [of "Suc k" n] by (simp del: fixed_digits.simps)
qed simp

lemma frac_text_value:
  "0 < n \<Longrightarrow> n < 10 ^ k \<Longrightarrow>
     frac_text k n \<noteq> [] \<and> length (frac_text k n) \<le> k \<and>
     (\<exists>m. digits_val 0 (frac_text k n) = Some m \<and> m * 10 ^ (k - length (frac_text k n)) = n)"
proof (induction k n rule: frac_text.induct)
  case (1 n)
  then show ?case by simp
next
  case (2 k n)
  show ?case
  proof (cases "n mod 10 = 0")
    case True
    then have n: "n = n div 10 * 10" using div_mult_mod_eq [of n 10] by simp
    with "2.prems" have "0 < n div 10" "n div 10 < 10 ^ k" by auto
    with "2.IH" [OF True] obtain m where m: "frac_text k (n div 10) \<noteq> []" "length (frac_text k (n div 10)) \<le> k"
        "digits_val 0 (frac_text k (n div 10)) = Some m" "m * 10 ^ (k - length (frac_text k (n div 10))) = n div 10"
      by auto
    then have "m * 10 ^ (Suc k - length (frac_text k (n div 10))) = n"
      using n by (simp add: Suc_diff_le)
    with True m show ?thesis by simp
  next
    case False
    with "2.prems" show ?thesis
      using digits_val_fixed [of "Suc k" n] length_fixed_digits [of "Suc k" n]
      by (auto simp del: fixed_digits.simps length_fixed_digits)
  qed
qed

lemma two_digits: "fixed_digits 2 n = [digit_char (n div 10 mod 10), digit_char (n mod 10)]"
  by (simp add: numeral_2_eq_2)

lemma getnum_two: "n < 100 \<Longrightarrow> getnum fixed (fixed_digits 2 n @ s) = Some (n, s)"
  by (simp add: two_digits getnum_def)

lemma year_field_four: "n < 10000 \<Longrightarrow> year_field (fixed_digits 4 n @ s) = Some (n, s)"
  by (simp add: year_field_def digits_val_fixed)

lemma expect_Cons [simp]: "expect c (c # s) = Some s"
  by (simp add: expect_def)

lemma fraction_none: "fraction_field ''Z'' = (0, ''Z'')"
  by (simp add: fraction_field_def)

lemma fraction_some:
  assumes "0 < n" and "n < 10 ^ 9"
  shows "fraction_field (dot # frac_text 9 n @ ''Z'') = (n, ''Z'')"
proof -
  obtain m where m: "frac_text 9 n \<noteq> []" "length (frac_text 9 n) \<le> 9" "digits_val 0 (frac_text 9 n) = Some m"
      "m * 10 ^ (9 - length (frac_text 9 n)) = n"
    using frac_text_value [OF assms] by blast
  obtain d ds where d: "frac_text 9 n = d # ds" using m(1) by (cases "frac_text 9 n") auto
  have Z: "\<not> is_digit (CHR ''Z'')" by (simp add: is_digit_def digit_val_def)
  have "\<forall>c \<in> set (frac_text 9 n). is_digit c" using frac_text_digits [of 9 n] by (simp add: list_all_iff)
  then have "takeWhile is_digit (frac_text 9 n @ ''Z'') = frac_text 9 n" using Z
    by (simp add: takeWhile_append2)
  with d m \<open>\<forall>c \<in> set (frac_text 9 n). is_digit c\<close> show ?thesis
    by (simp add: fraction_field_def Let_def dot_def)
qed

lemma parse_fields:
  assumes "year < 10000" and "1 \<le> month" and "month \<le> 12" and "1 \<le> mday" and "mday \<le> days_in month year"
    and "hour < 24" and "mn < 60" and "sec < 60" and "fraction_field (f @ ''Z'') = (nsec, ''Z'')"
  shows "parse_rfc3339 (fixed_digits 4 year @ CHR ''-'' # fixed_digits 2 month @ CHR ''-'' #
      fixed_digits 2 mday @ CHR ''T'' # fixed_digits 2 hour @ CHR '':'' # fixed_digits 2 mn @ CHR '':'' #
      fixed_digits 2 sec @ f @ ''Z'') =
    Some (date_seconds year month mday hour mn sec * ns_per_sec + int nsec)"
proof -
  have "mday < 100" using assms(5) by (simp add: days_in_def split: if_splits)
  moreover have "zone_field ''Z'' = Some (0, [])" by (simp add: zone_field_def)
  ultimately show ?thesis
    using assms by (simp add: parse_rfc3339_def year_field_four getnum_two)
qed

lemma clock_parts:
  fixes c :: nat
  assumes "c < 86400"
  shows "c div 3600 < 24" "c div 60 mod 60 < 60" "c mod 60 < 60"
    and "c div 3600 * 3600 + c div 60 mod 60 * 60 + c mod 60 = c"
proof -
  show "c div 3600 < 24" "c div 60 mod 60 < 60" "c mod 60 < 60" using assms by (simp_all add: less_mult_imp_div_less)
  have "c div 60 = c div 3600 * 60 + c div 60 mod 60"
    using div_mult_mod_eq [of "c div 60" 60] by (simp add: div_mult2_eq [symmetric])
  then show "c div 3600 * 3600 + c div 60 mod 60 * 60 + c mod 60 = c"
    using div_mult_mod_eq [of c 60] by linarith
qed

text \<open>The date of a day number below the year 10000, in range and adding up to the day.\<close>

lemma date_of_day:
  fixes day :: nat
  assumes "day < 3652425"
  defines "year \<equiv> year_of day"
  defines "yday \<equiv> day - days_before_year year"
  defines "month \<equiv> month_of yday year"
  defines "mday \<equiv> yday - days_before_month month year + 1"
  shows "year < 10000" and "1 \<le> month" and "month \<le> 12" and "1 \<le> mday" and "mday \<le> days_in month year"
    and "days_before_year year + days_before_month month year + (mday - 1) = day"
proof -
  show "year < 10000" unfolding year_def using assms(1) by (intro year_of_bound) (simp add: days_before_year_def)
  have dy: "days_before_year year \<le> day" "day < days_before_year (Suc year)"
    using year_of_spec year_def by simp_all
  then have "yday < days_before_month 13 year"
    by (simp add: yday_def days_of_year days_before_year_Suc split: if_splits)
  note month = month_of_spec [OF this, folded month_def]
  then show "1 \<le> month" "month \<le> 12" "1 \<le> mday" "mday \<le> days_in month year" by (simp_all add: mday_def)
  show "days_before_year year + days_before_month month year + (mday - 1) = day"
    using dy(1) month(3) by (simp add: mday_def yday_def)
qed

text \<open>The parser reads back what the formatter wrote.\<close>

lemma parse_format:
  assumes "- 62167219200 * ns_per_sec \<le> t" and "t < 253402300800 * ns_per_sec"
  shows "parse_rfc3339 (format_rfc3339 t) = Some t"
proof -
  define secs where "secs = nat (t div ns_per_sec + 719528 * 86400)"
  define nsec where "nsec = nat (t mod ns_per_sec)"
  define day where "day = secs div 86400"
  define clock where "clock = secs mod 86400"
  define year where "year = year_of day"
  define yday where "yday = day - days_before_year year"
  define month where "month = month_of yday year"
  define mday where "mday = yday - days_before_month month year + 1"
  have ns: "ns_per_sec = 1000000000" by (simp add: ns_per_sec_def)
  have s0: "0 \<le> t div ns_per_sec + 719528 * 86400" "t div ns_per_sec + 719528 * 86400 < 3652425 * 86400"
    using assms unfolding ns by linarith+
  have n: "0 \<le> t mod ns_per_sec" "t mod ns_per_sec < 1000000000" by (simp_all add: ns)
  have nsec: "int nsec = t mod ns_per_sec" "nsec < 10 ^ 9" using n by (simp_all add: nsec_def)
  have isecs: "int secs = t div ns_per_sec + 719528 * 86400" using s0 by (simp add: secs_def)
  have "secs < 3652425 * 86400" using s0 by (simp add: secs_def)
  then have "day < 3652425" by (simp add: day_def less_mult_imp_div_less)
  note date = date_of_day [OF this, folded year_def, folded yday_def, folded month_def, folded mday_def]
  have "clock < 86400" by (simp add: clock_def)
  note clock = clock_parts [OF this]
  note date(6)
  moreover have "int secs = int day * 86400 + int clock"
    unfolding day_def clock_def using div_mult_mod_eq [of secs 86400] by (metis of_nat_add of_nat_mult of_nat_numeral)
  ultimately have "date_seconds year month mday (clock div 3600) (clock div 60 mod 60) (clock mod 60) = t div ns_per_sec"
    unfolding date_seconds_def clock(4) using isecs by simp
  moreover have "t div ns_per_sec * ns_per_sec + int nsec = t" by (simp add: nsec)
  moreover have "format_rfc3339 t = fixed_digits 4 year @ CHR ''-'' # fixed_digits 2 month @ CHR ''-'' #
         fixed_digits 2 mday @ CHR ''T'' # fixed_digits 2 (clock div 3600) @ CHR '':'' #
         fixed_digits 2 (clock div 60 mod 60) @ CHR '':'' #
         fixed_digits 2 (clock mod 60) @ (if nsec = 0 then [] else dot # frac_text 9 nsec) @ ''Z''"
    by (simp only: format_rfc3339_def Let_def secs_def nsec_def day_def clock_def year_def yday_def month_def mday_def)
  moreover have "fraction_field ((if nsec = 0 then [] else dot # frac_text 9 nsec) @ ''Z'') = (nsec, ''Z'')"
    using nsec(2) by (simp add: fraction_none fraction_some)
  note parse_fields [OF date(1-5) clock(1-3) this]
  ultimately show ?thesis by (simp only:)
qed

end
