(* ===== verification/ApiEncode.thy ===== *)
theory ApiEncode
  imports ApiCore GoJsonWrite GoTimeFormat "HOL-Library.List_Lexorder" "HOL-Library.Char_ord"
begin

text \<open>
  The bytes of the responses: the JSON document of every response struct of \<open>internal/api\<close>, by its
  field tags (names, order, \<open>omitempty\<close>), and \<open>body_text\<close>, what \<open>Encoder.Encode\<close> writes for it.

  Two texts are parameters: \<open>lib\<close> gives the text of an atom of an error message that the program
  leaves to libraries (\<open>%q\<close>, a duration, a Kafka error), and \<open>secs\<close> the text of the uptime, a
  \<open>float64\<close>; the lemmas ask of \<open>secs\<close> that it gives JSON numbers, of \<open>lib\<close> nothing.
\<close>

definition message_text :: "(atom \<Rightarrow> string) \<Rightarrow> atom list \<Rightarrow> string" where
  "message_text lib as = concat (map (\<lambda>a. case a of Lit s \<Rightarrow> s | Num i \<Rightarrow> itoa i | _ \<Rightarrow> lib a) as)"

definition num :: "int \<Rightarrow> doc" where
  "num i = DNum (itoa i)"

text \<open>A field with \<open>omitempty\<close>: left out for the empty string, the empty slice and the empty map.\<close>

definition unless_empty :: "'a list \<Rightarrow> string \<times> doc \<Rightarrow> (string \<times> doc) list" where
  "unless_empty xs field = (if xs = [] then [] else [field])"

section \<open>The documents\<close>

definition error_doc :: "(atom \<Rightarrow> string) \<Rightarrow> string \<Rightarrow> atom list \<Rightarrow> doc" where
  "error_doc lib code msg =
     DObj [(''error'', DObj [(''code'', DStr code), (''message'', DStr (message_text lib msg))])]"

definition offset_doc :: "record_offset \<Rightarrow> doc" where
  "offset_doc r = DObj [(''partition'', num (ro_partition r)), (''offset'', num (ro_offset r))]"

definition publish_doc :: "publish_response \<Rightarrow> doc" where
  "publish_doc r =
     DObj ([(''topic'', DStr (pu_topic r)), (''published'', num (int (pu_published r)))] @
           unless_empty (pu_offsets r) (''offsets'', DArr (map offset_doc (pu_offsets r))))"

text \<open>A map is written in the order of its keys.\<close>

definition headers_doc :: "(string \<times> string) list \<Rightarrow> doc" where
  "headers_doc hs = DObj (map (\<lambda>(k, v). (k, DStr v)) (sort_key fst hs))"

definition timestamp_doc :: "int \<Rightarrow> doc" where
  "timestamp_doc t = DRaw (quote # format_rfc3339 t @ [quote])"

definition consumed_doc :: "consumed_json \<Rightarrow> doc" where
  "consumed_doc m =
     DObj ([(''partition'', num (cj_partition m)), (''offset'', num (cj_offset m))] @
           unless_empty (cj_key m) (''key'', DStr (cj_key m)) @
           unless_empty (cj_key_encoding m) (''key_encoding'', DStr (cj_key_encoding m)) @
           [(''value'', DRaw (cj_value m)), (''value_encoding'', DStr (cj_value_encoding m))] @
           unless_empty (cj_headers m) (''headers'', headers_doc (cj_headers m)) @
           [(''timestamp'', timestamp_doc (cj_timestamp m))])"

definition consume_doc :: "consume_response \<Rightarrow> doc" where
  "consume_doc r =
     DObj [(''topic'', DStr (cs_topic r)), (''partition'', num (cs_partition r)),
           (''count'', num (int (cs_count r))), (''scanned'', num (int (cs_scanned r))),
           (''messages'', DArr (map consumed_doc (cs_messages r)))]"

definition topics_doc :: "string list \<Rightarrow> nat \<Rightarrow> doc" where
  "topics_doc names n = DObj [(''topics'', DArr (map DStr names)), (''count'', num (int n))]"

definition partition_doc :: "partition_json \<Rightarrow> doc" where
  "partition_doc p =
     DObj [(''id'', num (pj_id p)), (''leader'', num (pj_leader p)),
           (''replicas'', DArr (map num (pj_replicas p))), (''isr'', DArr (map num (pj_isr p))),
           (''low_watermark'', num (pj_low p)), (''high_watermark'', num (pj_high p))]"

definition topic_doc :: "topic_response \<Rightarrow> doc" where
  "topic_doc r =
     DObj [(''name'', DStr (tr_name r)), (''replication_factor'', num (tr_replication r)),
           (''partitions'', DArr (map partition_doc (tr_partitions r)))]"

definition check_doc :: "(atom \<Rightarrow> string) \<Rightarrow> health_check \<Rightarrow> doc" where
  "check_doc lib c =
     DObj ([(''name'', DStr (hc_name c)), (''status'', DStr (hc_status c))] @
           unless_empty (message_text lib (hc_error c)) (''error'', DStr (message_text lib (hc_error c))))"

definition health_doc :: "(atom \<Rightarrow> string) \<Rightarrow> (int \<Rightarrow> string) \<Rightarrow> health_response \<Rightarrow> doc" where
  "health_doc lib secs r =
     DObj ([(''status'', DStr (hr_status r)), (''version'', DStr (hr_version r)),
            (''uptime_seconds'', DNum (secs (hr_uptime r)))] @
           unless_empty (hr_checks r) (''checks'', DArr (map (check_doc lib) (hr_checks r))))"

text \<open>What is written that is no JSON document (the API description, the pages of libraries) has none.\<close>

definition payload_doc :: "(atom \<Rightarrow> string) \<Rightarrow> (int \<Rightarrow> string) \<Rightarrow> payload \<Rightarrow> doc option" where
  "payload_doc lib secs p =
     (case p of
        PError code msg \<Rightarrow> Some (error_doc lib code msg)
      | PPublish r \<Rightarrow> Some (publish_doc r)
      | PConsume r \<Rightarrow> Some (consume_doc r)
      | PTopics names n \<Rightarrow> Some (topics_doc names n)
      | PTopic r \<Rightarrow> Some (topic_doc r)
      | PHealth r \<Rightarrow> Some (health_doc lib secs r)
      | PRaw s \<Rightarrow> None)"

definition body_text :: "(atom \<Rightarrow> string) \<Rightarrow> (int \<Rightarrow> string) \<Rightarrow> payload \<Rightarrow> string" where
  "body_text lib secs p = (case p of PRaw s \<Rightarrow> s | _ \<Rightarrow> encoded (the (payload_doc lib secs p)))"

section \<open>Every document can be written and read\<close>

lemma digit_char_range: "d < 10 \<Longrightarrow> digit (digit_char d)"
  by (simp add: digit_def)

lemma digits1_all: "list_all digit s \<Longrightarrow> s \<noteq> [] \<Longrightarrow> digits1 s = POk s []"
  by (cases s) (auto simp: digits1_def list_all_iff takeWhile_eq_all_conv)

lemma nat_str_digits: "list_all digit (nat_str n)"
proof (induction n rule: nat_str.induct)
  case (1 n)
  then show ?case by (cases "n < 10") (simp_all add: nat_str.simps [of n] digit_char_range)
qed

lemma nat_str_zero: "nat_str n \<noteq> [] \<and> (hd (nat_str n) = CHR ''0'' \<longrightarrow> n = 0)"
proof (induction n rule: nat_str.induct)
  case (1 n)
  show ?case
  proof (cases "n < 10")
    case True
    then have "digit_char n = CHR ''0'' \<Longrightarrow> n = 0"
      using digit_val_char [OF True] by (simp add: digit_val_def)
    with True show ?thesis by (simp add: nat_str.simps [of n])
  next
    case False
    with "1.IH" have "nat_str (n div 10) \<noteq> []" "hd (nat_str (n div 10)) \<noteq> CHR ''0''" by auto
    with False show ?thesis by (simp add: nat_str.simps [of n])
  qed
qed

lemma int_part_nat_str: "int_part (nat_str n) = POk (nat_str n) []"
proof (cases "n = 0")
  case True
  then show ?thesis by (simp add: nat_str.simps [of 0] int_part_def digit_char_def)
next
  case False
  with nat_str_zero [of n] obtain c cs where "nat_str n = c # cs" "c \<noteq> CHR ''0''"
    by (cases "nat_str n") auto
  with digits1_all [OF nat_str_digits [of n]] show ?thesis by (simp add: int_part_def)
qed

lemma scan_itoa: "scan_number (itoa i) = POk (itoa i) []"
proof -
  have "hd (nat_str n) \<noteq> CHR ''-''" for n
    by (rule nat_str_Cons [of n]) (use digit_char_not_sign in auto)
  with nat_str_zero show ?thesis
    by (simp add: scan_number_def itoa_def int_part_nat_str frac_part_def exp_part_def)
qed

lemma fits_num [simp]: "fits (num i) d"
  by (simp add: num_def scan_itoa)

lemma value_num [simp]: "doc_value (num i) = JNum (itoa i)"
  by (simp add: num_def)

text \<open>The letters and punctuation of a timestamp.\<close>

lemma digit_plain: "is_digit c \<Longrightarrow> plain_char c"
  by (auto simp: is_digit_def digit_val_def plain_char_def Let_def split: if_splits)

lemma format_plain: "\<forall>c \<in> set (format_rfc3339 t). plain_char c"
proof -
  have "\<forall>c \<in> set (fixed_digits k n). plain_char c" "\<forall>c \<in> set (frac_text k n). plain_char c" for k n
    using fixed_digits_digits [of k n] frac_text_digits [of k n] by (auto simp: list_all_iff digit_plain)
  moreover have "plain_char dot" "plain_char (CHR ''-'')" "plain_char (CHR ''T'')" "plain_char (CHR '':'')"
    "plain_char (CHR ''Z'')"
    by (simp_all add: plain_char_def dot_def)
  ultimately show ?thesis unfolding format_rfc3339_def Let_def by auto
qed

lemma plain_fits: "\<forall>c \<in> set s. plain_char c \<Longrightarrow> json_fits d (quote # s @ [quote])"
  using plain_scan [of s "[]"]
  by (simp add: json_fits_def skip_ws_def parse_scalar_def) (simp add: quote_def)

lemma plain_raw_value: "\<forall>c \<in> set s. plain_char c \<Longrightarrow> raw_value (quote # s @ [quote]) = JStr s"
  by (simp add: raw_value_def plain_literal plain_unquote)

lemma fits_timestamp [simp]: "fits (timestamp_doc t) d"
  by (simp add: timestamp_doc_def plain_fits format_plain)

lemma value_timestamp [simp]: "doc_value (timestamp_doc t) = JStr (format_rfc3339 t)"
  by (simp add: timestamp_doc_def plain_raw_value format_plain)

text \<open>A reader that accepts 10000 levels needs the values to nest three levels less.\<close>

definition shallow :: "payload \<Rightarrow> bool" where
  "shallow p = (case p of PConsume r \<Rightarrow> list_all (\<lambda>m. json_fits 3 (cj_value m)) (cs_messages r) | _ \<Rightarrow> True)"

lemma nesting_left [simp]: "0 < max_nesting" "Suc 0 < max_nesting" "Suc (Suc 0) < max_nesting" "3 < max_nesting"
  "Suc (Suc (Suc 0)) < max_nesting"
  by (simp_all add: max_nesting_def)

lemmas document_defs =
  error_doc_def offset_doc_def publish_doc_def headers_doc_def consumed_doc_def consume_doc_def
  topics_doc_def partition_doc_def topic_doc_def check_doc_def health_doc_def unless_empty_def

lemma payload_fits:
  assumes "payload_doc lib secs p = Some e" and "shallow p" and "\<And>u. scan_number (secs u) = POk (secs u) []"
  shows "fits e 0"
  using assms
  by (auto simp: payload_doc_def shallow_def document_defs list_all_iff eval_nat_numeral split: payload.splits)

lemma payload_reads_back:
  assumes "payload_doc lib secs p = Some e" and "shallow p" and "\<And>u. scan_number (secs u) = POk (secs u) []"
  shows "\<exists>v. parse_json (body_text lib secs p) = POk v [CHR 0x0A] \<and> canon v = doc_value e"
proof -
  have "body_text lib secs p = encoded e"
    using assms(1) by (auto simp: body_text_def payload_doc_def split: payload.splits)
  with encoded_reads_back [OF payload_fits [OF assms]] show ?thesis by simp
qed

end
