(* ===== verification/KafkaLib.thy ===== *)
theory KafkaLib
  imports ServiceTypes
begin

text \<open>
  The Kafka client library (\<open>github.com/segmentio/kafka-go\<close>) as a parameter. Its source is not
  part of the repository: every function of it that the adapter calls is a field of
  \<open>kafka_lib\<close>, over a state \<open>'w\<close> that stands for the library's connections and the cluster.
  Beside the calls, the record holds what only the Go runtime decides: the clock, which case of
  the \<open>select\<close> between a timer and \<open>ctx.Done()\<close> fires, and the iteration order of a map.

  The records mirror the library's structs, with the fields the adapter reads or writes.
\<close>

record kheader =
  kh_key :: string
  kh_value :: bytes

record kmessage =
  km_topic :: string
  km_partition :: int
  km_offset :: int
  km_key :: bytes
  km_value :: bytes
  km_headers :: "kheader list"
  km_time :: int

record krecord =
  kr_key :: bytes
  kr_value :: bytes
  kr_headers :: "kheader list"

record kbroker =
  kb_id :: int

record kpartition =
  kp_id :: int
  kp_leader :: kbroker
  kp_replicas :: "kbroker list"
  kp_isr :: "kbroker list"

record ktopic =
  kt_name :: string
  kt_internal :: bool
  kt_partitions :: "kpartition list"
  kt_error :: "goerr option"

datatype required_acks = RequireAll | RequireOne | RequireNone

record produce_request =
  rq_topic :: string
  rq_partition :: int
  rq_acks :: required_acks
  rq_records :: "krecord list"

record produce_response =
  rs_error :: "goerr option"
  rs_base_offset :: int

datatype offset_request = FirstOffsetOf int | LastOffsetOf int

record partition_offsets =
  po_partition :: int
  po_first :: int
  po_last :: int
  po_error :: "goerr option"

record reader_config =
  rc_topic :: string
  rc_partition :: int
  rc_min_bytes :: int
  rc_max_bytes :: int
  rc_max_wait :: int

record 'w kafka_lib =
  lib_metadata :: "'w \<Rightarrow> ctx \<Rightarrow> string list \<Rightarrow> 'w \<times> ktopic list outcome"
  lib_produce :: "'w \<Rightarrow> ctx \<Rightarrow> produce_request \<Rightarrow> 'w \<times> produce_response outcome"
  lib_balance :: "'w \<Rightarrow> bytes \<Rightarrow> bytes \<Rightarrow> int list \<Rightarrow> 'w \<times> int"
  lib_list_offsets ::
    "'w \<Rightarrow> ctx \<Rightarrow> string \<Rightarrow> offset_request list \<Rightarrow> 'w \<times> (string \<Rightarrow> partition_offsets list) outcome"
  lib_write_messages :: "'w \<Rightarrow> ctx \<Rightarrow> kmessage list \<Rightarrow> 'w \<times> unit outcome"
  lib_new_reader :: "'w \<Rightarrow> reader_config \<Rightarrow> 'w \<times> unit outcome"
  lib_set_offset :: "'w \<Rightarrow> int \<Rightarrow> 'w \<times> unit outcome"
  lib_set_offset_at :: "'w \<Rightarrow> ctx \<Rightarrow> int \<Rightarrow> 'w \<times> unit outcome"
  lib_read_message :: "'w \<Rightarrow> ctx \<Rightarrow> 'w \<times> kmessage outcome"
  lib_close_reader :: "'w \<Rightarrow> 'w"
  rt_now :: "'w \<Rightarrow> int"
  rt_backoff :: "'w \<Rightarrow> ctx \<Rightarrow> int \<Rightarrow> 'w \<times> unit outcome"
  rt_range :: "'w \<Rightarrow> int list \<Rightarrow> int list"

text \<open>The protocol code and the sentinel offsets of the library that the adapter names.\<close>

definition unknown_topic_or_partition :: goerr where
  "unknown_topic_or_partition = KafkaError 3"

definition first_offset :: int where
  "first_offset = -2"

definition last_offset :: int where
  "last_offset = -1"

text \<open>\<open>containsKafkaError\<close> (\<open>internal/kafka/writer.go\<close>): \<open>errors.Is\<close> on the error, then on each
  element of a \<open>WriteErrors\<close> aggregate inside it.\<close>

definition contains_kafka_error :: "goerr option \<Rightarrow> goerr \<Rightarrow> bool" where
  "contains_kafka_error err target =
     (case err of
        None \<Rightarrow> False
      | Some e \<Rightarrow>
          if errors_is e target then True
          else (case errors_as_write_errors e of
                  None \<Rightarrow> False
                | Some we \<Rightarrow>
                    list_ex (\<lambda>x. case x of None \<Rightarrow> False | Some e' \<Rightarrow> errors_is e' target) we))"

text \<open>\<open>toKafkaHeaders\<close>.\<close>

definition to_kafka_headers :: "header list \<Rightarrow> kheader list" where
  "to_kafka_headers hs = map (\<lambda>h. \<lparr>kh_key = h_key h, kh_value = h_value h\<rparr>) hs"

lemma contains_kafka_error_direct [simp]: "contains_kafka_error (Some (KafkaError c)) (KafkaError c)"
  by (simp add: contains_kafka_error_def)

lemma contains_kafka_error_None [simp]: "\<not> contains_kafka_error None t"
  by (simp add: contains_kafka_error_def)

lemma contains_kafka_error_aggregate:
  "contains_kafka_error (Some (WriteErrors es)) t \<longleftrightarrow> (\<exists>e. Some e \<in> set es \<and> errors_is e t)"
  by (force simp: contains_kafka_error_def list_ex_iff split: option.splits)

lemma contains_kafka_error_sentinel [simp]:
  "\<not> contains_kafka_error (Some (Sentinel s)) (KafkaError c)"
  by (simp add: contains_kafka_error_def)

end
