(* ===== verification/KafkaClient.thy ===== *)
theory KafkaClient
  imports KafkaLib "HOL-Library.List_Lexorder" "HOL-Library.Char_ord"
begin

text \<open>
  \<open>internal/kafka/client.go\<close>: the reader and the admin adapter. \<open>client_read\<close> is \<open>Read\<close> with
  its \<open>seek\<close> and its loop, \<open>client_check\<close> the readiness probe, \<open>client_list_topics\<close> and
  \<open>client_describe_topic\<close> the \<open>TopicAdmin\<close> methods. \<open>NewReader\<close> of the library panics on a
  configuration it refuses, which its outcome can be; the reader is closed on every return
  after it was opened (the deferred \<open>Close\<close>). A Go slice of negative capacity panics.

  \<open>sort.Strings\<close> orders bytes lexicographically, the order of \<open>List_Lexorder\<close> over \<open>Char_ord\<close>.
\<close>

definition reader_max_bytes :: int where
  "reader_max_bytes = 10 * 1048576"

definition reader_max_wait :: int where
  "reader_max_wait = 500 * 1000000"

definition resolve_offset :: "int \<Rightarrow> int" where
  "resolve_offset offset =
     (if offset = offset_earliest then first_offset
      else if offset = offset_latest then last_offset
      else offset)"

definition to_consumed_message :: "kmessage \<Rightarrow> consumed_message" where
  "to_consumed_message m =
     \<lparr>cm_partition = km_partition m, cm_offset = km_offset m, cm_key = km_key m,
      cm_value = km_value m,
      cm_headers = map (\<lambda>h. \<lparr>h_key = kh_key h, h_value = kh_value h\<rparr>) (km_headers m),
      cm_timestamp = km_time m\<rparr>"

definition seek :: "'w kafka_lib \<Rightarrow> 'w \<Rightarrow> ctx \<Rightarrow> read_request \<Rightarrow> 'w \<times> unit outcome" where
  "seek L w c req =
     (case rr_from_time req of
        Some t \<Rightarrow>
          and_then (lib_set_offset_at L w c t)
            (\<lambda>e. if contains_kafka_error (Some e) unknown_topic_or_partition
                 then Sentinel ErrTopicNotFound
                 else Errorf [A (Lit ''seek to time ''), A (Tim t), A (Lit '': ''), W e])
            (\<lambda>w' u. (w', Ok ()))
      | None \<Rightarrow>
          and_then (lib_set_offset L w (resolve_offset (rr_offset req)))
            (\<lambda>e. Errorf [A (Lit ''set offset: ''), W e])
            (\<lambda>w' u. (w', Ok ())))"

definition read_error :: "read_request \<Rightarrow> goerr \<Rightarrow> goerr" where
  "read_error req e =
     Errorf [A (Lit ''read from ''), A (Quo (rr_topic req)), A (Lit ''/''), A (Num (rr_partition req)),
             A (Lit '': ''), W e]"

text \<open>\<open>for len(out) < req.Limit\<close>: \<open>left\<close> is how many messages may still be appended.\<close>

fun read_loop :: "'w kafka_lib \<Rightarrow> ctx \<Rightarrow> read_request \<Rightarrow> nat \<Rightarrow> 'w \<Rightarrow> consumed_message list \<Rightarrow>
    'w \<times> consumed_message list outcome" where
  "read_loop L c req 0 w out = (w, Ok out)"
| "read_loop L c req (Suc left) w out =
     (case lib_read_message L w c of
        (w', Err e) \<Rightarrow>
          if is_err e DeadlineExceeded \<or> is_err e Canceled then (w', Ok out)
          else if contains_kafka_error (Some e) unknown_topic_or_partition
            then (w', Err (Sentinel ErrTopicNotFound))
          else (w', Err (read_error req e))
      | (w', Panic p) \<Rightarrow> (w', Panic p)
      | (w', Ok m) \<Rightarrow> read_loop L c req left w' (out @ [to_consumed_message m]))"

definition reader_config_of :: "read_request \<Rightarrow> reader_config" where
  "reader_config_of req =
     \<lparr>rc_topic = rr_topic req, rc_partition = rr_partition req, rc_min_bytes = 1,
      rc_max_bytes = reader_max_bytes, rc_max_wait = reader_max_wait\<rparr>"

definition client_read :: "'w kafka_lib \<Rightarrow> 'w reader" where
  "client_read L w c req =
     and_then
       (lib_new_reader L w (reader_config_of req))
       (\<lambda>e. e)
       (\<lambda>w1 u.
          deferring (lib_close_reader L)
            (and_then (seek L w1 c req) (\<lambda>e. e)
               (\<lambda>w2 v. if rr_limit req < 0 then (w2, Panic ''makeslice: cap out of range'')
                       else read_loop L c req (nat (rr_limit req)) w2 [])))"

section \<open>Metadata\<close>

definition client_name :: string where
  "client_name = ''kafka''"

definition client_check :: "'w kafka_lib \<Rightarrow> 'w checker" where
  "client_check L w c =
     and_then (lib_metadata L w c []) (\<lambda>e. Errorf [A (Lit ''kafka metadata: ''), W e])
       (\<lambda>w' topics. (w', Ok ()))"

fun topic_names :: "ktopic list \<Rightarrow> string list" where
  "topic_names [] = []"
| "topic_names (t # ts) =
     (if kt_internal t \<or> kt_error t \<noteq> None then topic_names ts else kt_name t # topic_names ts)"

definition client_list_topics :: "'w kafka_lib \<Rightarrow> 'w lister" where
  "client_list_topics L w c =
     and_then (lib_metadata L w c []) (\<lambda>e. Errorf [A (Lit ''metadata: ''), W e])
       (\<lambda>w' topics. (w', Ok (sort (topic_names topics))))"

text \<open>The maps \<open>low\<close> and \<open>high\<close>; a missing partition reads as 0, Go's zero value.\<close>

fun fill_watermarks :: "partition_offsets list \<Rightarrow> (int \<rightharpoonup> int) \<Rightarrow> (int \<rightharpoonup> int) \<Rightarrow>
    ((int \<rightharpoonup> int) \<times> (int \<rightharpoonup> int)) outcome" where
  "fill_watermarks [] low high = Ok (low, high)"
| "fill_watermarks (po # pos) low high =
     (case po_error po of
        Some e \<Rightarrow>
          Err (Errorf [A (Lit ''list offsets partition ''), A (Num (po_partition po)), A (Lit '': ''), W e])
      | None \<Rightarrow>
          fill_watermarks pos (low(po_partition po \<mapsto> po_first po)) (high(po_partition po \<mapsto> po_last po)))"

fun offset_requests :: "kpartition list \<Rightarrow> offset_request list" where
  "offset_requests [] = []"
| "offset_requests (p # ps) = FirstOffsetOf (kp_id p) # LastOffsetOf (kp_id p) # offset_requests ps"

definition watermarks ::
  "'w kafka_lib \<Rightarrow> 'w \<Rightarrow> ctx \<Rightarrow> ktopic \<Rightarrow> 'w \<times> ((int \<rightharpoonup> int) \<times> (int \<rightharpoonup> int)) outcome" where
  "watermarks L w c t =
     and_then (lib_list_offsets L w c (kt_name t) (offset_requests (kt_partitions t)))
       (\<lambda>e. Errorf [A (Lit ''list offsets for ''), A (Quo (kt_name t)), A (Lit '': ''), W e])
       (\<lambda>w' resp. (w', fill_watermarks (resp (kt_name t)) Map.empty Map.empty))"

definition broker_ids :: "kbroker list \<Rightarrow> int list" where
  "broker_ids bs = map kb_id bs"

definition watermark :: "(int \<rightharpoonup> int) \<Rightarrow> int \<Rightarrow> int" where
  "watermark m p = (case m p of None \<Rightarrow> 0 | Some x \<Rightarrow> x)"

fun replication_factor :: "kpartition list \<Rightarrow> int \<Rightarrow> int" where
  "replication_factor [] r = r"
| "replication_factor (p # ps) r =
     replication_factor ps (if int (length (kp_replicas p)) > r then int (length (kp_replicas p)) else r)"

definition build_partition :: "(int \<rightharpoonup> int) \<Rightarrow> (int \<rightharpoonup> int) \<Rightarrow> kpartition \<Rightarrow> partition_metadata" where
  "build_partition low high p =
     \<lparr>pm_id = kp_id p, pm_leader = kb_id (kp_leader p), pm_replicas = broker_ids (kp_replicas p),
      pm_isr = broker_ids (kp_isr p), pm_low = watermark low (kp_id p),
      pm_high = watermark high (kp_id p)\<rparr>"

definition build_topic_metadata :: "ktopic \<Rightarrow> (int \<rightharpoonup> int) \<Rightarrow> (int \<rightharpoonup> int) \<Rightarrow> topic_metadata" where
  "build_topic_metadata t low high =
     \<lparr>tm_name = kt_name t, tm_replication = replication_factor (kt_partitions t) 0,
      tm_partitions = sort_key pm_id (map (build_partition low high) (kt_partitions t))\<rparr>"

definition client_describe_topic :: "'w kafka_lib \<Rightarrow> 'w describer" where
  "client_describe_topic L w c topic =
     and_then (lib_metadata L w c [topic]) (\<lambda>e. Errorf [A (Lit ''metadata: ''), W e])
       (\<lambda>w1 topics.
          (case find (\<lambda>t. kt_name t = topic) topics of
             None \<Rightarrow> (w1, Err (Sentinel ErrTopicNotFound))
           | Some found \<Rightarrow>
               if contains_kafka_error (kt_error found) unknown_topic_or_partition
               then (w1, Err (Sentinel ErrTopicNotFound))
               else
                 (case kt_error found of
                    Some e \<Rightarrow>
                      (w1, Err (Errorf [A (Lit ''topic ''), A (Quo topic), A (Lit '' metadata: ''), W e]))
                  | None \<Rightarrow>
                      and_then (watermarks L w1 c found) (\<lambda>e. e)
                        (\<lambda>w2 (low, high). (w2, Ok (build_topic_metadata found low high))))))"

section \<open>Reading\<close>

lemma read_loop_length:
  "read_loop L c req left w out = (w', Ok ms) \<Longrightarrow>
     length out \<le> length ms \<and> length ms \<le> length out + left"
  by (induction L c req left w out rule: read_loop.induct)
    (fastforce split: prod.splits outcome.splits if_splits)+

lemma client_read_Ok:
  assumes "client_read L w c req = (w', Ok ms)"
  obtains w1 w2 where "0 \<le> rr_limit req"
    and "read_loop L c req (nat (rr_limit req)) w1 [] = (w2, Ok ms)"
    and "w' = lib_close_reader L w2"
  using assms by (auto simp: client_read_def go_simps split: if_splits)

lemma client_read_bounded:
  "client_read L w c req = (w', Ok ms) \<Longrightarrow> int (length ms) \<le> rr_limit req"
  by (erule client_read_Ok) (auto dest: read_loop_length)

interpretation client_reader: reader_iface "client_read L" for L
  by unfold_locales (rule client_read_bounded)

text \<open>The messages the library delivers one after the other.\<close>

inductive delivers :: "'w kafka_lib \<Rightarrow> ctx \<Rightarrow> 'w \<Rightarrow> kmessage list \<Rightarrow> 'w \<Rightarrow> bool" for L c where
  delivers_none: "delivers L c w [] w"
| delivers_next: "lib_read_message L w c = (w1, Ok m) \<Longrightarrow> delivers L c w1 ms w2 \<Longrightarrow> delivers L c w (m # ms) w2"

inductive_simps delivers_Nil [simp]: "delivers L c w [] w'"
inductive_simps delivers_Cons [simp]: "delivers L c w (m # ms) w'"

definition poll_over :: "goerr \<Rightarrow> bool" where
  "poll_over e \<longleftrightarrow> is_err e DeadlineExceeded \<or> is_err e Canceled"

text \<open>The loop returns what was delivered until the limit was reached or the context ended.\<close>

definition delivered_up_to :: "'w kafka_lib \<Rightarrow> ctx \<Rightarrow> nat \<Rightarrow> 'w \<Rightarrow> kmessage list \<Rightarrow> 'w \<Rightarrow> bool" where
  "delivered_up_to L c left w ms w' \<longleftrightarrow>
     (\<exists>wn. delivers L c w ms wn \<and>
        (length ms = left \<and> w' = wn \<or>
         length ms < left \<and> (\<exists>e. lib_read_message L wn c = (w', Err e) \<and> poll_over e)))"

lemma delivered_0: "delivered_up_to L c 0 w ms w' \<longleftrightarrow> ms = [] \<and> w' = w"
  by (auto simp: delivered_up_to_def)

lemma delivered_message:
  assumes "lib_read_message L w c = (w1, Ok m)"
  shows "delivered_up_to L c (Suc left) w ms w' \<longleftrightarrow> (\<exists>ms'. ms = m # ms' \<and> delivered_up_to L c left w1 ms' w')"
  using assms by (cases ms) (auto simp: delivered_up_to_def)

lemma delivered_failure:
  assumes "lib_read_message L w c = (w1, r)" and "\<And>m. r \<noteq> Ok m"
  shows "delivered_up_to L c (Suc left) w ms w' \<longleftrightarrow> ms = [] \<and> w' = w1 \<and> (\<exists>e. r = Err e \<and> poll_over e)"
  using assms by (cases ms) (auto simp: delivered_up_to_def)

lemma read_loop_delivered:
  "read_loop L c req left w out = (w', Ok res) \<longleftrightarrow>
     (\<exists>ms. res = out @ map to_consumed_message ms \<and> delivered_up_to L c left w ms w')"
proof (induction left arbitrary: w out)
  case 0
  then show ?case by (auto simp: delivered_0)
next
  case (Suc left)
  obtain w1 r where r: "lib_read_message L w c = (w1, r)" by force
  show ?case
  proof (cases r)
    case (Ok m)
    have "(\<exists>ms. res = out @ map to_consumed_message ms \<and> delivered_up_to L c (Suc left) w ms w') \<longleftrightarrow>
        (\<exists>ms. res = out @ map to_consumed_message (m # ms) \<and> delivered_up_to L c left w1 ms w')"
      using r Ok by (auto simp only: delivered_message)
    with r Ok show ?thesis by (simp add: Suc.IH)
  next
    case (Err e)
    with r show ?thesis by (auto simp: delivered_failure poll_over_def)
  next
    case (Panic p)
    with r show ?thesis by (auto simp: delivered_failure)
  qed
qed

lemma read_loop_Ok_iff:
  "read_loop L c req left w out = (w', Ok res) \<longleftrightarrow>
     (\<exists>ms wn. delivers L c w ms wn \<and> res = out @ map to_consumed_message ms \<and>
        (length ms = left \<and> w' = wn \<or>
         length ms < left \<and> (\<exists>e. lib_read_message L wn c = (w', Err e) \<and> poll_over e)))"
  by (auto simp: read_loop_delivered delivered_up_to_def)

section \<open>Reading from a known offset\<close>

text \<open>
  What a read relies on of the broker behind the library, for a view \<open>log\<close> of the cluster and the
  place \<open>pos\<close> of the open reader (topic, partition, next offset): a reader is opened on the
  partition it was configured for; setting an absolute offset moves it there; a message that is
  read comes from the first offset at or after the reader's place that holds a record, with the
  key, value and headers of that record (nil and empty are the same to a reader); and none of the
  three removes a record.
\<close>

definition log_kept :: "('w \<Rightarrow> string \<Rightarrow> int \<Rightarrow> int \<Rightarrow> krecord option) \<Rightarrow> 'w \<Rightarrow> 'w \<Rightarrow> bool" where
  "log_kept log w w' \<longleftrightarrow> (\<forall>t p i r. log w t p i = Some r \<longrightarrow> log w' t p i = Some r)"

definition header_texts :: "kheader list \<Rightarrow> (string \<times> string) list" where
  "header_texts hs = map (\<lambda>h. (kh_key h, bytes_str (kh_value h))) hs"

definition shows_record :: "krecord \<Rightarrow> kmessage \<Rightarrow> bool" where
  "shows_record r m \<longleftrightarrow>
     bytes_str (km_key m) = bytes_str (kr_key r) \<and> bytes_str (km_value m) = bytes_str (kr_value r) \<and>
     header_texts (km_headers m) = header_texts (kr_headers r)"

definition reads_log :: "'w kafka_lib \<Rightarrow> ('w \<Rightarrow> string \<Rightarrow> int \<Rightarrow> int \<Rightarrow> krecord option) \<Rightarrow>
    ('w \<Rightarrow> (string \<times> int) \<times> int) \<Rightarrow> bool" where
  "reads_log L log pos \<longleftrightarrow>
     (\<forall>w cfg w'. lib_new_reader L w cfg = (w', Ok ()) \<longrightarrow>
        fst (pos w') = (rc_topic cfg, rc_partition cfg) \<and> log_kept log w w') \<and>
     (\<forall>w i w'. lib_set_offset L w i = (w', Ok ()) \<longrightarrow> 0 \<le> i \<longrightarrow>
        pos w' = (fst (pos w), i) \<and> log_kept log w w') \<and>
     (\<forall>w c w' m t p i. lib_read_message L w c = (w', Ok m) \<longrightarrow> pos w = ((t, p), i) \<longrightarrow>
        i \<le> km_offset m \<and> km_partition m = p \<and>
        (\<exists>r. log w' t p (km_offset m) = Some r \<and> shows_record r m) \<and>
        (\<forall>k. i \<le> k \<longrightarrow> k < km_offset m \<longrightarrow> log w' t p k = None) \<and>
        pos w' = ((t, p), km_offset m + 1) \<and> log_kept log w w')"

lemma log_keptD: "log_kept log w w' \<Longrightarrow> log w t p i = Some r \<Longrightarrow> log w' t p i = Some r"
  by (simp add: log_kept_def)

lemma reads_logD:
  assumes "reads_log L log pos"
  shows "lib_new_reader L w cfg = (w', Ok ()) \<Longrightarrow> fst (pos w') = (rc_topic cfg, rc_partition cfg) \<and> log_kept log w w'"
    and "lib_set_offset L w i = (w', Ok ()) \<Longrightarrow> 0 \<le> i \<Longrightarrow> pos w' = (fst (pos w), i) \<and> log_kept log w w'"
  using assms unfolding reads_log_def by blast+

lemma reads_log_nextD:
  assumes "reads_log L log pos" and "lib_read_message L w c = (w', Ok m)" and "pos w = ((t, p), i)"
  shows "i \<le> km_offset m" and "km_partition m = p" and "\<exists>r. log w' t p (km_offset m) = Some r \<and> shows_record r m"
    and "i \<le> k \<Longrightarrow> k < km_offset m \<Longrightarrow> log w' t p k = None" and "log_kept log w w'"
proof -
  have "i \<le> km_offset m \<and> km_partition m = p \<and>
      (\<exists>r. log w' t p (km_offset m) = Some r \<and> shows_record r m) \<and>
      (\<forall>k. i \<le> k \<longrightarrow> k < km_offset m \<longrightarrow> log w' t p k = None) \<and>
      pos w' = ((t, p), km_offset m + 1) \<and> log_kept log w w'"
    using assms(1) [unfolded reads_log_def, THEN conjunct2, THEN conjunct2, rule_format, OF assms(2,3)] .
  then show "i \<le> km_offset m" "km_partition m = p" "\<exists>r. log w' t p (km_offset m) = Some r \<and> shows_record r m"
    "i \<le> k \<Longrightarrow> k < km_offset m \<Longrightarrow> log w' t p k = None" "log_kept log w w'"
    by simp_all
qed

text \<open>When the offset that is asked for holds a record, the first message of the read is that record.\<close>

lemma client_read_first:
  assumes "reads_log L log pos" and "client_read L w c req = (w', Ok (x # xs))"
    and "rr_from_time req = None" and "0 \<le> rr_offset req"
    and "log w (rr_topic req) (rr_partition req) (rr_offset req) = Some r"
  shows "\<exists>m. x = to_consumed_message m \<and> km_offset m = rr_offset req \<and> km_partition m = rr_partition req \<and>
    shows_record r m"
proof -
  from assms(2) obtain w1 w2 w4 where n: "lib_new_reader L w (reader_config_of req) = (w1, Ok ())"
    and s: "seek L w1 c req = (w2, Ok ())" and l: "read_loop L c req (nat (rr_limit req)) w2 [] = (w4, Ok (x # xs))"
    by (auto simp: client_read_def go_simps split: if_splits)
  from s assms(3,4) have so: "lib_set_offset L w1 (rr_offset req) = (w2, Ok ())"
    by (auto simp: seek_def resolve_offset_def offset_earliest_def offset_latest_def go_simps)
  note N = reads_logD(1) [OF assms(1) n] and S = reads_logD(2) [OF assms(1) so assms(4)]
  have pos: "pos w2 = ((rr_topic req, rr_partition req), rr_offset req)"
    using N S by (simp add: reader_config_of_def)
  have at: "log w2 (rr_topic req) (rr_partition req) (rr_offset req) = Some r"
    using N S assms(5) by (blast intro: log_keptD)
  from l obtain m w3 where x: "x = to_consumed_message m" and m: "lib_read_message L w2 c = (w3, Ok m)"
    by (auto simp: read_loop_Ok_iff)
  note M = reads_log_nextD [OF assms(1) m pos]
  have at': "log w3 (rr_topic req) (rr_partition req) (rr_offset req) = Some r"
    by (rule log_keptD [OF M(5) at])
  have "km_offset m = rr_offset req"
  proof (rule ccontr)
    assume "km_offset m \<noteq> rr_offset req"
    with M(1) have "log w3 (rr_topic req) (rr_partition req) (rr_offset req) = None" by (intro M(4)) simp_all
    with at' show False by simp
  qed
  with x M(2,3) at' show ?thesis by auto
qed

section \<open>Closing\<close>

text \<open>A reader that was opened is closed, however the read ends.\<close>

lemma client_read_closes:
  assumes "client_read L w c req = (w', r)"
    and "lib_new_reader L w (reader_config_of req) = (w1, Ok u)"
  shows "\<exists>w2. w' = lib_close_reader L w2"
  using assms by (auto simp: client_read_def go_simps)

section \<open>Describing\<close>

lemma fill_watermarks_Ok_iff:
  "fill_watermarks pos low high = Ok (low', high') \<longleftrightarrow>
     (\<forall>po \<in> set pos. po_error po = None) \<and>
     low' = low ++ map_of (rev (map (\<lambda>po. (po_partition po, po_first po)) pos)) \<and>
     high' = high ++ map_of (rev (map (\<lambda>po. (po_partition po, po_last po)) pos))"
proof (induction pos arbitrary: low high)
  case Nil
  then show ?case by (simp add: eq_commute)
next
  case (Cons po pos)
  show ?case
  proof (cases "po_error po")
    case None
    have upd: "(\<lambda>a. if a = k then Some v else low a) ++ map_of l = low ++ map_of (l @ [(k, v)])" for low k v and l :: "(int \<times> int) list"
      by (rule ext) (simp add: map_add_def split: option.splits)
    show ?thesis by (simp add: None Cons.IH fun_upd_def upd del: map_of_append)
  next
    case (Some e)
    then show ?thesis by simp
  qed
qed

lemma watermarks_Ok_iff:
  "watermarks L w c t = (w', Ok (low, high)) \<longleftrightarrow>
     (\<exists>resp. lib_list_offsets L w c (kt_name t) (offset_requests (kt_partitions t)) = (w', Ok resp) \<and>
        fill_watermarks (resp (kt_name t)) Map.empty Map.empty = Ok (low, high))"
  by (auto simp: watermarks_def go_simps)

lemma topic_names_filter:
  "topic_names ts = map kt_name (filter (\<lambda>t. \<not> kt_internal t \<and> kt_error t = None) ts)"
  by (induction ts) auto

lemma client_list_topics_Ok_iff:
  "client_list_topics L w c = (w', Ok names) \<longleftrightarrow>
     (\<exists>topics. lib_metadata L w c [] = (w', Ok topics) \<and> names = sort (topic_names topics))"
  by (auto simp: client_list_topics_def go_simps)

lemma client_describe_topic_Ok:
  assumes "client_describe_topic L w c topic = (w', Ok md)"
  obtains w1 topics t low high where "lib_metadata L w c [topic] = (w1, Ok topics)"
    and "t \<in> set topics" and "kt_name t = topic" and "kt_error t = None"
    and "watermarks L w1 c t = (w', Ok (low, high))" and "md = build_topic_metadata t low high"
proof -
  from assms obtain w1 topics where m: "lib_metadata L w c [topic] = (w1, Ok topics)" and
    r: "(case find (\<lambda>t. kt_name t = topic) topics of
             None \<Rightarrow> (w1, Err (Sentinel ErrTopicNotFound))
           | Some found \<Rightarrow>
               if contains_kafka_error (kt_error found) unknown_topic_or_partition
               then (w1, Err (Sentinel ErrTopicNotFound))
               else
                 (case kt_error found of
                    Some e \<Rightarrow>
                      (w1, Err (Errorf [A (Lit ''topic ''), A (Quo topic), A (Lit '' metadata: ''), W e]))
                  | None \<Rightarrow>
                      and_then (watermarks L w1 c found) (\<lambda>e. e)
                        (\<lambda>w2 (low, high). (w2, Ok (build_topic_metadata found low high))))) = (w', Ok md)"
    by (auto simp: client_describe_topic_def go_simps)
  from r obtain t where t: "find (\<lambda>t. kt_name t = topic) topics = Some t" "kt_error t = None"
    by (auto split: option.splits if_splits)
  then have "t \<in> set topics" "kt_name t = topic" by (auto simp: find_Some_iff)
  moreover from r t obtain low high where "watermarks L w1 c t = (w', Ok (low, high))"
    "md = build_topic_metadata t low high"
    by (auto simp: go_simps split: if_splits)
  ultimately show thesis using m t(2) by (intro that)
qed

lemma pm_id_build [simp]: "pm_id (build_partition low high p) = kp_id p"
  by (simp add: build_partition_def)

lemma client_describe_topic_shape:
  assumes "client_describe_topic L w c topic = (w', Ok md)"
  shows "tm_name md = topic" and "sorted (map pm_id (tm_partitions md))"
  using assms by (auto elim!: client_describe_topic_Ok simp: build_topic_metadata_def)

interpretation client_admin: admin_iface "client_list_topics L" "client_describe_topic L" "(\<le>)" for L
  by unfold_locales
    (auto simp: client_list_topics_Ok_iff dest: client_describe_topic_shape)

lemma replication_factor_max:
  "replication_factor ps r = Max (insert r (set (map (\<lambda>p. int (length (kp_replicas p))) ps)))"
proof (induction ps r rule: replication_factor.induct)
  case (1 r)
  then show ?case by simp
next
  case (2 p ps r)
  let ?l = "int (length (kp_replicas p))"
  have "insert (if ?l > r then ?l else r) S \<noteq> {}" for S :: "int set" by simp
  have "Max (insert (if ?l > r then ?l else r) (set (map (\<lambda>p. int (length (kp_replicas p))) ps))) =
      max (max ?l r) (Max (insert r (set (map (\<lambda>p. int (length (kp_replicas p))) ps))))"
    by (cases "ps = []") (auto simp: max_def)
  also have "\<dots> = Max (insert r (set (map (\<lambda>p. int (length (kp_replicas p))) (p # ps))))"
    by (cases "ps = []") (auto simp: max_def)
  finally show ?case using "2.IH" by simp
qed

end
