(* ===== verification/Config.thy ===== *)
theory Config
  imports GoErrors GoText GoTime "HOL-Library.State_Monad" "HOL-Library.Monad_Syntax"
begin

text \<open>
  \<open>internal/config/config.go\<close>: \<open>load\<close> reads every setting from the environment, collects the
  values that do not parse, and validates the result; and \<open>parse_level\<close> of
  \<open>pkg/logger/logger.go\<close>.

  The environment is a parameter: a function from a variable to its value. The \<open>reader\<close> and the
  errors it collects are a state monad; \<open>load_config\<close> runs the reads in the order of the code.
  \<open>valid_config\<close> is the specification of what a started program may rely on.
\<close>

type_synonym environment = "string \<Rightarrow> string option"

record server_config =
  sv_host :: string
  sv_port :: int
  sv_read_timeout :: int
  sv_write_timeout :: int
  sv_idle_timeout :: int
  sv_shutdown_timeout :: int
  sv_health_timeout :: int

record kafka_security =
  ks_protocol :: string
  ks_mechanism :: string
  ks_username :: string
  ks_password :: string
  ks_ca_file :: string
  ks_cert_file :: string
  ks_key_file :: string
  ks_server_name :: string
  ks_skip_verify :: bool

record kafka_config =
  kc_brokers :: "string list"
  kc_write_timeout :: int
  kc_batch_timeout :: int
  kc_required_acks :: string
  kc_max_batch_size :: int
  kc_allow_auto_create :: bool
  kc_produce_mode :: string
  kc_admin_timeout :: int
  kc_default_limit :: int
  kc_max_limit :: int
  kc_default_wait :: int
  kc_max_wait :: int
  kc_security :: kafka_security

record log_config =
  lc_level :: string
  lc_format :: string

record auth_config =
  ac_enabled :: bool
  ac_algorithm :: string
  ac_secret :: string
  ac_public_key_file :: string
  ac_jwks_url :: string
  ac_issuer :: string
  ac_audience :: string

record config =
  cf_server :: server_config
  cf_kafka :: kafka_config
  cf_log :: log_config
  cf_auth :: auth_config

definition addr :: "server_config \<Rightarrow> string" where
  "addr s = sv_host s @ '':'' @ itoa (sv_port s)"

section \<open>The reader\<close>

definition env_prefix :: string where
  "env_prefix = ''KRA_''"

definition lookup_env :: "environment \<Rightarrow> string \<Rightarrow> string option" where
  "lookup_env env key =
     (case env (env_prefix @ key) of
        None \<Rightarrow> None
      | Some v \<Rightarrow> if v \<noteq> '''' then Some v else None)"

definition parse_problem :: "string \<Rightarrow> string \<Rightarrow> string \<Rightarrow> goerr" where
  "parse_problem key what v =
     Errorf [A (Lit env_prefix), A (Lit key), A (Lit ('': invalid '' @ what @ '' '')), A (Quo v),
             A (Lit '': ''), W (LibError ''invalid syntax'' [])]"

type_synonym 'a reading = "(goerr list, 'a) state"

definition problem :: "goerr \<Rightarrow> unit reading" where
  "problem e = State (\<lambda>errs. ((), errs @ [e]))"

definition read_str :: "environment \<Rightarrow> string \<Rightarrow> string \<Rightarrow> string reading" where
  "read_str env key def =
     (case lookup_env env key of Some v \<Rightarrow> State_Monad.return v | None \<Rightarrow> State_Monad.return def)"

definition read_parsed :: "(string \<Rightarrow> 'a option) \<Rightarrow> string \<Rightarrow> environment \<Rightarrow> string \<Rightarrow> 'a \<Rightarrow> 'a reading" where
  "read_parsed parse what env key def =
     (case lookup_env env key of
        None \<Rightarrow> State_Monad.return def
      | Some v \<Rightarrow>
          (case parse v of
             None \<Rightarrow> do { problem (parse_problem key what v); State_Monad.return def }
           | Some n \<Rightarrow> State_Monad.return n))"

definition read_int :: "environment \<Rightarrow> string \<Rightarrow> int \<Rightarrow> int reading" where
  "read_int = read_parsed parse_int64 ''integer''"

definition read_dur :: "environment \<Rightarrow> string \<Rightarrow> int \<Rightarrow> int reading" where
  "read_dur = read_parsed parse_duration ''duration''"

definition read_boolean :: "environment \<Rightarrow> string \<Rightarrow> bool \<Rightarrow> bool reading" where
  "read_boolean = read_parsed parse_bool ''boolean''"

definition csv_parts :: "string \<Rightarrow> string list" where
  "csv_parts v = filter (\<lambda>p. p \<noteq> '''') (map trim_space (split_on (CHR '','') v))"

definition read_csv :: "environment \<Rightarrow> string \<Rightarrow> string list \<Rightarrow> string list reading" where
  "read_csv env key def =
     (case lookup_env env key of
        None \<Rightarrow> State_Monad.return def
      | Some v \<Rightarrow> State_Monad.return (if csv_parts v = [] then def else csv_parts v))"

definition seconds :: "int \<Rightarrow> int" where "seconds n = n * 1000000000"
definition milliseconds :: "int \<Rightarrow> int" where "milliseconds n = n * 1000000"

definition read_server :: "environment \<Rightarrow> server_config reading" where
  "read_server env = do {
     host \<leftarrow> read_str env ''SERVER_HOST'' ''0.0.0.0'';
     port \<leftarrow> read_int env ''SERVER_PORT'' 8080;
     rt \<leftarrow> read_dur env ''SERVER_READ_TIMEOUT'' (seconds 10);
     wt \<leftarrow> read_dur env ''SERVER_WRITE_TIMEOUT'' (seconds 10);
     it \<leftarrow> read_dur env ''SERVER_IDLE_TIMEOUT'' (seconds 60);
     st \<leftarrow> read_dur env ''SERVER_SHUTDOWN_TIMEOUT'' (seconds 15);
     ht \<leftarrow> read_dur env ''SERVER_HEALTH_TIMEOUT'' (seconds 2);
     State_Monad.return
       \<lparr>sv_host = host, sv_port = port, sv_read_timeout = rt, sv_write_timeout = wt,
        sv_idle_timeout = it, sv_shutdown_timeout = st, sv_health_timeout = ht\<rparr> }"

definition read_security :: "environment \<Rightarrow> kafka_security reading" where
  "read_security env = do {
     protocol \<leftarrow> read_str env ''KAFKA_SECURITY_PROTOCOL'' ''plaintext'';
     mech \<leftarrow> read_str env ''KAFKA_SASL_MECHANISM'' ''scram-sha-256'';
     username \<leftarrow> read_str env ''KAFKA_SASL_USERNAME'' '''';
     password \<leftarrow> read_str env ''KAFKA_SASL_PASSWORD'' '''';
     ca \<leftarrow> read_str env ''KAFKA_TLS_CA_FILE'' '''';
     cert \<leftarrow> read_str env ''KAFKA_TLS_CERT_FILE'' '''';
     key \<leftarrow> read_str env ''KAFKA_TLS_KEY_FILE'' '''';
     name \<leftarrow> read_str env ''KAFKA_TLS_SERVER_NAME'' '''';
     skip \<leftarrow> read_boolean env ''KAFKA_TLS_INSECURE_SKIP_VERIFY'' False;
     State_Monad.return
       \<lparr>ks_protocol = protocol, ks_mechanism = mech, ks_username = username,
        ks_password = password, ks_ca_file = ca, ks_cert_file = cert, ks_key_file = key,
        ks_server_name = name, ks_skip_verify = skip\<rparr> }"

definition read_kafka :: "environment \<Rightarrow> kafka_config reading" where
  "read_kafka env = do {
     brokers \<leftarrow> read_csv env ''KAFKA_BROKERS'' [''localhost:9092''];
     wt \<leftarrow> read_dur env ''KAFKA_WRITE_TIMEOUT'' (seconds 10);
     bt \<leftarrow> read_dur env ''KAFKA_BATCH_TIMEOUT'' (milliseconds 10);
     acks \<leftarrow> read_str env ''KAFKA_REQUIRED_ACKS'' ''all'';
     batch \<leftarrow> read_int env ''KAFKA_MAX_BATCH_SIZE'' 10000;
     auto \<leftarrow> read_boolean env ''KAFKA_ALLOW_AUTO_TOPIC_CREATION'' False;
     mode \<leftarrow> read_str env ''KAFKA_PRODUCE_MODE'' ''batched'';
     admin \<leftarrow> read_dur env ''KAFKA_ADMIN_TIMEOUT'' (seconds 10);
     dl \<leftarrow> read_int env ''KAFKA_CONSUME_DEFAULT_LIMIT'' 10;
     ml \<leftarrow> read_int env ''KAFKA_CONSUME_MAX_LIMIT'' 1000;
     dw \<leftarrow> read_dur env ''KAFKA_CONSUME_DEFAULT_TIMEOUT'' (seconds 5);
     mw \<leftarrow> read_dur env ''KAFKA_CONSUME_MAX_TIMEOUT'' (seconds 30);
     sec \<leftarrow> read_security env;
     State_Monad.return
       \<lparr>kc_brokers = brokers, kc_write_timeout = wt, kc_batch_timeout = bt,
        kc_required_acks = acks, kc_max_batch_size = batch, kc_allow_auto_create = auto,
        kc_produce_mode = mode, kc_admin_timeout = admin, kc_default_limit = dl,
        kc_max_limit = ml, kc_default_wait = dw, kc_max_wait = mw, kc_security = sec\<rparr> }"

definition read_log :: "environment \<Rightarrow> log_config reading" where
  "read_log env = do {
     level \<leftarrow> read_str env ''LOG_LEVEL'' ''info'';
     format \<leftarrow> read_str env ''LOG_FORMAT'' ''json'';
     State_Monad.return \<lparr>lc_level = level, lc_format = format\<rparr> }"

definition read_auth :: "environment \<Rightarrow> auth_config reading" where
  "read_auth env = do {
     enabled \<leftarrow> read_boolean env ''AUTH_ENABLED'' False;
     algorithm \<leftarrow> read_str env ''AUTH_ALGORITHM'' ''hs256'';
     secret \<leftarrow> read_str env ''AUTH_JWT_SECRET'' '''';
     file \<leftarrow> read_str env ''AUTH_JWT_PUBLIC_KEY_FILE'' '''';
     url \<leftarrow> read_str env ''AUTH_JWKS_URL'' '''';
     issuer \<leftarrow> read_str env ''AUTH_JWT_ISSUER'' '''';
     audience \<leftarrow> read_str env ''AUTH_JWT_AUDIENCE'' '''';
     State_Monad.return
       \<lparr>ac_enabled = enabled, ac_algorithm = algorithm, ac_secret = secret,
        ac_public_key_file = file, ac_jwks_url = url, ac_issuer = issuer,
        ac_audience = audience\<rparr> }"

definition read_config :: "environment \<Rightarrow> config reading" where
  "read_config env = do {
     server \<leftarrow> read_server env;
     kafka \<leftarrow> read_kafka env;
     log \<leftarrow> read_log env;
     auth \<leftarrow> read_auth env;
     State_Monad.return
       \<lparr>cf_server = server, cf_kafka = kafka, cf_log = log, cf_auth = auth\<rparr> }"

section \<open>Validation\<close>

definition choice_error :: "string \<Rightarrow> string \<Rightarrow> string \<Rightarrow> goerr" where
  "choice_error what v want = Errorf [A (Lit what), A (Quo v), A (Lit want)]"

definition new_error :: "string \<Rightarrow> goerr" where
  "new_error msg = Errorf [A (Lit msg)]"

definition security_uses_sasl :: "kafka_security \<Rightarrow> bool" where
  "security_uses_sasl s =
     (let p = go_lower (ks_protocol s) in p = ''sasl_plaintext'' \<or> p = ''sasl_ssl'')"

definition validate_security :: "kafka_security \<Rightarrow> goerr list" where
  "validate_security s =
     (if go_lower (ks_protocol s) \<notin> {''plaintext'', ''ssl'', ''sasl_plaintext'', ''sasl_ssl''}
      then [choice_error ''invalid kafka security protocol '' (ks_protocol s)
              '' (want plaintext, ssl, sasl_plaintext, or sasl_ssl)'']
      else
        (if security_uses_sasl s then
           (if go_lower (ks_mechanism s) \<notin> {''scram-sha-256'', ''scram-sha-512'', ''plain''}
            then [choice_error ''invalid kafka sasl mechanism '' (ks_mechanism s)
                    '' (want scram-sha-256, scram-sha-512, or plain)''] else []) @
           (if ks_username s = '''' \<or> ks_password s = ''''
            then [new_error ''kafka sasl username and password are required for sasl_* protocols'']
            else [])
         else []) @
        (if (ks_cert_file s = '''') \<noteq> (ks_key_file s = '''')
         then [new_error ''kafka tls cert and key files must be set together''] else []))"

definition validate_auth :: "auth_config \<Rightarrow> goerr list" where
  "validate_auth a =
     (if \<not> ac_enabled a then []
      else if go_lower (ac_algorithm a) = ''hs256'' then
        (if ac_secret a = '''' then [new_error ''auth hs256 requires AUTH_JWT_SECRET''] else [])
      else if go_lower (ac_algorithm a) = ''rs256'' then
        (if ac_public_key_file a = '''' \<and> ac_jwks_url a = ''''
         then [new_error ''auth rs256 requires AUTH_JWT_PUBLIC_KEY_FILE or AUTH_JWKS_URL'']
         else if ac_public_key_file a \<noteq> '''' \<and> ac_jwks_url a \<noteq> ''''
         then [new_error ''auth rs256: set only one of AUTH_JWT_PUBLIC_KEY_FILE or AUTH_JWKS_URL'']
         else [])
      else [choice_error ''invalid auth algorithm '' (ac_algorithm a) '' (want hs256 or rs256)''])"

definition validate_config :: "config \<Rightarrow> goerr list" where
  "validate_config c =
     (let k = cf_kafka c in
      (if sv_port (cf_server c) < 1 \<or> sv_port (cf_server c) > 65535
       then [Errorf [A (Lit ''server port ''), A (Num (sv_port (cf_server c))),
                     A (Lit '' out of range (1-65535)'')]] else []) @
      (if kc_brokers k = [] then [new_error ''at least one kafka broker is required''] else []) @
      (if go_lower (kc_required_acks k) \<notin> {''all'', ''one'', ''none''}
       then [choice_error ''invalid kafka required acks '' (kc_required_acks k)
               '' (want all, one, or none)''] else []) @
      (if kc_max_batch_size k < 1
       then [Errorf [A (Lit ''kafka max batch size ''), A (Num (kc_max_batch_size k)),
                     A (Lit '' must be >= 1'')]] else []) @
      (if go_lower (kc_produce_mode k) \<notin> {''batched'', ''sync''}
       then [choice_error ''invalid kafka produce mode '' (kc_produce_mode k)
               '' (want batched or sync)''] else []) @
      (if kc_default_limit k < 1
       then [Errorf [A (Lit ''kafka consume default limit ''), A (Num (kc_default_limit k)),
                     A (Lit '' must be >= 1'')]] else []) @
      (if kc_max_limit k < kc_default_limit k
       then [Errorf [A (Lit ''kafka consume max limit ''), A (Num (kc_max_limit k)),
                     A (Lit '' must be >= default limit ''), A (Num (kc_default_limit k))]] else []) @
      (if kc_max_wait k < kc_default_wait k
       then [Errorf [A (Lit ''kafka consume max timeout ''), A (Dur (kc_max_wait k)),
                     A (Lit '' must be >= default timeout ''), A (Dur (kc_default_wait k))]] else []) @
      (if go_lower (lc_format (cf_log c)) \<notin> {''json'', ''text''}
       then [choice_error ''invalid log format '' (lc_format (cf_log c)) '' (want json or text)'']
       else []) @
      validate_security (kc_security k) @
      validate_auth (cf_auth c))"

section \<open>Loading\<close>

text \<open>\<open>errors.Join\<close>: nil when nothing is joined, else an error that wraps all of them.\<close>

fun join_parts :: "goerr list \<Rightarrow> goerr part list" where
  "join_parts [] = []"
| "join_parts [e] = [W e]"
| "join_parts (e # es) = W e # A (Lit [CHR 0x0A]) # join_parts es"

definition errors_join :: "goerr list \<Rightarrow> goerr option" where
  "errors_join es = (if es = [] then None else Some (Errorf (join_parts es)))"

definition load_config :: "environment \<Rightarrow> config outcome" where
  "load_config env =
     (case run_state (read_config env) [] of
        (cfg, errs) \<Rightarrow>
          (case errors_join errs of
             Some e \<Rightarrow> Err (Errorf [A (Lit ''parse environment: ''), W e])
           | None \<Rightarrow>
               (case errors_join (validate_config cfg) of
                  Some e \<Rightarrow> Err (Errorf [A (Lit ''validate config: ''), W e])
                | None \<Rightarrow> Ok cfg)))"

section \<open>Logger\<close>

datatype log_level = LevelDebug | LevelInfo | LevelWarn | LevelError

definition parse_level :: "string \<Rightarrow> log_level" where
  "parse_level level =
     (let l = go_lower level
      in if l = ''debug'' then LevelDebug
         else if l = ''warn'' \<or> l = ''warning'' then LevelWarn
         else if l = ''error'' then LevelError
         else LevelInfo)"

text \<open>The levels in the order of \<open>slog\<close>; a handler writes the records at its level and above.\<close>

fun level_value :: "log_level \<Rightarrow> int" where
  "level_value LevelDebug = -4"
| "level_value LevelInfo = 0"
| "level_value LevelWarn = 4"
| "level_value LevelError = 8"

instantiation log_level :: linorder
begin

definition less_eq_log_level :: "log_level \<Rightarrow> log_level \<Rightarrow> bool" where
  "less_eq_log_level a b \<longleftrightarrow> level_value a \<le> level_value b"

definition less_log_level :: "log_level \<Rightarrow> log_level \<Rightarrow> bool" where
  "less_log_level a b \<longleftrightarrow> level_value a < level_value b"

instance
proof
  fix a b c :: log_level
  show "a < b \<longleftrightarrow> a \<le> b \<and> \<not> b \<le> a"
    by (auto simp: less_eq_log_level_def less_log_level_def)
  show "a \<le> a"
    by (simp add: less_eq_log_level_def)
  show "a \<le> c" if "a \<le> b" "b \<le> c"
    using that by (simp add: less_eq_log_level_def)
  show "a = b" if "a \<le> b" "b \<le> a"
    using that by (cases a; cases b) (simp_all add: less_eq_log_level_def)
  show "a \<le> b \<or> b \<le> a"
    by (auto simp: less_eq_log_level_def)
qed

end

definition log_enabled :: "string \<Rightarrow> log_level \<Rightarrow> bool" where
  "log_enabled level l \<longleftrightarrow> parse_level level \<le> l"

text \<open>An unknown level writes what \<open>info\<close> writes.\<close>

lemma log_enabled_default:
  "go_lower level \<notin> {''debug'', ''warn'', ''warning'', ''error''} \<Longrightarrow> log_enabled level l \<longleftrightarrow> LevelInfo \<le> l"
  by (simp add: log_enabled_def parse_level_def Let_def)

definition text_handler :: "string \<Rightarrow> bool" where
  "text_handler format \<longleftrightarrow> go_lower format = ''text''"

section \<open>What a loaded configuration satisfies\<close>

definition valid_security :: "kafka_security \<Rightarrow> bool" where
  "valid_security s \<longleftrightarrow>
     go_lower (ks_protocol s) \<in> {''plaintext'', ''ssl'', ''sasl_plaintext'', ''sasl_ssl''} \<and>
     (security_uses_sasl s \<longrightarrow>
        go_lower (ks_mechanism s) \<in> {''scram-sha-256'', ''scram-sha-512'', ''plain''} \<and>
        ks_username s \<noteq> '''' \<and> ks_password s \<noteq> '''') \<and>
     (ks_cert_file s = '''' \<longleftrightarrow> ks_key_file s = '''')"

definition valid_auth :: "auth_config \<Rightarrow> bool" where
  "valid_auth a \<longleftrightarrow>
     (ac_enabled a \<longrightarrow>
        go_lower (ac_algorithm a) = ''hs256'' \<and> ac_secret a \<noteq> '''' \<or>
        go_lower (ac_algorithm a) = ''rs256'' \<and> (ac_public_key_file a = '''') \<noteq> (ac_jwks_url a = ''''))"

definition valid_config :: "config \<Rightarrow> bool" where
  "valid_config c \<longleftrightarrow>
     (let k = cf_kafka c in
        1 \<le> sv_port (cf_server c) \<and> sv_port (cf_server c) \<le> 65535 \<and>
        kc_brokers k \<noteq> [] \<and>
        go_lower (kc_required_acks k) \<in> {''all'', ''one'', ''none''} \<and>
        1 \<le> kc_max_batch_size k \<and>
        go_lower (kc_produce_mode k) \<in> {''batched'', ''sync''} \<and>
        1 \<le> kc_default_limit k \<and> kc_default_limit k \<le> kc_max_limit k \<and>
        kc_default_wait k \<le> kc_max_wait k \<and>
        go_lower (lc_format (cf_log c)) \<in> {''json'', ''text''} \<and>
        valid_security (kc_security k) \<and> valid_auth (cf_auth c))"

lemma if_Nil_iff: "(if b then [e] else []) = [] \<longleftrightarrow> \<not> b"
  by simp

lemma validate_security_iff: "validate_security s = [] \<longleftrightarrow> valid_security s"
  by (simp only: validate_security_def valid_security_def append_is_Nil_conv if_Nil_iff) auto

lemma validate_auth_iff: "validate_auth a = [] \<longleftrightarrow> valid_auth a"
  by (auto simp: validate_auth_def valid_auth_def)

lemma validate_config_iff: "validate_config c = [] \<longleftrightarrow> valid_config c"
  by (simp only: validate_config_def valid_config_def Let_def append_is_Nil_conv if_Nil_iff
      validate_security_iff validate_auth_iff) (simp add: not_less)

lemma errors_join_None_iff [simp]: "errors_join es = None \<longleftrightarrow> es = []"
  by (simp add: errors_join_def)

lemma load_config_Ok_iff:
  "load_config env = Ok cfg \<longleftrightarrow> run_state (read_config env) [] = (cfg, []) \<and> valid_config cfg"
  by (auto simp: load_config_def errors_join_def validate_config_iff split: prod.splits if_splits)

section \<open>What the reader reports\<close>

text \<open>The variables with a type, and the check of each; every other variable is text.\<close>

definition typed_variables :: "(string \<times> (string \<Rightarrow> bool)) list" where
  "typed_variables =
     map (\<lambda>k. (k, \<lambda>v. parse_int64 v \<noteq> None))
       [''SERVER_PORT'', ''KAFKA_MAX_BATCH_SIZE'', ''KAFKA_CONSUME_DEFAULT_LIMIT'', ''KAFKA_CONSUME_MAX_LIMIT''] @
     map (\<lambda>k. (k, \<lambda>v. parse_duration v \<noteq> None))
       [''SERVER_READ_TIMEOUT'', ''SERVER_WRITE_TIMEOUT'', ''SERVER_IDLE_TIMEOUT'',
        ''SERVER_SHUTDOWN_TIMEOUT'', ''SERVER_HEALTH_TIMEOUT'', ''KAFKA_WRITE_TIMEOUT'',
        ''KAFKA_BATCH_TIMEOUT'', ''KAFKA_ADMIN_TIMEOUT'', ''KAFKA_CONSUME_DEFAULT_TIMEOUT'',
        ''KAFKA_CONSUME_MAX_TIMEOUT''] @
     map (\<lambda>k. (k, \<lambda>v. parse_bool v \<noteq> None))
       [''KAFKA_ALLOW_AUTO_TOPIC_CREATION'', ''KAFKA_TLS_INSECURE_SKIP_VERIFY'', ''AUTH_ENABLED'']"

definition well_typed :: "environment \<Rightarrow> string \<times> (string \<Rightarrow> bool) \<Rightarrow> bool" where
  "well_typed env kp = (case lookup_env env (fst kp) of None \<Rightarrow> True | Some v \<Rightarrow> snd kp v)"

definition ill_typed :: "environment \<Rightarrow> nat" where
  "ill_typed env = length (filter (\<lambda>kp. \<not> well_typed env kp) typed_variables)"

text \<open>Each read appends at most its own problem.\<close>

definition bad_count :: "(string \<Rightarrow> 'a option) \<Rightarrow> environment \<Rightarrow> string \<Rightarrow> nat" where
  "bad_count parse env key =
     (case lookup_env env key of None \<Rightarrow> 0 | Some v \<Rightarrow> if parse v = None then 1 else 0)"

definition reads :: "'a reading \<Rightarrow> nat \<Rightarrow> bool" where
  "reads m n \<longleftrightarrow> (\<forall>errs. length (snd (run_state m errs)) = length errs + n)"

lemma reads_return: "reads (State_Monad.return x) 0"
  by (simp add: reads_def State_Monad.return_def)

lemma reads_bind: "reads m n \<Longrightarrow> (\<And>x. reads (f x) k) \<Longrightarrow> reads (State_Monad.bind m f) (n + k)"
  by (simp add: reads_def State_Monad.bind_def split_beta)

lemma reads_str: "reads (read_str env key d) 0"
  by (auto simp: read_str_def reads_return split: option.splits)

lemma reads_csv: "reads (read_csv env key d) 0"
  by (auto simp: read_csv_def reads_return split: option.splits)

lemma reads_parsed: "reads (read_parsed p what env key d) (bad_count p env key)"
  by (auto simp: read_parsed_def bad_count_def reads_def problem_def State_Monad.return_def
      State_Monad.bind_def split: option.splits)

lemmas reads_typed = reads_parsed [of parse_int64 "''integer''", folded read_int_def]
  reads_parsed [of parse_duration "''duration''", folded read_dur_def]
  reads_parsed [of parse_bool "''boolean''", folded read_boolean_def]

lemmas reads_rules = reads_bind reads_str reads_csv reads_typed reads_return

lemma reads_count: "reads m n \<Longrightarrow> n = k \<Longrightarrow> reads m k"
  by simp

lemma ill_typed_sum: "length (filter (\<lambda>x. \<not> P x) xs) = sum_list (map (\<lambda>x. if P x then 0 else 1) xs)"
  by (induction xs) simp_all

lemma bad_count_eq:
  "bad_count p env key = (if well_typed env (key, \<lambda>v. p v \<noteq> None) then 0 else 1)"
  by (simp add: bad_count_def well_typed_def split: option.splits)

lemma reads_config: "reads (read_config env) (ill_typed env)"
  unfolding read_config_def read_server_def read_kafka_def read_security_def read_log_def read_auth_def
  apply (rule reads_count)
   apply (rule reads_rules)+
  apply (simp only: bad_count_eq ill_typed_def ill_typed_sum typed_variables_def map_append list.map
      sum_list.append sum_list.Cons sum_list.Nil add_ac add_0_right add_0_left)
  done


end
