(* ===== verification/KafkaWriter.thy ===== *)
theory KafkaWriter
  imports KafkaLib
begin

text \<open>
  \<open>internal/kafka/writer.go\<close>: the batched producer. \<open>write_loop\<close> is the loop over the write
  attempts: \<open>left\<close> is the number of attempts after the current one, its result either a
  return from \<open>Produce\<close> (\<open>Inl\<close>) or the error with which the loop is left (\<open>Inr\<close>). The
  back-off after an attempt is the \<open>select\<close> between \<open>ctx.Done()\<close> (an error) and the timer.

  The lemmas bound the number of calls to the library by counting them in a second library,
  \<open>counted\<close>, and give the result of \<open>Produce\<close> on each branch.
\<close>

definition auto_create_max_attempts :: nat where
  "auto_create_max_attempts = 5"

definition auto_create_backoff :: int where
  "auto_create_backoff = 250 * 1000000"

record writer =
  wr_allow_auto_create :: bool

definition to_write_message :: "string \<Rightarrow> message \<Rightarrow> kmessage" where
  "to_write_message topic m =
     \<lparr>km_topic = topic, km_partition = 0, km_offset = 0, km_key = m_key m, km_value = m_value m,
      km_headers = to_kafka_headers (m_headers m), km_time = 0\<rparr>"

fun write_loop :: "'w kafka_lib \<Rightarrow> bool \<Rightarrow> nat \<Rightarrow> 'w \<Rightarrow> ctx \<Rightarrow> kmessage list \<Rightarrow>
    'w \<times> (publish_result list outcome + goerr)" where
  "write_loop L auto left w c km =
     (case lib_write_messages L w c km of
        (w1, Ok u) \<Rightarrow> (w1, Inl (Ok []))
      | (w1, Panic p) \<Rightarrow> (w1, Inl (Panic p))
      | (w1, Err e) \<Rightarrow>
          if \<not> auto \<or> \<not> contains_kafka_error (Some e) unknown_topic_or_partition then (w1, Inr e)
          else
            (case rt_backoff L w1 c auto_create_backoff of
               (w2, Err ce) \<Rightarrow> (w2, Inl (Err ce))
             | (w2, Panic p) \<Rightarrow> (w2, Inl (Panic p))
             | (w2, Ok u) \<Rightarrow>
                 (case left of 0 \<Rightarrow> (w2, Inr e) | Suc n \<Rightarrow> write_loop L auto n w2 c km)))"

declare write_loop.simps [simp del]

definition kafka_write_error :: "string \<Rightarrow> goerr \<Rightarrow> goerr" where
  "kafka_write_error topic e =
     Errorf [A (Lit ''kafka write to ''), A (Quo topic), A (Lit '': ''), W e]"

definition writer_produce :: "'w kafka_lib \<Rightarrow> writer \<Rightarrow> 'w producer" where
  "writer_produce L wr w c topic msgs =
     (if msgs = [] then (w, Ok [])
      else
        (case write_loop L (wr_allow_auto_create wr) (auto_create_max_attempts - 1) w c
                (map (to_write_message topic) msgs) of
           (w', Inl r) \<Rightarrow> (w', r)
         | (w', Inr e) \<Rightarrow>
             if contains_kafka_error (Some e) unknown_topic_or_partition
             then (w', Err (Sentinel ErrTopicNotFound))
             else (w', Err (kafka_write_error topic e))))"

section \<open>Counting the calls\<close>

text \<open>A library that behaves like \<open>L\<close> and counts the writes and the back-offs it is asked for.\<close>

record write_calls =
  n_writes :: nat
  n_backoffs :: nat

definition counted :: "'w kafka_lib \<Rightarrow> ('w \<times> write_calls) kafka_lib" where
  "counted L =
     \<lparr>lib_metadata = (\<lambda>(w, k) c ts. case lib_metadata L w c ts of (w', r) \<Rightarrow> ((w', k), r)),
      lib_produce = (\<lambda>(w, k) c q. case lib_produce L w c q of (w', r) \<Rightarrow> ((w', k), r)),
      lib_balance = (\<lambda>(w, k) b v ps. case lib_balance L w b v ps of (w', r) \<Rightarrow> ((w', k), r)),
      lib_list_offsets =
        (\<lambda>(w, k) c t rs. case lib_list_offsets L w c t rs of (w', r) \<Rightarrow> ((w', k), r)),
      lib_write_messages =
        (\<lambda>(w, k) c ms. case lib_write_messages L w c ms of
           (w', r) \<Rightarrow> ((w', k\<lparr>n_writes := Suc (n_writes k)\<rparr>), r)),
      lib_new_reader = (\<lambda>(w, k) cf. case lib_new_reader L w cf of (w', r) \<Rightarrow> ((w', k), r)),
      lib_set_offset = (\<lambda>(w, k) i. case lib_set_offset L w i of (w', r) \<Rightarrow> ((w', k), r)),
      lib_set_offset_at =
        (\<lambda>(w, k) c t. case lib_set_offset_at L w c t of (w', r) \<Rightarrow> ((w', k), r)),
      lib_read_message = (\<lambda>(w, k) c. case lib_read_message L w c of (w', r) \<Rightarrow> ((w', k), r)),
      lib_close_reader = (\<lambda>(w, k). (lib_close_reader L w, k)),
      rt_now = (\<lambda>(w, k). rt_now L w),
      rt_backoff =
        (\<lambda>(w, k) c d. case rt_backoff L w c d of
           (w', r) \<Rightarrow> ((w', k\<lparr>n_backoffs := Suc (n_backoffs k)\<rparr>), r)),
      rt_range = (\<lambda>(w, k) ps. rt_range L w ps)\<rparr>"

lemma counted_write [simp]:
  "lib_write_messages (counted L) (w, k) c ms =
     (case lib_write_messages L w c ms of (w', r) \<Rightarrow> ((w', k\<lparr>n_writes := Suc (n_writes k)\<rparr>), r))"
  by (simp add: counted_def)

lemma counted_backoff [simp]:
  "rt_backoff (counted L) (w, k) c d =
     (case rt_backoff L w c d of (w', r) \<Rightarrow> ((w', k\<lparr>n_backoffs := Suc (n_backoffs k)\<rparr>), r))"
  by (simp add: counted_def)

lemmas step_splits = prod.splits outcome.splits if_splits

lemma write_loop_counts:
  "write_loop (counted L) auto left (w, k) c km = ((w', k'), r) \<Longrightarrow>
     n_writes k < n_writes k' \<and> n_writes k' \<le> n_writes k + Suc left \<and>
     n_backoffs k' \<le> n_backoffs k + (n_writes k' - n_writes k) \<and>
     (\<not> auto \<longrightarrow> n_writes k' = Suc (n_writes k) \<and> n_backoffs k' = n_backoffs k)"
proof (induction left arbitrary: w k auto)
  case 0
  then show ?case
    by (subst (asm) write_loop.simps) (auto split: step_splits)
next
  case (Suc left)
  from Suc.prems show ?case
    by (subst (asm) write_loop.simps) (auto split: step_splits dest!: Suc.IH)
qed

section \<open>Results\<close>

text \<open>How the loop can end: with a write the library acknowledged, with the context's error out of
  a back-off, with a panic of the library, or with the error of a write.\<close>

definition loop_result ::
  "'w kafka_lib \<Rightarrow> ctx \<Rightarrow> kmessage list \<Rightarrow> 'w \<Rightarrow> publish_result list outcome + goerr \<Rightarrow> bool" where
  "loop_result L c km w' r =
     (case r of
        Inl (Ok rs) \<Rightarrow> rs = [] \<and> (\<exists>w0 u. lib_write_messages L w0 c km = (w', Ok u))
      | Inl (Err ce) \<Rightarrow> (\<exists>w0. rt_backoff L w0 c auto_create_backoff = (w', Err ce))
      | Inl (Panic p) \<Rightarrow> True
      | Inr e \<Rightarrow> (\<exists>w0 w1. lib_write_messages L w0 c km = (w1, Err e)))"

lemma loop_resultI [intro]:
  "lib_write_messages L w0 c km = (w', Ok u) \<Longrightarrow> loop_result L c km w' (Inl (Ok []))"
  "rt_backoff L w0 c auto_create_backoff = (w', Err ce) \<Longrightarrow> loop_result L c km w' (Inl (Err ce))"
  "loop_result L c km w' (Inl (Panic p))"
  "lib_write_messages L w0 c km = (w1, Err e) \<Longrightarrow> loop_result L c km w' (Inr e)"
  by (auto simp: loop_result_def)

lemma write_loop_result: "write_loop L auto left w c km = (w', r) \<Longrightarrow> loop_result L c km w' r"
proof (induction left arbitrary: w auto)
  case 0
  then show ?case
    by (subst (asm) write_loop.simps) (auto split: step_splits)
next
  case (Suc left)
  from Suc.prems show ?case
    by (subst (asm) write_loop.simps) (auto split: step_splits dest: Suc.IH)
qed

lemma write_loop_Ok: "write_loop L auto left w c km = (w', Inl (Ok rs)) \<Longrightarrow> rs = []"
  by (drule write_loop_result) (simp add: loop_result_def)

lemma writer_produce_Ok:
  "writer_produce L wr w c topic msgs = (w', Ok rs) \<Longrightarrow> rs = []"
  by (auto simp: writer_produce_def split: step_splits sum.splits dest: write_loop_Ok)

interpretation writer_producer: producer_iface "writer_produce L wr" for L wr
  by unfold_locales (auto dest: writer_produce_Ok)

end
