(* ===== verification/KafkaSync.thy ===== *)
theory KafkaSync
  imports KafkaLib
begin

text \<open>
  \<open>internal/kafka/syncproducer.go\<close>: the producer that reports coordinates. \<open>sync_partitions\<close> is
  \<open>partitions\<close>, \<open>group_loop\<close> routes messages to partitions through the library's balancer,
  \<open>produce_groups\<close> is the loop with one produce request for each partition, \<open>store_results\<close>
  writes a partition's offsets into the result slice, \<open>sync_produce\<close> is \<open>Produce\<close>. The lemmas
  locate every record of a successful call in the log (\<open>sync_produce_located\<close>), keep the order
  within a partition (\<open>sync_produce_ordered\<close>), and say what a failed call leaves behind
  (\<open>sync_produce_failure\<close>).

  The map from partitions to records is an association list; the order in which Go ranges over
  it is \<open>rt_range\<close>, assumed only to be a permutation of the keys.
\<close>

record indexed_record =
  ir_index :: nat
  ir_record :: krecord

definition to_record :: "message \<Rightarrow> krecord" where
  "to_record m = \<lparr>kr_key = m_key m, kr_value = m_value m, kr_headers = to_kafka_headers (m_headers m)\<rparr>"

definition metadata_error :: "string \<Rightarrow> goerr \<Rightarrow> goerr" where
  "metadata_error topic e =
     Errorf [A (Lit ''metadata for ''), A (Quo topic), A (Lit '': ''), W e]"

fun find_partitions :: "string \<Rightarrow> ktopic list \<Rightarrow> int list outcome" where
  "find_partitions topic [] = Err (Sentinel ErrTopicNotFound)"
| "find_partitions topic (t # ts) =
     (if kt_name t \<noteq> topic then find_partitions topic ts
      else if contains_kafka_error (kt_error t) unknown_topic_or_partition \<or> length (kt_partitions t) = 0
        then Err (Sentinel ErrTopicNotFound)
      else (case kt_error t of
              Some e \<Rightarrow> Err (metadata_error topic e)
            | None \<Rightarrow> Ok (map kp_id (kt_partitions t))))"

definition sync_partitions :: "'w kafka_lib \<Rightarrow> 'w \<Rightarrow> ctx \<Rightarrow> string \<Rightarrow> 'w \<times> int list outcome" where
  "sync_partitions L w c topic =
     and_then (lib_metadata L w c [topic]) (metadata_error topic)
       (\<lambda>w' topics. (w', find_partitions topic topics))"

text \<open>\<open>groups[part] = append(groups[part], ...)\<close>.\<close>

fun append_group :: "int \<Rightarrow> 'a \<Rightarrow> (int \<times> 'a list) list \<Rightarrow> (int \<times> 'a list) list" where
  "append_group p x [] = [(p, [x])]"
| "append_group p x ((q, xs) # g) =
     (if p = q then (q, xs @ [x]) # g else (q, xs) # append_group p x g)"

definition group_items :: "(int \<times> 'a list) list \<Rightarrow> int \<Rightarrow> 'a list" where
  "group_items g p = (case map_of g p of None \<Rightarrow> [] | Some xs \<Rightarrow> xs)"

fun group_loop :: "'w kafka_lib \<Rightarrow> int list \<Rightarrow> 'w \<Rightarrow> nat \<Rightarrow> message list \<Rightarrow>
    (int \<times> indexed_record list) list \<Rightarrow> 'w \<times> (int \<times> indexed_record list) list" where
  "group_loop L partitions w i [] g = (w, g)"
| "group_loop L partitions w i (m # ms) g =
     (case lib_balance L w (m_key m) (m_value m) partitions of
        (w', part) \<Rightarrow>
          group_loop L partitions w' (Suc i) ms
            (append_group part \<lparr>ir_index = i, ir_record = to_record m\<rparr> g))"

definition translate :: "goerr \<Rightarrow> string \<Rightarrow> int \<Rightarrow> goerr" where
  "translate err topic part =
     (if contains_kafka_error (Some err) unknown_topic_or_partition then Sentinel ErrTopicNotFound
      else Errorf [A (Lit ''kafka produce to ''), A (Quo topic), A (Lit ''/''), A (Num part),
                   A (Lit '': ''), W err])"

fun store_results :: "int \<Rightarrow> int \<Rightarrow> nat \<Rightarrow> indexed_record list \<Rightarrow> publish_result list \<Rightarrow>
    publish_result list" where
  "store_results part base j [] rs = rs"
| "store_results part base j (it # its) rs =
     store_results part base (Suc j) its
       (rs[ir_index it := \<lparr>pr_partition = part, pr_offset = wrap64 (base + int j)\<rparr>])"

definition produce_request_of :: "string \<Rightarrow> required_acks \<Rightarrow> int \<Rightarrow> indexed_record list \<Rightarrow> produce_request" where
  "produce_request_of topic acks part items =
     \<lparr>rq_topic = topic, rq_partition = part, rq_acks = acks, rq_records = map ir_record items\<rparr>"

fun produce_groups :: "'w kafka_lib \<Rightarrow> ctx \<Rightarrow> string \<Rightarrow> required_acks \<Rightarrow>
    (int \<times> indexed_record list) list \<Rightarrow> 'w \<Rightarrow> publish_result list \<Rightarrow> int list \<Rightarrow>
    'w \<times> publish_result list outcome" where
  "produce_groups L c topic acks g w results [] = (w, Ok results)"
| "produce_groups L c topic acks g w results (part # parts) =
     (case lib_produce L w c (produce_request_of topic acks part (group_items g part)) of
        (w', Err e) \<Rightarrow> (w', Err (translate e topic part))
      | (w', Panic p) \<Rightarrow> (w', Panic p)
      | (w', Ok resp) \<Rightarrow>
          (case rs_error resp of
             Some e \<Rightarrow> (w', Err (translate e topic part))
           | None \<Rightarrow>
               produce_groups L c topic acks g w'
                 (store_results part (rs_base_offset resp) 0 (group_items g part) results) parts))"

definition zero_result :: publish_result where
  "zero_result = \<lparr>pr_partition = 0, pr_offset = 0\<rparr>"

definition sync_produce :: "'w kafka_lib \<Rightarrow> required_acks \<Rightarrow> 'w producer" where
  "sync_produce L acks w c topic msgs =
     (if msgs = [] then (w, Ok [])
      else
        and_then (sync_partitions L w c topic) (\<lambda>e. e)
          (\<lambda>w1 partitions.
             (case group_loop L partitions w1 0 msgs [] of
                (w2, g) \<Rightarrow>
                  produce_groups L c topic acks g w2 (replicate (length msgs) zero_result)
                    (rt_range L w2 (map fst g)))))"

section \<open>Grouping\<close>

lemma map_of_append_group:
  "map_of (append_group p x g) q =
     (if p = q then Some (group_items g p @ [x]) else map_of g q)"
  by (induction p x g rule: append_group.induct) (auto simp: group_items_def)

lemma group_items_append_group:
  "group_items (append_group p x g) q = (if p = q then group_items g p @ [x] else group_items g q)"
  by (simp add: group_items_def [of "append_group p x g"] map_of_append_group)
    (simp add: group_items_def)

lemma fst_append_group:
  "set (map fst (append_group p x g)) = insert p (set (map fst g))"
  by (induction p x g rule: append_group.induct) auto

lemma distinct_append_group:
  "distinct (map fst g) \<Longrightarrow> distinct (map fst (append_group p x g))"
proof (induction p x g rule: append_group.induct)
  case (2 p x q xs g)
  then show ?case using fst_append_group [of p x g] by auto
qed simp

text \<open>
  What the grouping establishes: the groups hold the messages at positions below \<open>i\<close>, each
  exactly once and in input order within its group.
\<close>

definition groups_inv :: "message list \<Rightarrow> nat \<Rightarrow> (int \<times> indexed_record list) list \<Rightarrow> bool" where
  "groups_inv msgs i g \<longleftrightarrow>
     distinct (map fst g) \<and>
     (\<forall>p. \<forall>it \<in> set (group_items g p).
        ir_index it < i \<and> ir_record it = to_record (msgs ! ir_index it)) \<and>
     (\<forall>p. sorted_wrt (<) (map ir_index (group_items g p))) \<and>
     (\<forall>p q it it'. it \<in> set (group_items g p) \<longrightarrow> it' \<in> set (group_items g q) \<longrightarrow>
        ir_index it = ir_index it' \<longrightarrow> p = q) \<and>
     (\<forall>k < i. \<exists>p \<in> set (map fst g). \<exists>it \<in> set (group_items g p). ir_index it = k)"

lemma groups_invD:
  assumes "groups_inv msgs i g"
  shows "distinct (map fst g)"
    and "it \<in> set (group_items g p) \<Longrightarrow> ir_index it < i"
    and "it \<in> set (group_items g p) \<Longrightarrow> ir_record it = to_record (msgs ! ir_index it)"
    and "sorted_wrt (<) (map ir_index (group_items g p))"
    and "it \<in> set (group_items g p) \<Longrightarrow> it' \<in> set (group_items g q) \<Longrightarrow>
           ir_index it = ir_index it' \<Longrightarrow> p = q"
    and "k < i \<Longrightarrow> \<exists>p \<in> set (map fst g). \<exists>it \<in> set (group_items g p). ir_index it = k"
  using assms unfolding groups_inv_def by blast+

lemma groups_inv_empty: "groups_inv msgs 0 []"
  by (simp add: groups_inv_def group_items_def)

lemma groups_inv_append:
  assumes inv: "groups_inv msgs i g"
  shows "groups_inv msgs (Suc i)
           (append_group p \<lparr>ir_index = i, ir_record = to_record (msgs ! i)\<rparr> g)"
proof -
  let ?x = "\<lparr>ir_index = i, ir_record = to_record (msgs ! i)\<rparr>"
  let ?g = "append_group p ?x g"
  have items: "group_items ?g q = (if p = q then group_items g p @ [?x] else group_items g q)" for q
    by (rule group_items_append_group)
  have mem: "it \<in> set (group_items ?g q) \<longleftrightarrow>
      it \<in> set (group_items g q) \<or> p = q \<and> it = ?x" for it q
    by (auto simp: items)
  note D = groups_invD [OF inv]
  have old: "it \<in> set (group_items g q) \<Longrightarrow> ir_index it < i" for it q
    by (rule D(2))
  have "distinct (map fst ?g)"
    by (rule distinct_append_group [OF D(1)])
  moreover have "\<forall>q. \<forall>it \<in> set (group_items ?g q).
      ir_index it < Suc i \<and> ir_record it = to_record (msgs ! ir_index it)"
    using D(2,3) by (auto simp: mem less_Suc_eq)
  moreover have "\<forall>q. sorted_wrt (<) (map ir_index (group_items ?g q))"
    using D(4) old by (auto simp: items sorted_wrt_append)
  moreover have "\<forall>q q' it it'. it \<in> set (group_items ?g q) \<longrightarrow> it' \<in> set (group_items ?g q') \<longrightarrow>
      ir_index it = ir_index it' \<longrightarrow> q = q'"
  proof (intro allI impI)
    fix q q' it it'
    assume "it \<in> set (group_items ?g q)" and "it' \<in> set (group_items ?g q')"
      and eq: "ir_index it = ir_index it'"
    then have "it \<in> set (group_items g q) \<or> p = q \<and> it = ?x"
      and "it' \<in> set (group_items g q') \<or> p = q' \<and> it' = ?x"
      by (simp_all only: mem)
    then show "q = q'"
      using D(5) [of it q it' q'] old [of it q] old [of it' q'] eq by auto
  qed
  moreover have "\<forall>k < Suc i. \<exists>q \<in> set (map fst ?g). \<exists>it \<in> set (group_items ?g q). ir_index it = k"
  proof (intro allI impI)
    fix k assume "k < Suc i"
    then consider "k < i" | "k = i" by linarith
    then show "\<exists>q \<in> set (map fst ?g). \<exists>it \<in> set (group_items ?g q). ir_index it = k"
    proof cases
      case 1
      then show ?thesis using D(6) [of k] fst_append_group [of p ?x g] mem by blast
    next
      case 2
      then show ?thesis using fst_append_group [of p ?x g] mem [of ?x p] by force
    qed
  qed
  ultimately show ?thesis by (simp add: groups_inv_def)
qed

lemma group_loop_inv:
  "group_loop L partitions w i ms g = (w', g') \<Longrightarrow> groups_inv msgs i g \<Longrightarrow>
     ms = drop i msgs \<Longrightarrow> i \<le> length msgs \<Longrightarrow> groups_inv msgs (length msgs) g'"
proof (induction L partitions w i ms g rule: group_loop.induct)
  case (1 L partitions w i g)
  then show ?case by simp
next
  case (2 L partitions w i m ms g)
  obtain w1 part where b: "lib_balance L w (m_key m) (m_value m) partitions = (w1, part)" by force
  have i: "i < length msgs" using "2.prems" by (metis drop_eq_Nil linorder_not_le list.distinct(1))
  with "2.prems"(3) have m: "m = msgs ! i" and ms: "ms = drop (Suc i) msgs"
    by (simp_all add: Cons_nth_drop_Suc [symmetric])
  from "2.prems"(1) b have step: "group_loop L partitions w1 (Suc i) ms
      (append_group part \<lparr>ir_index = i, ir_record = to_record m\<rparr> g) = (w', g')"
    by simp
  show ?case
    by (rule "2.IH" [OF b [symmetric] step _ ms])
      (use groups_inv_append [OF "2.prems"(2)] m i in simp_all)
qed

section \<open>Result slots\<close>

lemma length_store_results [simp]: "length (store_results part base j its rs) = length rs"
  by (induction part base j its rs rule: store_results.induct) auto

lemma store_results_other:
  "i \<notin> ir_index ` set its \<Longrightarrow> store_results part base j its rs ! i = rs ! i"
  by (induction part base j its rs rule: store_results.induct) auto

lemma store_results_nth:
  "sorted_wrt (<) (map ir_index its) \<Longrightarrow> \<forall>it \<in> set its. ir_index it < length rs \<Longrightarrow>
     k < length its \<Longrightarrow>
     store_results part base j its rs ! ir_index (its ! k) =
       \<lparr>pr_partition = part, pr_offset = wrap64 (base + int (j + k))\<rparr>"
proof (induction part base j its rs arbitrary: k rule: store_results.induct)
  case (1 part base j rs)
  then show ?case by simp
next
  case (2 part base j it its rs)
  show ?case
  proof (cases k)
    case 0
    have "ir_index it \<notin> ir_index ` set its" using "2.prems"(1) by auto
    then show ?thesis using 0 "2.prems"(2) by (simp add: store_results_other)
  next
    case (Suc k')
    then show ?thesis using "2.IH" [of k'] "2.prems" by simp
  qed
qed

section \<open>The log of a broker\<close>

text \<open>
  What the adapter relies on of the broker behind the library, for a view \<open>log\<close> of the cluster
  (topic, partition, offset to record): a produce request that asks for an acknowledgement and
  succeeds has stored its records at consecutive offsets from the base offset it answers with
  (``The broker assigns sequential offsets starting at BaseOffset''), the offsets are 64-bit, and
  no later produce request removes a record. Without acknowledgements (\<open>RequireNone\<close>) the broker
  sends no answer, so nothing is assumed of the base offset. Ranging over a map visits each key exactly once.
\<close>

definition appends_log :: "'w kafka_lib \<Rightarrow> ('w \<Rightarrow> string \<Rightarrow> int \<Rightarrow> int \<Rightarrow> krecord option) \<Rightarrow> bool" where
  "appends_log L log \<longleftrightarrow>
     (\<forall>w c q w' resp. rq_acks q \<noteq> RequireNone \<longrightarrow>
        lib_produce L w c q = (w', Ok resp) \<longrightarrow> rs_error resp = None \<longrightarrow>
        (\<forall>j < length (rq_records q).
           in_int64 (rs_base_offset resp + int j) \<and>
           log w' (rq_topic q) (rq_partition q) (rs_base_offset resp + int j) = Some (rq_records q ! j)))"

definition keeps_log :: "'w kafka_lib \<Rightarrow> ('w \<Rightarrow> string \<Rightarrow> int \<Rightarrow> int \<Rightarrow> krecord option) \<Rightarrow> bool" where
  "keeps_log L log \<longleftrightarrow>
     (\<forall>w c q w' r t p i rec. lib_produce L w c q = (w', r) \<longrightarrow>
        log w t p i = Some rec \<longrightarrow> log w' t p i = Some rec)"

definition ranges_once :: "'w kafka_lib \<Rightarrow> bool" where
  "ranges_once L \<longleftrightarrow>
     (\<forall>w ks. distinct ks \<longrightarrow> distinct (rt_range L w ks) \<and> set (rt_range L w ks) = set ks)"

lemma appends_logD:
  assumes "appends_log L log" and "lib_produce L w c q = (w', Ok resp)" and "rs_error resp = None"
    and "j < length (rq_records q)" and "rq_acks q \<noteq> RequireNone"
  shows "in_int64 (rs_base_offset resp + int j)"
    and "log w' (rq_topic q) (rq_partition q) (rs_base_offset resp + int j) = Some (rq_records q ! j)"
  using assms unfolding appends_log_def by blast+

lemma produce_groups_keeps:
  "keeps_log L log \<Longrightarrow> produce_groups L c topic acks g w results parts = (w', r) \<Longrightarrow>
     log w t p i = Some rec \<Longrightarrow> log w' t p i = Some rec"
proof (induction L c topic acks g w results parts rule: produce_groups.induct)
  case (1 L c topic acks g w results)
  then show ?case by simp
next
  case (2 L c topic acks g w results part parts)
  obtain w1 r1 where r1: "lib_produce L w c (produce_request_of topic acks part (group_items g part)) = (w1, r1)"
    by force
  have kept: "log w1 t p i = Some rec"
    using "2.prems"(1,3) r1 unfolding keeps_log_def by blast
  show ?case
  proof (cases r1)
    case (Ok resp)
    show ?thesis
    proof (cases "rs_error resp")
      case None
      from "2.prems"(2) r1 Ok None show ?thesis
        using "2.IH" [OF r1 [symmetric] Ok None "2.prems"(1) _ kept] by simp
    next
      case (Some e)
      with "2.prems"(2) r1 Ok kept show ?thesis by simp
    qed
  next
    case (Err e)
    with "2.prems"(2) r1 kept show ?thesis by simp
  next
    case (Panic m)
    with "2.prems"(2) r1 kept show ?thesis by simp
  qed
qed

text \<open>
  The slots of one partition: consecutive offsets in input order, each the offset at which the
  log holds the record.
\<close>

definition placed ::
  "('w \<Rightarrow> string \<Rightarrow> int \<Rightarrow> int \<Rightarrow> krecord option) \<Rightarrow> 'w \<Rightarrow> string \<Rightarrow> int \<Rightarrow> indexed_record list \<Rightarrow>
     publish_result list \<Rightarrow> bool" where
  "placed log w topic part items rs \<longleftrightarrow>
     (\<exists>base. \<forall>k < length items.
        rs ! ir_index (items ! k) = \<lparr>pr_partition = part, pr_offset = base + int k\<rparr> \<and>
        log w topic part (base + int k) = Some (ir_record (items ! k)))"

lemma produce_groups_placed:
  assumes "appends_log L log" and "keeps_log L log" and "groups_inv msgs n g" and "acks \<noteq> RequireNone"
  shows "produce_groups L c topic acks g w results parts = (w', Ok rs) \<Longrightarrow> distinct parts \<Longrightarrow>
     length results = n \<Longrightarrow>
     length rs = n \<and> (\<forall>p \<in> set parts. placed log w' topic p (group_items g p) rs) \<and>
     (\<forall>i. (\<forall>p \<in> set parts. i \<notin> ir_index ` set (group_items g p)) \<longrightarrow> rs ! i = results ! i)"
proof (induction parts arbitrary: w results)
  case Nil
  then show ?case by simp
next
  case (Cons part parts)
  let ?items = "group_items g part"
  let ?q = "produce_request_of topic acks part ?items"
  obtain w1 resp where r: "lib_produce L w c ?q = (w1, Ok resp)" and ok: "rs_error resp = None"
    and rest: "produce_groups L c topic acks g w1
      (store_results part (rs_base_offset resp) 0 ?items results) parts = (w', Ok rs)"
    using Cons.prems(1) by (auto split: prod.splits outcome.splits option.splits)
  let ?results = "store_results part (rs_base_offset resp) 0 ?items results"
  have IH: "length rs = n" "\<forall>p \<in> set parts. placed log w' topic p (group_items g p) rs"
    "\<And>i. (\<forall>p \<in> set parts. i \<notin> ir_index ` set (group_items g p)) \<Longrightarrow> rs ! i = ?results ! i"
    using Cons.IH [OF rest] Cons.prems by auto
  note D = groups_invD [OF assms(3)]
  have "placed log w' topic part ?items rs"
    unfolding placed_def
  proof (intro exI allI impI conjI)
    fix k assume k: "k < length ?items"
    then have k': "k < length (rq_records ?q)" by (simp add: produce_request_of_def)
    have "rq_acks ?q \<noteq> RequireNone" using assms(4) by (simp add: produce_request_of_def)
    note A = appends_logD [OF assms(1) r ok k' this]
    have "\<forall>p \<in> set parts. ir_index (?items ! k) \<notin> ir_index ` set (group_items g p)"
      using D(5) [OF nth_mem [OF k]] Cons.prems(2) by fastforce
    then have "rs ! ir_index (?items ! k) = ?results ! ir_index (?items ! k)" by (rule IH(3))
    also have "\<dots> = \<lparr>pr_partition = part, pr_offset = wrap64 (rs_base_offset resp + int (0 + k))\<rparr>"
      using D(2) [of _ part] Cons.prems(3) k by (intro store_results_nth [OF D(4)]) auto
    finally show "rs ! ir_index (?items ! k) =
        \<lparr>pr_partition = part, pr_offset = rs_base_offset resp + int k\<rparr>"
      using A(1) by (simp add: wrap64_id)
    have "log w1 topic part (rs_base_offset resp + int k) = Some (ir_record (?items ! k))"
      using A(2) k by (simp add: produce_request_of_def)
    then show "log w' topic part (rs_base_offset resp + int k) = Some (ir_record (?items ! k))"
      by (rule produce_groups_keeps [OF assms(2) rest])
  qed
  moreover have "rs ! i = results ! i"
    if "\<forall>p \<in> set (part # parts). i \<notin> ir_index ` set (group_items g p)" for i
    using that IH(3) [of i] by (simp add: store_results_other)
  ultimately show ?case using IH(1,2) by auto
qed

section \<open>Produce\<close>

lemma sync_produce_Ok:
  assumes "sync_produce L acks w c topic msgs = (w', Ok rs)" and "msgs \<noteq> []"
  obtains w2 g where "groups_inv msgs (length msgs) g"
    and "produce_groups L c topic acks g w2 (replicate (length msgs) zero_result)
           (rt_range L w2 (map fst g)) = (w', Ok rs)"
proof -
  from assms obtain w1 partitions where r: "(case group_loop L partitions w1 0 msgs [] of
      (w2, g) \<Rightarrow> produce_groups L c topic acks g w2 (replicate (length msgs) zero_result)
        (rt_range L w2 (map fst g))) = (w', Ok rs)"
    by (auto simp: sync_produce_def go_simps)
  obtain w2 g where g: "group_loop L partitions w1 0 msgs [] = (w2, g)" by force
  with r have p: "produce_groups L c topic acks g w2 (replicate (length msgs) zero_result)
      (rt_range L w2 (map fst g)) = (w', Ok rs)" by simp
  from group_loop_inv [OF g groups_inv_empty] have "groups_inv msgs (length msgs) g" by simp
  then show thesis using p by (rule that)
qed

lemma length_produce_groups:
  "produce_groups L c topic acks g w results parts = (w', Ok rs) \<Longrightarrow> length rs = length results"
  by (induction L c topic acks g w results parts rule: produce_groups.induct)
    (auto split: prod.splits outcome.splits option.splits)

lemma sync_produce_length:
  "sync_produce L acks w c topic msgs = (w', Ok rs) \<Longrightarrow> length rs = length msgs"
  by (cases "msgs = []") (auto simp: sync_produce_def [of L acks w c topic "[]"]
      elim!: sync_produce_Ok dest!: length_produce_groups)

interpretation sync_producer: producer_iface "sync_produce L acks" for L acks
  by unfold_locales (auto dest: sync_produce_length)

text \<open>The coordinates of a batch, by the message's position: where the log holds it, and
  increasing along the messages of one partition.\<close>

lemma sync_produce_slots:
  assumes "appends_log L log" and "keeps_log L log" and "ranges_once L" and "acks \<noteq> RequireNone"
    and "sync_produce L acks w c topic msgs = (w', Ok rs)" and "msgs \<noteq> []"
  obtains g where "groups_inv msgs (length msgs) g"
    and "\<forall>p \<in> set (map fst g). placed log w' topic p (group_items g p) rs"
proof -
  from assms(5,6) obtain w2 g where g: "groups_inv msgs (length msgs) g"
    and p: "produce_groups L c topic acks g w2 (replicate (length msgs) zero_result)
           (rt_range L w2 (map fst g)) = (w', Ok rs)"
    by (rule sync_produce_Ok)
  have range: "distinct (rt_range L w2 (map fst g))" "set (rt_range L w2 (map fst g)) = set (map fst g)"
    using assms(3) groups_invD(1) [OF g] unfolding ranges_once_def by blast+
  show thesis
    using produce_groups_placed [OF assms(1,2) g assms(4) p range(1)] range(2) by (intro that [OF g]) simp
qed

lemma sync_produce_located:
  assumes "appends_log L log" and "keeps_log L log" and "ranges_once L" and "acks \<noteq> RequireNone"
    and "sync_produce L acks w c topic msgs = (w', Ok rs)" and i: "i < length msgs"
  shows "log w' topic (pr_partition (rs ! i)) (pr_offset (rs ! i)) = Some (to_record (msgs ! i))"
proof -
  from i have "msgs \<noteq> []" by auto
  with assms(1-5) obtain g where g: "groups_inv msgs (length msgs) g"
    and pl: "\<forall>p \<in> set (map fst g). placed log w' topic p (group_items g p) rs"
    by (rule sync_produce_slots)
  from groups_invD(6) [OF g i] obtain p it where p: "p \<in> set (map fst g)"
    and it: "it \<in> set (group_items g p)" "ir_index it = i" by blast
  from it obtain k where k: "k < length (group_items g p)" "group_items g p ! k = it"
    by (auto simp: in_set_conv_nth)
  from pl p k it(2) obtain base where
    "rs ! i = \<lparr>pr_partition = p, pr_offset = base + int k\<rparr>"
    "log w' topic p (base + int k) = Some (ir_record it)"
    unfolding placed_def by blast
  then show ?thesis using groups_invD(3) [OF g it(1)] it(2) by simp
qed

lemma sync_produce_ordered:
  assumes "appends_log L log" and "keeps_log L log" and "ranges_once L" and "acks \<noteq> RequireNone"
    and "sync_produce L acks w c topic msgs = (w', Ok rs)"
    and ij: "i < j" "j < length msgs" and same: "pr_partition (rs ! i) = pr_partition (rs ! j)"
  shows "pr_offset (rs ! i) < pr_offset (rs ! j)"
proof -
  from ij have "msgs \<noteq> []" by auto
  with assms(1-5) obtain g where g: "groups_inv msgs (length msgs) g"
    and pl: "\<forall>p \<in> set (map fst g). placed log w' topic p (group_items g p) rs"
    by (rule sync_produce_slots)
  have slot: "\<exists>p a. p \<in> set (map fst g) \<and> a < length (group_items g p) \<and>
      ir_index (group_items g p ! a) = x" if "x < length msgs" for x
    using groups_invD(6) [OF g that] by (metis in_set_conv_nth)
  obtain p a where a: "p \<in> set (map fst g)" "a < length (group_items g p)"
    "ir_index (group_items g p ! a) = i" using slot [of i] ij by auto
  obtain q b where b: "q \<in> set (map fst g)" "b < length (group_items g q)"
    "ir_index (group_items g q ! b) = j" using slot [of j] ij by auto
  from pl a(1) obtain base where base:
    "\<forall>k < length (group_items g p). rs ! ir_index (group_items g p ! k) =
       \<lparr>pr_partition = p, pr_offset = base + int k\<rparr>"
    unfolding placed_def by blast
  from pl b(1) obtain base' where base':
    "\<forall>k < length (group_items g q). rs ! ir_index (group_items g q ! k) =
       \<lparr>pr_partition = q, pr_offset = base' + int k\<rparr>"
    unfolding placed_def by blast
  have ri: "rs ! i = \<lparr>pr_partition = p, pr_offset = base + int a\<rparr>" using base a by blast
  have rj: "rs ! j = \<lparr>pr_partition = q, pr_offset = base' + int b\<rparr>" using base' b by blast
  have pq: "p = q" using same by (simp add: ri rj)
  have rj': "rs ! j = \<lparr>pr_partition = p, pr_offset = base + int b\<rparr>" using base b pq by blast
  have "a < b"
  proof (rule ccontr)
    assume "\<not> a < b"
    then consider "b < a" | "a = b" by linarith
    then show False
    proof cases
      case 1
      then have "j < i"
        using sorted_wrt_nth_less [OF groups_invD(4) [OF g, of p], of b a] a b pq by simp
      then show False using ij by simp
    next
      case 2
      then show False using a b pq ij by simp
    qed
  qed
  then show ?thesis by (simp add: ri rj')
qed

section \<open>A request that fails\<close>

text \<open>When the loop over the partitions fails, the partitions before the failing one were produced as in
  a successful run, and the failing request was the last.\<close>

definition request_failed :: "'w kafka_lib \<Rightarrow> 'w \<Rightarrow> ctx \<Rightarrow> produce_request \<Rightarrow> 'w \<Rightarrow> goerr \<Rightarrow> bool" where
  "request_failed L w c q w' e \<longleftrightarrow>
     lib_produce L w c q = (w', Err e) \<or>
     (\<exists>resp. lib_produce L w c q = (w', Ok resp) \<and> rs_error resp = Some e)"

lemma produce_groups_Err:
  "produce_groups L c topic acks g w results parts = (w', Err e) \<Longrightarrow>
     \<exists>sent failed rest w0 rs e0. parts = sent @ failed # rest \<and>
       produce_groups L c topic acks g w results sent = (w0, Ok rs) \<and>
       request_failed L w0 c (produce_request_of topic acks failed (group_items g failed)) w' e0 \<and>
       e = translate e0 topic failed"
proof (induction L c topic acks g w results parts rule: produce_groups.induct)
  case (1 L c topic acks g w results)
  then show ?case by simp
next
  case (2 L c topic acks g w results part parts)
  let ?q = "produce_request_of topic acks part (group_items g part)"
  obtain w1 r1 where r1: "lib_produce L w c ?q = (w1, r1)" by force
  show ?case
  proof (cases "\<exists>resp. r1 = Ok resp \<and> rs_error resp = None")
    case True
    then obtain resp where ok: "r1 = Ok resp" "rs_error resp = None" by blast
    let ?rs = "store_results part (rs_base_offset resp) 0 (group_items g part) results"
    have "produce_groups L c topic acks g w1 ?rs parts = (w', Err e)" using "2.prems" r1 ok by simp
    from "2.IH" [OF r1 [symmetric] ok this] obtain sent failed rest w0 rs e0 where
      "parts = sent @ failed # rest" "produce_groups L c topic acks g w1 ?rs sent = (w0, Ok rs)"
      "request_failed L w0 c (produce_request_of topic acks failed (group_items g failed)) w' e0"
      "e = translate e0 topic failed"
      by blast
    with r1 ok show ?thesis
      by (intro exI [of _ "part # sent"] exI [of _ failed] exI [of _ rest] exI [of _ w0] exI [of _ rs] exI [of _ e0]) simp
  next
    case False
    with "2.prems" r1 obtain e0 where "request_failed L w c ?q w' e0" "e = translate e0 topic part"
      by (auto simp: request_failed_def split: outcome.splits option.splits)
    then show ?thesis
      by (intro exI [of _ "[]"] exI [of _ part] exI [of _ parts] exI [of _ w] exI [of _ results] exI [of _ e0]) simp
  qed
qed

text \<open>The partition the balancer picks for each message.\<close>

fun chosen_partitions :: "'w kafka_lib \<Rightarrow> int list \<Rightarrow> 'w \<Rightarrow> message list \<Rightarrow> int list" where
  "chosen_partitions L partitions w [] = []"
| "chosen_partitions L partitions w (m # ms) =
     (case lib_balance L w (m_key m) (m_value m) partitions of
        (w', part) \<Rightarrow> part # chosen_partitions L partitions w' ms)"

lemma length_chosen_partitions [simp]: "length (chosen_partitions L partitions w ms) = length ms"
  by (induction L partitions w ms rule: chosen_partitions.induct) (auto split: prod.splits)

lemma group_loop_grows:
  "group_loop L partitions w i ms g = (w', g') \<Longrightarrow> it \<in> set (group_items g p) \<Longrightarrow> it \<in> set (group_items g' p)"
  by (induction L partitions w i ms g rule: group_loop.induct)
    (auto split: prod.splits simp: group_items_append_group)

lemma group_loop_chosen:
  "group_loop L partitions w i ms g = (w', g') \<Longrightarrow> k < length ms \<Longrightarrow>
     \<exists>it \<in> set (group_items g' (chosen_partitions L partitions w ms ! k)). ir_index it = i + k"
proof (induction L partitions w i ms g arbitrary: k rule: group_loop.induct)
  case (1 L partitions w i g)
  then show ?case by simp
next
  case (2 L partitions w i m ms g)
  obtain w1 part where b: "lib_balance L w (m_key m) (m_value m) partitions = (w1, part)" by force
  let ?x = "\<lparr>ir_index = i, ir_record = to_record m\<rparr>"
  have step: "group_loop L partitions w1 (Suc i) ms (append_group part ?x g) = (w', g')"
    using "2.prems"(1) b by simp
  show ?case
  proof (cases k)
    case 0
    have "?x \<in> set (group_items g' part)"
      by (rule group_loop_grows [OF step]) (simp add: group_items_append_group)
    then show ?thesis using 0 b by force
  next
    case (Suc j)
    with "2.IH" [OF b [symmetric] step, of j] "2.prems"(2) b show ?thesis by simp
  qed
qed

lemma sync_produce_failure:
  assumes "appends_log L log" and "keeps_log L log" and "ranges_once L" and "acks \<noteq> RequireNone"
    and "msgs \<noteq> []" and "sync_partitions L w c topic = (w1, Ok partitions)"
    and g: "group_loop L partitions w1 0 msgs [] = (w2, g)"
    and "sync_produce L acks w c topic msgs = (w', Err e)"
  defines "chosen \<equiv> chosen_partitions L partitions w1 msgs"
  shows "\<exists>sent failed rest w0 e0. rt_range L w2 (map fst g) = sent @ failed # rest \<and>
    request_failed L w0 c (produce_request_of topic acks failed (group_items g failed)) w' e0 \<and>
    e = translate e0 topic failed \<and>
    (\<forall>i < length msgs. chosen ! i \<in> set sent \<longrightarrow>
       (\<exists>off. log w' topic (chosen ! i) off = Some (to_record (msgs ! i))))"
proof -
  have inv: "groups_inv msgs (length msgs) g" using group_loop_inv [OF g groups_inv_empty] by simp
  let ?range = "rt_range L w2 (map fst g)"
  have range: "distinct ?range"
    using assms(3) groups_invD(1) [OF inv] unfolding ranges_once_def by blast
  have "produce_groups L c topic acks g w2 (replicate (length msgs) zero_result) ?range = (w', Err e)"
    using assms(5,6,8) g by (simp add: sync_produce_def)
  from produce_groups_Err [OF this] obtain sent failed rest w0 rs e0 where parts: "?range = sent @ failed # rest"
    and ok: "produce_groups L c topic acks g w2 (replicate (length msgs) zero_result) sent = (w0, Ok rs)"
    and failed: "request_failed L w0 c (produce_request_of topic acks failed (group_items g failed)) w' e0"
    and e: "e = translate e0 topic failed"
    by blast
  have "\<exists>off. log w' topic (chosen ! i) off = Some (to_record (msgs ! i))"
    if i: "i < length msgs" and p: "chosen ! i \<in> set sent" for i
  proof -
    obtain it where it: "it \<in> set (group_items g (chosen ! i))" "ir_index it = i"
      using group_loop_chosen [OF g i] by (auto simp: chosen_def)
    then obtain k where "k < length (group_items g (chosen ! i))" "group_items g (chosen ! i) ! k = it"
      by (auto simp: in_set_conv_nth)
    then obtain off where "log w0 topic (chosen ! i) off = Some (ir_record it)"
      using produce_groups_placed [OF assms(1,2) inv assms(4) ok] range parts p unfolding placed_def by fastforce
    moreover have "ir_record it = to_record (msgs ! i)" using groups_invD(3) [OF inv it(1)] it(2) by simp
    ultimately show ?thesis
      using assms(2) failed unfolding keeps_log_def request_failed_def by metis
  qed
  with parts failed e show ?thesis by blast
qed

end
