(* ===== verification/KafkaSecurity.thy ===== *)
theory KafkaSecurity
  imports KafkaWriter KafkaSync GoText
begin

text \<open>
  \<open>internal/kafka/security.go\<close> and the constructors of the adapter: \<open>NewWriter\<close> (\<open>writer.go\<close>),
  \<open>NewSyncProducer\<close> (\<open>syncproducer.go\<close>), \<open>NewClient\<close> (\<open>client.go\<close>), with \<open>parseRequiredAcks\<close>.

  The files, the SCRAM client, the certificate pool and the key pairs are not part of the
  repository: \<open>security_lib\<close> holds the calls, over abstract types for a SCRAM mechanism, a pool
  and a certificate. A record holds the fields the code sets; a nil pointer is \<open>None\<close>.
\<close>

record security_config =
  sc_protocol :: string
  sc_mechanism :: string
  sc_username :: string
  sc_password :: string
  sc_ca_file :: string
  sc_cert_file :: string
  sc_key_file :: string
  sc_server_name :: string
  sc_skip_verify :: bool

record ('m, 'p, 'c) security_lib =
  sl_scram :: "nat \<Rightarrow> string \<Rightarrow> string \<Rightarrow> 'm outcome"
  sl_read_file :: "string \<Rightarrow> string outcome"
  sl_append_certs :: "string \<Rightarrow> 'p option"
  sl_load_key_pair :: "string \<Rightarrow> string \<Rightarrow> 'c outcome"

datatype 'm sasl_mechanism = PlainMechanism string string | ScramMechanism 'm

record ('p, 'c) tls_settings =
  tl_min_version :: nat
  tl_server_name :: string
  tl_skip_verify :: bool
  tl_root_cas :: "'p option"
  tl_certificates :: "'c list"

record ('m, 'p, 'c) transport =
  tp_sasl :: "'m sasl_mechanism option"
  tp_tls :: "('p, 'c) tls_settings option"

record ('m, 'p, 'c) dialer =
  dl_timeout :: int
  dl_dual_stack :: bool
  dl_sasl :: "'m sasl_mechanism option"
  dl_tls :: "('p, 'c) tls_settings option"

section \<open>Security\<close>

definition uses_sasl :: "security_config \<Rightarrow> bool" where
  "uses_sasl s = (let p = go_lower (sc_protocol s) in p = ''sasl_plaintext'' \<or> p = ''sasl_ssl'')"

definition uses_tls :: "security_config \<Rightarrow> bool" where
  "uses_tls s = (let p = go_lower (sc_protocol s) in p = ''ssl'' \<or> p = ''sasl_ssl'')"

definition mechanism :: "('m, 'p, 'c) security_lib \<Rightarrow> security_config \<Rightarrow> 'm sasl_mechanism option outcome" where
  "mechanism SL s =
     (if \<not> uses_sasl s then Ok None
      else
        (let m = go_lower (sc_mechanism s)
         in if m = ''scram-sha-256'' then
              try_then (sl_scram SL 256 (sc_username s) (sc_password s)) (\<lambda>x. Ok (Some (ScramMechanism x)))
            else if m = ''scram-sha-512'' then
              try_then (sl_scram SL 512 (sc_username s) (sc_password s)) (\<lambda>x. Ok (Some (ScramMechanism x)))
            else if m = ''plain'' then Ok (Some (PlainMechanism (sc_username s) (sc_password s)))
            else Err (Errorf [A (Lit ''unsupported sasl mechanism ''), A (Quo (sc_mechanism s))])))"

definition wrapping :: "string \<Rightarrow> 'a outcome \<Rightarrow> 'a outcome" where
  "wrapping msg r = (case r of Err e \<Rightarrow> Err (Errorf [A (Lit msg), W e]) | _ \<Rightarrow> r)"

definition tls_version_12 :: nat where
  "tls_version_12 = 0x0303"

definition root_cas :: "('m, 'p, 'c) security_lib \<Rightarrow> security_config \<Rightarrow> 'p option outcome" where
  "root_cas SL s =
     (if sc_ca_file s = '''' then Ok None
      else try_then (wrapping ''read kafka tls ca: '' (sl_read_file SL (sc_ca_file s)))
        (\<lambda>pem. case sl_append_certs SL pem of
            None \<Rightarrow> Err (Errorf [A (Lit ''kafka tls ca ''), A (Quo (sc_ca_file s)),
                                 A (Lit '' contains no certificates'')])
          | Some pool \<Rightarrow> Ok (Some pool)))"

definition certificates :: "('m, 'p, 'c) security_lib \<Rightarrow> security_config \<Rightarrow> 'c list outcome" where
  "certificates SL s =
     (if sc_cert_file s \<noteq> '''' \<and> sc_key_file s \<noteq> ''''
      then try_then (wrapping ''load kafka tls keypair: '' (sl_load_key_pair SL (sc_cert_file s) (sc_key_file s)))
             (\<lambda>cert. Ok [cert])
      else Ok [])"

definition tls_config :: "('m, 'p, 'c) security_lib \<Rightarrow> security_config \<Rightarrow> ('p, 'c) tls_settings option outcome" where
  "tls_config SL s =
     (if \<not> uses_tls s then Ok None
      else try_then (root_cas SL s) (\<lambda>cas. try_then (certificates SL s) (\<lambda>certs.
        Ok (Some \<lparr>tl_min_version = tls_version_12, tl_server_name = sc_server_name s,
                  tl_skip_verify = sc_skip_verify s, tl_root_cas = cas,
                  tl_certificates = certs\<rparr>))))"

definition build :: "('m, 'p, 'c) security_lib \<Rightarrow> security_config \<Rightarrow>
    ('m sasl_mechanism option \<times> ('p, 'c) tls_settings option) outcome" where
  "build SL s =
     try_then (mechanism SL s) (\<lambda>mech. try_then (tls_config SL s) (\<lambda>tls. Ok (mech, tls)))"

definition build_transport :: "('m, 'p, 'c) security_lib \<Rightarrow> security_config \<Rightarrow>
    ('m, 'p, 'c) transport option outcome" where
  "build_transport SL s =
     try_then (build SL s) (\<lambda>(mech, tls).
       if mech = None \<and> tls = None then Ok None else Ok (Some \<lparr>tp_sasl = mech, tp_tls = tls\<rparr>))"

definition build_dialer :: "('m, 'p, 'c) security_lib \<Rightarrow> security_config \<Rightarrow> int \<Rightarrow>
    ('m, 'p, 'c) dialer option outcome" where
  "build_dialer SL s timeout =
     try_then (build SL s) (\<lambda>(mech, tls).
       if mech = None \<and> tls = None then Ok None
       else Ok (Some \<lparr>dl_timeout = timeout, dl_dual_stack = True, dl_sasl = mech, dl_tls = tls\<rparr>))"

section \<open>Constructors\<close>

definition parse_required_acks :: "string \<Rightarrow> required_acks outcome" where
  "parse_required_acks s =
     (let l = go_lower s
      in if l = ''all'' \<or> l = ''-1'' \<or> l = '''' then Ok RequireAll
         else if l = ''one'' \<or> l = ''1'' then Ok RequireOne
         else if l = ''none'' \<or> l = ''0'' then Ok RequireNone
         else Err (Errorf [A (Lit ''invalid required acks ''), A (Quo s),
                           A (Lit '' (want all, one, or none)'')]))"

record writer_config =
  wc_brokers :: "string list"
  wc_write_timeout :: int
  wc_batch_timeout :: int
  wc_required_acks :: string
  wc_allow_auto_create :: bool
  wc_security :: security_config

text \<open>The fields of \<open>kafka.Writer\<close> that \<open>NewWriter\<close> sets; the balancer is the hash balancer.\<close>

record ('m, 'p, 'c) lib_writer =
  lw_addr :: "string list"
  lw_write_timeout :: int
  lw_batch_timeout :: int
  lw_required_acks :: required_acks
  lw_async :: bool
  lw_allow_auto_create :: bool
  lw_transport :: "('m, 'p, 'c) transport option"

definition new_writer :: "('m, 'p, 'c) security_lib \<Rightarrow> writer_config \<Rightarrow>
    (('m, 'p, 'c) lib_writer \<times> writer) outcome" where
  "new_writer SL cfg =
     try_then (parse_required_acks (wc_required_acks cfg)) (\<lambda>acks.
     try_then (wrapping ''kafka writer security: '' (build_transport SL (wc_security cfg))) (\<lambda>tp.
       Ok (\<lparr>lw_addr = wc_brokers cfg, lw_write_timeout = wc_write_timeout cfg,
            lw_batch_timeout = wc_batch_timeout cfg, lw_required_acks = acks, lw_async = False,
            lw_allow_auto_create = wc_allow_auto_create cfg, lw_transport = tp\<rparr>,
           \<lparr>wr_allow_auto_create = wc_allow_auto_create cfg\<rparr>)))"

record sync_config =
  sy_brokers :: "string list"
  sy_write_timeout :: int
  sy_required_acks :: string
  sy_security :: security_config

record ('m, 'p, 'c) lib_client =
  ln_addr :: "string list"
  ln_timeout :: int
  ln_transport :: "('m, 'p, 'c) transport option"

definition new_sync_producer :: "('m, 'p, 'c) security_lib \<Rightarrow> sync_config \<Rightarrow>
    (('m, 'p, 'c) lib_client \<times> required_acks) outcome" where
  "new_sync_producer SL cfg =
     try_then (parse_required_acks (sy_required_acks cfg)) (\<lambda>acks.
     try_then (wrapping ''sync producer security: '' (build_transport SL (sy_security cfg))) (\<lambda>tp.
       Ok (\<lparr>ln_addr = sy_brokers cfg, ln_timeout = sy_write_timeout cfg, ln_transport = tp\<rparr>, acks)))"

record client_config =
  cg_brokers :: "string list"
  cg_admin_timeout :: int
  cg_security :: security_config

record ('m, 'p, 'c) client =
  cl_brokers :: "string list"
  cl_client :: "('m, 'p, 'c) lib_client"
  cl_dialer :: "('m, 'p, 'c) dialer option"

definition new_client :: "('m, 'p, 'c) security_lib \<Rightarrow> client_config \<Rightarrow> ('m, 'p, 'c) client outcome" where
  "new_client SL cfg =
     try_then (wrapping ''kafka client security: '' (build_transport SL (cg_security cfg))) (\<lambda>tp.
     try_then (wrapping ''kafka reader security: '' (build_dialer SL (cg_security cfg) (cg_admin_timeout cfg)))
       (\<lambda>dl. Ok \<lparr>cl_brokers = cg_brokers cfg,
                 cl_client = \<lparr>ln_addr = cg_brokers cfg, ln_timeout = cg_admin_timeout cfg, ln_transport = tp\<rparr>,
                 cl_dialer = dl\<rparr>))"

section \<open>Lemmas\<close>

lemma wrapping_Ok_iff [simp]: "wrapping msg r = Ok a \<longleftrightarrow> r = Ok a"
  by (cases r) (simp_all add: wrapping_def)

lemma mechanism_Ok: "mechanism SL s = Ok m \<Longrightarrow> m \<noteq> None \<longleftrightarrow> uses_sasl s"
  by (auto simp: mechanism_def Let_def go_simps split: if_splits)

lemma tls_config_Ok: "tls_config SL s = Ok t \<Longrightarrow> t \<noteq> None \<longleftrightarrow> uses_tls s"
  by (auto simp: tls_config_def go_simps split: if_splits)

lemma tls_config_fields:
  "tls_config SL s = Ok (Some t) \<Longrightarrow>
     tl_min_version t = tls_version_12 \<and> tl_skip_verify t = sc_skip_verify s \<and>
     (sc_ca_file s \<noteq> '''' \<longrightarrow> tl_root_cas t \<noteq> None) \<and>
     (sc_cert_file s \<noteq> '''' \<and> sc_key_file s \<noteq> '''' \<longrightarrow> tl_certificates t \<noteq> [])"
  by (auto simp: tls_config_def root_cas_def certificates_def go_simps split: if_splits option.splits)

text \<open>A secured protocol is never answered with the library's default, plaintext connection.\<close>

lemma build_transport_Ok:
  assumes "build_transport SL s = Ok tp"
  shows "tp = None \<longleftrightarrow> \<not> uses_sasl s \<and> \<not> uses_tls s"
    and "tp = Some t \<Longrightarrow> mechanism SL s = Ok (tp_sasl t) \<and> tls_config SL s = Ok (tp_tls t)"
  using assms mechanism_Ok [of SL s] tls_config_Ok [of SL s]
  by (auto simp: build_transport_def build_def go_simps split: if_splits)

lemma build_dialer_Ok:
  assumes "build_dialer SL s d = Ok dl"
  shows "dl = None \<longleftrightarrow> \<not> uses_sasl s \<and> \<not> uses_tls s"
    and "dl = Some t \<Longrightarrow> mechanism SL s = Ok (dl_sasl t) \<and> tls_config SL s = Ok (dl_tls t)"
  using assms mechanism_Ok [of SL s] tls_config_Ok [of SL s]
  by (auto simp: build_dialer_def build_def go_simps split: if_splits)

lemma tp_secured:
  assumes "build_transport SL s = Ok (Some t)"
  shows "(tp_sasl t \<noteq> None \<longleftrightarrow> uses_sasl s) \<and> (tp_tls t \<noteq> None \<longleftrightarrow> uses_tls s)"
  using build_transport_Ok(2) [OF assms refl] mechanism_Ok tls_config_Ok by blast

lemma dl_secured:
  assumes "build_dialer SL s d = Ok (Some t)"
  shows "(dl_sasl t \<noteq> None \<longleftrightarrow> uses_sasl s) \<and> (dl_tls t \<noteq> None \<longleftrightarrow> uses_tls s)"
  using build_dialer_Ok(2) [OF assms refl] mechanism_Ok tls_config_Ok by blast

lemma new_client_Ok:
  "new_client SL cfg = Ok cl \<longleftrightarrow>
     (\<exists>tp dl. build_transport SL (cg_security cfg) = Ok tp \<and>
        build_dialer SL (cg_security cfg) (cg_admin_timeout cfg) = Ok dl \<and>
        cl = \<lparr>cl_brokers = cg_brokers cfg,
              cl_client = \<lparr>ln_addr = cg_brokers cfg, ln_timeout = cg_admin_timeout cfg, ln_transport = tp\<rparr>,
              cl_dialer = dl\<rparr>)"
  by (auto simp: new_client_def go_simps)

end
