(* ===== verification/ApiAdmin.thy ===== *)
theory ApiAdmin
  imports ApiPublish TopicHealth
begin

text \<open>
  \<open>internal/api/topics.go\<close> (\<open>list_handler\<close>, \<open>describe_handler\<close>) and \<open>internal/api/health.go\<close>
  (\<open>live_handler\<close>, \<open>ready_handler\<close>). The uptime stays in nanoseconds; the code prints it as
  seconds in floating point.
\<close>

section \<open>Topics\<close>

definition to_partition_json :: "partition_metadata \<Rightarrow> partition_json" where
  "to_partition_json p =
     \<lparr>pj_id = pm_id p, pj_leader = pm_leader p, pj_replicas = pm_replicas p, pj_isr = pm_isr p,
      pj_low = pm_low p, pj_high = pm_high p\<rparr>"

definition to_topic_response :: "topic_metadata \<Rightarrow> topic_response" where
  "to_topic_response md =
     \<lparr>tr_name = tm_name md, tr_replication = tm_replication md,
      tr_partitions = map to_partition_json (tm_partitions md)\<rparr>"

definition list_handler :: "'s lister \<Rightarrow> 's \<Rightarrow> ctx \<Rightarrow> 's \<times> response outcome" where
  "list_handler list_uc s c =
     answering (and_then (list_uc s c) id (\<lambda>s topics.
       (s, Ok (respond_json 200 (PTopics topics (length topics))))))"

definition describe_handler :: "'s describer \<Rightarrow> 's \<Rightarrow> ctx \<Rightarrow> string \<Rightarrow> 's \<times> response outcome" where
  "describe_handler describe_uc s c topic =
     answering (and_then (describe_uc s c topic) id (\<lambda>s md.
       (s, Ok (respond_json 200 (PTopic (to_topic_response md))))))"

lemma list_handler_200_iff:
  "rp_status rsp = 200 \<Longrightarrow> list_handler list_uc s c = (s', Ok rsp) \<longleftrightarrow>
    (\<exists>topics. list_uc s c = (s', Ok topics) \<and> rsp = respond_json 200 (PTopics topics (length topics)))"
  by (auto simp: list_handler_def answering_200_iff go_simps)

lemma describe_handler_200_iff:
  "rp_status rsp = 200 \<Longrightarrow> describe_handler describe_uc s c topic = (s', Ok rsp) \<longleftrightarrow>
    (\<exists>md. describe_uc s c topic = (s', Ok md) \<and> rsp = respond_json 200 (PTopic (to_topic_response md)))"
  by (auto simp: describe_handler_def answering_200_iff go_simps)

lemma to_topic_response_ids: "map pj_id (tr_partitions (to_topic_response md)) = map pm_id (tm_partitions md)"
  by (simp add: to_topic_response_def to_partition_json_def o_def)

section \<open>Health\<close>

definition to_health_check :: "dependency_status \<Rightarrow> health_check" where
  "to_health_check d = \<lparr>hc_name = ds_name d, hc_status = ds_status d, hc_error = ds_error d\<rparr>"

definition respond_health :: "health_status \<Rightarrow> response" where
  "respond_health st =
     (let code = (if hs_status st \<noteq> status_ok then 503 else 200);
          checks = (if length (hs_checks st) > 0 then map to_health_check (hs_checks st) else [])
      in respond_json code
           (PHealth \<lparr>hr_status = hs_status st, hr_version = hs_version st, hr_uptime = hs_uptime st,
                     hr_checks = checks\<rparr>))"

definition live_handler :: "('s \<Rightarrow> int) \<Rightarrow> health_service \<Rightarrow> 's \<Rightarrow> 's \<times> response outcome" where
  "live_handler now h s = (s, Ok (respond_health (live h (now s))))"

definition ready_handler ::
  "('s \<Rightarrow> int) \<Rightarrow> health_service \<Rightarrow> (string \<times> 's checker) list \<Rightarrow> 's \<Rightarrow> ctx \<Rightarrow>
     's \<times> response outcome" where
  "ready_handler now h deps s c =
     and_then (ready now h deps s c) id (\<lambda>s st. (s, Ok (respond_health st)))"

lemma respond_health_status [simp]:
  "rp_status (respond_health st) = (if hs_status st = status_ok then 200 else 503)"
  by (simp add: respond_health_def respond_json_def Let_def)

lemma respond_health_body:
  "rp_body (respond_health st) =
     Some (PHealth \<lparr>hr_status = hs_status st, hr_version = hs_version st, hr_uptime = hs_uptime st,
                    hr_checks = map to_health_check (hs_checks st)\<rparr>)"
  by (simp add: respond_health_def respond_json_def encodable_def Let_def)

lemma live_handler_200: "rp_status (respond_health (live h t)) = 200"
  by (simp add: live_def)

text \<open>Not ready exactly when a dependency failed.\<close>

lemma ready_handler_status:
  assumes "ready_handler now h deps s c = (s', Ok rsp)"
  shows "\<exists>st. ready now h deps s c = (s', Ok st) \<and> rsp = respond_health st \<and>
    rp_status rsp = (if \<exists>d \<in> set (hs_checks st). check_failed d then 503 else 200) \<and>
    map ds_name (hs_checks st) = map fst deps"
proof -
  from assms obtain st where st: "ready now h deps s c = (s', Ok st)" "rsp = respond_health st"
    by (auto simp: ready_handler_def go_simps)
  with ready_inv [OF st(1)] show ?thesis by (auto simp: health_inv_def)
qed

end
