(* ===== verification/Jwks.thy ===== *)
theory Jwks
  imports GoErrors GoJson GoTime ServiceTypes "HOL-Library.AList"
begin

text \<open>
  \<open>internal/middleware/jwks.go\<close>: the cached JSON Web Key Set.

  \<open>jwks_key\<close> and \<open>jwks_refresh\<close> are \<open>key\<close> and \<open>refresh\<close> for one goroutine. The clock, the HTTP
  client and the endpoint are parameters (\<open>http_lib\<close>) over a state \<open>'w\<close>: a clock reading may move
  it on. A response is its status and the body that could be read. \<open>jwks_step\<close> is the same
  code for many goroutines: one step for every section under the lock, one for the request.
\<close>

record rsa_key =
  rk_n :: nat
  rk_e :: int

type_synonym key_map = "(string \<times> rsa_key) list"

record jwks =
  jk_keys :: key_map
  jk_fetched_at :: int

record jwks_config =
  jc_url :: string
  jc_client_timeout :: int
  jc_ttl :: int
  jc_min_refresh :: int

record 'w http_lib =
  hl_now :: "'w \<Rightarrow> 'w \<times> int"
  hl_new_request :: "string \<Rightarrow> unit outcome"
  hl_do :: "'w \<Rightarrow> ctx \<Rightarrow> string \<Rightarrow> 'w \<times> (int \<times> string) outcome"

text \<open>The options of \<open>NewJWKS\<close> are functions on the settings; a client is known by its timeout.\<close>

type_synonym jwks_option = "jwks_config \<Rightarrow> jwks_config"

definition with_http_client :: "int \<Rightarrow> jwks_option" where
  "with_http_client timeout j = j\<lparr>jc_client_timeout := timeout\<rparr>"

definition with_ttl :: "int \<Rightarrow> jwks_option" where
  "with_ttl d j = j\<lparr>jc_ttl := d\<rparr>"

definition with_min_refresh :: "int \<Rightarrow> jwks_option" where
  "with_min_refresh d j = j\<lparr>jc_min_refresh := d\<rparr>"

definition new_jwks :: "string \<Rightarrow> jwks_option list \<Rightarrow> jwks_config \<times> jwks" where
  "new_jwks url opts =
     (foldl (\<lambda>j opt. opt j)
        \<lparr>jc_url = url, jc_client_timeout = 10 * ns_per_sec, jc_ttl = 5 * 60 * ns_per_sec,
         jc_min_refresh = 30 * ns_per_sec\<rparr> opts,
      \<lparr>jk_keys = [], jk_fetched_at = zero_time\<rparr>)"

section \<open>The document\<close>

record jwk =
  kw_kty :: string
  kw_kid :: string
  kw_use :: string
  kw_alg :: string
  kw_n :: string
  kw_e :: string

definition empty_jwk :: jwk where
  "empty_jwk = \<lparr>kw_kty = '''', kw_kid = '''', kw_use = '''', kw_alg = '''', kw_n = '''', kw_e = ''''\<rparr>"

definition decode_jwk_member :: "jwk \<Rightarrow> string \<times> string \<times> json \<Rightarrow> jwk option" where
  "decode_jwk_member k member =
     (case member of (name, raw, v) \<Rightarrow>
        (let n = unquote name
         in if equal_fold n ''kty'' then map_option (\<lambda>s. k\<lparr>kw_kty := s\<rparr>) (decode_string (kw_kty k) v)
            else if equal_fold n ''kid'' then map_option (\<lambda>s. k\<lparr>kw_kid := s\<rparr>) (decode_string (kw_kid k) v)
            else if equal_fold n ''use'' then map_option (\<lambda>s. k\<lparr>kw_use := s\<rparr>) (decode_string (kw_use k) v)
            else if equal_fold n ''alg'' then map_option (\<lambda>s. k\<lparr>kw_alg := s\<rparr>) (decode_string (kw_alg k) v)
            else if equal_fold n ''n'' then map_option (\<lambda>s. k\<lparr>kw_n := s\<rparr>) (decode_string (kw_n k) v)
            else if equal_fold n ''e'' then map_option (\<lambda>s. k\<lparr>kw_e := s\<rparr>) (decode_string (kw_e k) v)
            else Some k))"

definition decode_document_member :: "jwk list \<times> nat \<Rightarrow> string \<times> string \<times> json \<Rightarrow> (jwk list \<times> nat) option" where
  "decode_document_member b member =
     (case member of (name, raw, v) \<Rightarrow>
        if equal_fold (unquote name) ''keys''
        then decode_slice (decode_struct decode_jwk_member) empty_jwk b v
        else Some b)"

text \<open>\<open>json.NewDecoder(resp.Body).Decode(&doc)\<close>: the first value of the body.\<close>

definition decode_document :: "string \<Rightarrow> jwk list option" where
  "decode_document body =
     (case parse_json body of
        POk v r \<Rightarrow> map_option (\<lambda>(slots, n). take n slots) (decode_struct decode_document_member ([], 0) v)
      | _ \<Rightarrow> None)"

definition is_rsa_signature_key :: "jwk \<Rightarrow> bool" where
  "is_rsa_signature_key k \<longleftrightarrow> kw_kty k = ''RSA'' \<and> (kw_use k = '''' \<or> kw_use k = ''sig'')"

text \<open>\<open>big.Int.Int64\<close> of an exponent that does not fit keeps the low 64 bits.\<close>

definition rsa_public_key :: "jwk \<Rightarrow> rsa_key outcome" where
  "rsa_public_key k =
     (case b64url_raw_decode (kw_n k) of
        None \<Rightarrow> Err (Errorf [A (Lit ''decode modulus: ''), W (LibError ''illegal base64 data'' [])])
      | Some n \<Rightarrow>
          (case b64url_raw_decode (kw_e k) of
             None \<Rightarrow> Err (Errorf [A (Lit ''decode exponent: ''), W (LibError ''illegal base64 data'' [])])
           | Some e \<Rightarrow>
               if length n = 0 \<or> length e = 0 then Err (Errorf [A (Lit ''empty modulus or exponent'')])
               else Ok \<lparr>rk_n = big_endian 0 n, rk_e = wrap64 (int (big_endian 0 e))\<rparr>))"

fun collect_keys :: "jwk list \<Rightarrow> key_map \<Rightarrow> key_map outcome" where
  "collect_keys [] keys = Ok keys"
| "collect_keys (k # ks) keys =
     (if \<not> is_rsa_signature_key k then collect_keys ks keys
      else
        (case rsa_public_key k of
           Err e \<Rightarrow> Err (Errorf [A (Lit ''jwks key ''), A (Quo (kw_kid k)), A (Lit '': ''), W e])
         | Panic p \<Rightarrow> Panic p
         | Ok pub \<Rightarrow> collect_keys ks (AList.update (kw_kid k) pub keys)))"

text \<open>What a response gives: the new key set, or why there is none.\<close>

definition keys_of_response :: "string \<Rightarrow> int \<times> string \<Rightarrow> key_map outcome" where
  "keys_of_response url resp =
     (if fst resp \<noteq> 200 then Err (Errorf [A (Lit ''fetch jwks: unexpected status ''), A (Num (fst resp))])
      else
        (case decode_document (snd resp) of
           None \<Rightarrow> Err (Errorf [A (Lit ''decode jwks: ''), W (LibError ''invalid JSON'' [])])
         | Some doc \<Rightarrow>
             try_then (collect_keys doc []) (\<lambda>keys.
               if keys = [] then Err (Errorf [A (Lit ''jwks at ''), A (Lit url), A (Lit '' contained no usable RSA keys'')])
               else Ok keys)))"

section \<open>One goroutine\<close>

definition fetch_keys :: "'w http_lib \<Rightarrow> jwks_config \<Rightarrow> 'w \<Rightarrow> 'w \<times> key_map outcome" where
  "fetch_keys H cfg w =
     (case hl_now H w of (w, t) \<Rightarrow>
        and_then (w, hl_new_request H (jc_url cfg)) (\<lambda>e. Errorf [A (Lit ''build jwks request: ''), W e])
          (\<lambda>w u. and_then (hl_do H w (with_timeout t \<lparr>ctx_deadline = None\<rparr> (jc_client_timeout cfg)) (jc_url cfg))
             (\<lambda>e. Errorf [A (Lit ''fetch jwks: ''), W e])
             (\<lambda>w resp. (w, keys_of_response (jc_url cfg) resp))))"

definition jwks_refresh :: "'w http_lib \<Rightarrow> jwks_config \<Rightarrow> jwks \<times> 'w \<Rightarrow> (jwks \<times> 'w) \<times> unit outcome" where
  "jwks_refresh H cfg jw =
     (case jw of (j, w) \<Rightarrow>
        (case hl_now H w of (w1, t1) \<Rightarrow>
           if jk_keys j \<noteq> [] \<and> sat64 (t1 - jk_fetched_at j) < jc_min_refresh cfg then ((j, w1), Ok ())
           else
             (case fetch_keys H cfg w1 of
                (w2, Ok keys) \<Rightarrow>
                  (case hl_now H w2 of (w3, t3) \<Rightarrow> ((\<lparr>jk_keys = keys, jk_fetched_at = t3\<rparr>, w3), Ok ()))
              | (w2, Err e) \<Rightarrow> ((j, w2), Err e)
              | (w2, Panic p) \<Rightarrow> ((j, w2), Panic p))))"

definition no_key :: "string \<Rightarrow> goerr" where
  "no_key kid = Errorf [A (Lit ''no JWKS key for kid ''), A (Quo kid)]"

definition jwks_key :: "'w http_lib \<Rightarrow> jwks_config \<Rightarrow> jwks \<times> 'w \<Rightarrow> string \<Rightarrow> (jwks \<times> 'w) \<times> rsa_key outcome" where
  "jwks_key H cfg jw kid =
     (case jw of (j, w) \<Rightarrow>
        (case hl_now H w of (w1, t1) \<Rightarrow>
           (let cached = map_of (jk_keys j) kid; fresh = sat64 (t1 - jk_fetched_at j) < jc_ttl cfg
            in if cached \<noteq> None \<and> fresh then ((j, w1), Ok (the cached))
               else
                 (case jwks_refresh H cfg (j, w1) of
                    (jw', Err e) \<Rightarrow> (jw', (case cached of Some k \<Rightarrow> Ok k | None \<Rightarrow> Err e))
                  | (jw', Panic p) \<Rightarrow> (jw', Panic p)
                  | (jw', Ok u) \<Rightarrow>
                      (jw', (case map_of (jk_keys (fst jw')) kid of Some k \<Rightarrow> Ok k | None \<Rightarrow> Err (no_key kid)))))))"

text \<open>\<open>Keyfunc\<close>: a \<open>kid\<close> header that is missing or not a string is the empty kid.\<close>

definition jwks_keyfunc :: "'w http_lib \<Rightarrow> jwks_config \<Rightarrow> jwks \<times> 'w \<Rightarrow> string option \<Rightarrow>
    (jwks \<times> 'w) \<times> rsa_key outcome" where
  "jwks_keyfunc H cfg jw kid = jwks_key H cfg jw (case kid of Some k \<Rightarrow> k | None \<Rightarrow> '''')"

section \<open>Lemmas on one goroutine\<close>

lemma jwks_refresh_cases:
  assumes "jwks_refresh H cfg (j, w) = ((j', w'), r)"
  obtains (kept) "j' = j"
  | (stored) w1 w2 keys t where "fetch_keys H cfg w1 = (w2, Ok keys)"
      "j' = \<lparr>jk_keys = keys, jk_fetched_at = t\<rparr>" "r = Ok ()" "hl_now H w2 = (w', t)"
  using assms by (auto simp: jwks_refresh_def split: prod.splits outcome.splits if_splits)

lemma keys_of_response_nonempty: "keys_of_response url resp = Ok keys \<Longrightarrow> keys \<noteq> []"
  by (auto simp: keys_of_response_def go_simps split: if_splits option.splits)

lemma fetch_keys_nonempty: "fetch_keys H cfg w = (w', Ok keys) \<Longrightarrow> keys \<noteq> []"
  by (auto simp: fetch_keys_def go_simps dest: keys_of_response_nonempty split: prod.splits)

text \<open>Every key of a collected set is the key of an entry of the document with that \<open>kid\<close>, of
  RSA type and meant for signatures.\<close>

lemma collect_keys_sound:
  assumes "collect_keys ks keys0 = Ok keys" and "map_of keys kid = Some pub"
  shows "map_of keys0 kid = Some pub \<or>
    (\<exists>k \<in> set ks. kw_kid k = kid \<and> is_rsa_signature_key k \<and> rsa_public_key k = Ok pub)"
  using assms
proof (induction ks arbitrary: keys0)
  case Nil
  then show ?case by simp
next
  case (Cons k ks)
  show ?case
  proof (cases "is_rsa_signature_key k")
    case False
    with Cons show ?thesis by fastforce
  next
    case True
    with Cons.prems(1) obtain p where p: "rsa_public_key k = Ok p"
      and rest: "collect_keys ks (AList.update (kw_kid k) p keys0) = Ok keys"
      by (auto split: outcome.splits)
    from Cons.IH [OF rest Cons.prems(2)] p True show ?thesis
      by (auto simp: update_conv' split: if_splits)
  qed
qed

lemma keys_of_response_sound:
  assumes "keys_of_response url resp = Ok keys" and "map_of keys kid = Some pub"
  obtains doc k where "decode_document (snd resp) = Some doc" and "k \<in> set doc" and "kw_kid k = kid"
    and "is_rsa_signature_key k" and "rsa_public_key k = Ok pub"
proof -
  from assms(1) obtain doc where "decode_document (snd resp) = Some doc" "collect_keys doc [] = Ok keys"
    by (auto simp: keys_of_response_def go_simps split: if_splits option.splits)
  with collect_keys_sound [OF this(2) assms(2)] that show thesis by auto
qed

text \<open>A key that is cached is always answered with a key, whatever the endpoint does, unless a
  newer set without it was stored.\<close>

lemma jwks_key_cached:
  assumes "map_of (jk_keys j) kid = Some k" and "jwks_key H cfg (j, w) kid = ((j', w'), r)"
  shows "(\<exists>p. r = Panic p) \<or> r = Ok k \<or>
    (\<exists>w1 w2 keys. fetch_keys H cfg w1 = (w2, Ok keys) \<and> jk_keys j' = keys \<and>
       r = (case map_of keys kid of Some k' \<Rightarrow> Ok k' | None \<Rightarrow> Err (no_key kid)))"
proof -
  obtain w1 t1 where now: "hl_now H w = (w1, t1)" by force
  obtain j1 w2 x where rf: "jwks_refresh H cfg (j, w1) = ((j1, w2), x)" by (metis surj_pair)
  show ?thesis
  proof (cases "sat64 (t1 - jk_fetched_at j) < jc_ttl cfg")
    case True
    with assms now show ?thesis by (simp add: jwks_key_def)
  next
    case False
    then have r: "j' = j1" "r = (case x of Err e \<Rightarrow> Ok k | Panic p \<Rightarrow> Panic p
        | Ok u \<Rightarrow> (case map_of (jk_keys j1) kid of Some k' \<Rightarrow> Ok k' | None \<Rightarrow> Err (no_key kid)))"
      using assms now rf by (auto simp: jwks_key_def split: outcome.splits)
    from rf show ?thesis
    proof (cases rule: jwks_refresh_cases)
      case kept
      with r assms(1) show ?thesis by (cases x) simp_all
    next
      case (stored v1 v2 keys t)
      with r show ?thesis by auto
    qed
  qed
qed

section \<open>Many goroutines\<close>

text \<open>
  A goroutine in \<open>key\<close>: it has not looked yet, has looked and found this entry, is waiting for the
  endpoint, holds a new set it has not stored, is back from a refresh that did not fail, or is
  done. The state is the shared cache, the goroutines, and the responses the endpoint has given.
  The clock may read any value at any step.
\<close>

datatype pc =
    Idle
  | Looked string "rsa_key option"
  | Fetching string "rsa_key option"
  | Fetched string key_map
  | Refreshed string
  | Answered string "rsa_key outcome"

record resolver =
  rv_jwks :: jwks
  rv_pcs :: "nat \<Rightarrow> pc"
  rv_responses :: "(int \<times> string) list"

definition goto :: "nat \<Rightarrow> pc \<Rightarrow> resolver \<Rightarrow> resolver" where
  "goto i p s = s\<lparr>rv_pcs := (rv_pcs s)(i := p)\<rparr>"

definition fresh_at :: "jwks_config \<Rightarrow> jwks \<Rightarrow> int \<Rightarrow> bool" where
  "fresh_at cfg j t \<longleftrightarrow> sat64 (t - jk_fetched_at j) < jc_ttl cfg"

definition too_soon_at :: "jwks_config \<Rightarrow> jwks \<Rightarrow> int \<Rightarrow> bool" where
  "too_soon_at cfg j t \<longleftrightarrow> jk_keys j \<noteq> [] \<and> sat64 (t - jk_fetched_at j) < jc_min_refresh cfg"

definition cached_or :: "goerr \<Rightarrow> rsa_key option \<Rightarrow> rsa_key outcome" where
  "cached_or e cached = (case cached of Some k \<Rightarrow> Ok k | None \<Rightarrow> Err e)"

inductive jwks_step :: "jwks_config \<Rightarrow> resolver \<Rightarrow> resolver \<Rightarrow> bool" for cfg where
  hit: "rv_pcs s i = Idle \<Longrightarrow> map_of (jk_keys (rv_jwks s)) kid = Some k \<Longrightarrow> fresh_at cfg (rv_jwks s) t \<Longrightarrow>
    jwks_step cfg s (goto i (Answered kid (Ok k)) s)"
| miss: "rv_pcs s i = Idle \<Longrightarrow> cached = map_of (jk_keys (rv_jwks s)) kid \<Longrightarrow>
    \<not> (cached \<noteq> None \<and> fresh_at cfg (rv_jwks s) t) \<Longrightarrow> jwks_step cfg s (goto i (Looked kid cached) s)"
| skip: "rv_pcs s i = Looked kid cached \<Longrightarrow> too_soon_at cfg (rv_jwks s) t \<Longrightarrow>
    jwks_step cfg s (goto i (Refreshed kid) s)"
| request: "rv_pcs s i = Looked kid cached \<Longrightarrow> \<not> too_soon_at cfg (rv_jwks s) t \<Longrightarrow>
    jwks_step cfg s (goto i (Fetching kid cached) s)"
| receive: "rv_pcs s i = Fetching kid cached \<Longrightarrow> keys_of_response (jc_url cfg) resp = Ok keys \<Longrightarrow>
    jwks_step cfg s (goto i (Fetched kid keys) (s\<lparr>rv_responses := resp # rv_responses s\<rparr>))"
| fail: "rv_pcs s i = Fetching kid cached \<Longrightarrow>
    jwks_step cfg s (goto i (Answered kid (cached_or e cached)) s)"
| store: "rv_pcs s i = Fetched kid keys \<Longrightarrow>
    jwks_step cfg s (goto i (Refreshed kid) (s\<lparr>rv_jwks := \<lparr>jk_keys = keys, jk_fetched_at = t\<rparr>\<rparr>))"
| answer: "rv_pcs s i = Refreshed kid \<Longrightarrow>
    jwks_step cfg s (goto i (Answered kid (cached_or (no_key kid) (map_of (jk_keys (rv_jwks s)) kid))) s)"
| return: "rv_pcs s i = Answered kid r \<Longrightarrow> jwks_step cfg s (goto i Idle s)"

definition initial_resolver :: "resolver \<Rightarrow> bool" where
  "initial_resolver s \<longleftrightarrow>
     jk_keys (rv_jwks s) = [] \<and> rv_responses s = [] \<and> (\<forall>i. rv_pcs s i = Idle)"

text \<open>\<open>kid\<close> names \<open>k\<close> in a key set the endpoint has given.\<close>

definition published :: "jwks_config \<Rightarrow> resolver \<Rightarrow> string \<Rightarrow> rsa_key \<Rightarrow> bool" where
  "published cfg s kid k \<longleftrightarrow>
     (\<exists>resp \<in> set (rv_responses s). \<exists>keys.
        keys_of_response (jc_url cfg) resp = Ok keys \<and> map_of keys kid = Some k)"

fun pc_sound :: "jwks_config \<Rightarrow> resolver \<Rightarrow> pc \<Rightarrow> bool" where
  "pc_sound cfg s (Looked kid cached) \<longleftrightarrow> (\<forall>k. cached = Some k \<longrightarrow> published cfg s kid k)"
| "pc_sound cfg s (Fetching kid cached) \<longleftrightarrow> (\<forall>k. cached = Some k \<longrightarrow> published cfg s kid k)"
| "pc_sound cfg s (Fetched kid keys) \<longleftrightarrow> (\<forall>kid k. map_of keys kid = Some k \<longrightarrow> published cfg s kid k)"
| "pc_sound cfg s (Answered kid r) \<longleftrightarrow> (\<forall>k. r = Ok k \<longrightarrow> published cfg s kid k)"
| "pc_sound cfg s _ \<longleftrightarrow> True"

definition resolver_inv :: "jwks_config \<Rightarrow> resolver \<Rightarrow> bool" where
  "resolver_inv cfg s \<longleftrightarrow>
     (\<forall>kid k. map_of (jk_keys (rv_jwks s)) kid = Some k \<longrightarrow> published cfg s kid k) \<and>
     (\<forall>i. pc_sound cfg s (rv_pcs s i))"

lemma goto_simps [simp]:
  "rv_jwks (goto i p s) = rv_jwks s" "rv_responses (goto i p s) = rv_responses s"
  "rv_pcs (goto i p s) = (rv_pcs s)(i := p)"
  by (simp_all add: goto_def)

lemma published_responses:
  "rv_responses s' = rv_responses s \<Longrightarrow> published cfg s' kid k = published cfg s kid k"
  by (simp add: published_def)

lemma published_mono:
  "published cfg s kid k \<Longrightarrow> set (rv_responses s) \<subseteq> set (rv_responses s') \<Longrightarrow> published cfg s' kid k"
  by (auto simp: published_def)

lemma pc_sound_mono:
  "pc_sound cfg s p \<Longrightarrow> set (rv_responses s) \<subseteq> set (rv_responses s') \<Longrightarrow> pc_sound cfg s' p"
  by (cases p) (auto intro: published_mono)

lemma cached_or_Ok_iff [simp]: "cached_or e cached = Ok k \<longleftrightarrow> cached = Some k"
  by (auto simp: cached_or_def split: option.splits)

lemma resolver_inv_intro:
  assumes "resolver_inv cfg s" and "set (rv_responses s) \<subseteq> set (rv_responses s')"
    and "\<And>kid k. map_of (jk_keys (rv_jwks s')) kid = Some k \<Longrightarrow> published cfg s' kid k"
    and "rv_pcs s' = (rv_pcs s)(i := p)" and "pc_sound cfg s' p"
  shows "resolver_inv cfg s'"
  using assms by (auto simp: resolver_inv_def intro: pc_sound_mono)

lemma resolver_inv_step: "jwks_step cfg s s' \<Longrightarrow> resolver_inv cfg s \<Longrightarrow> resolver_inv cfg s'"
proof (induction rule: jwks_step.induct)
  case (receive s i kid cached resp keys)
  let ?s' = "goto i (Fetched kid keys) (s\<lparr>rv_responses := resp # rv_responses s\<rparr>)"
  have "published cfg ?s' kid' k" if "map_of keys kid' = Some k" for kid' k
    using that receive(2) by (auto simp: published_def)
  moreover have "published cfg ?s' kid' k" if "map_of (jk_keys (rv_jwks s)) kid' = Some k" for kid' k
    using that receive(3) by (auto simp: resolver_inv_def published_def)
  ultimately show ?case
    by (intro resolver_inv_intro [OF receive(3), of _ i]) auto
next
  case (store s i kid keys t)
  let ?s' = "goto i (Refreshed kid) (s\<lparr>rv_jwks := \<lparr>jk_keys = keys, jk_fetched_at = t\<rparr>\<rparr>)"
  have "pc_sound cfg s (Fetched kid keys)"
    using store by (metis resolver_inv_def)
  then have "published cfg ?s' kid' k" if "map_of keys kid' = Some k" for kid' k
    using that by (simp add: published_responses [of ?s' s])
  then show ?case by (intro resolver_inv_intro [OF store(2), of _ i]) auto
next
  case (fail s i kid cached e)
  then have "pc_sound cfg s (Fetching kid cached)" by (metis resolver_inv_def)
  with fail(2) show ?case
    by (intro resolver_inv_intro [OF fail(2), of _ i])
      (auto simp: resolver_inv_def published_def)
next
  case (request s i kid cached t)
  then have "pc_sound cfg s (Looked kid cached)" by (metis resolver_inv_def)
  with request(3) show ?case
    by (intro resolver_inv_intro [OF request(3), of _ i])
      (auto simp: resolver_inv_def published_def)
qed (rule resolver_inv_intro, assumption, simp, simp add: resolver_inv_def published_def,
     simp, simp add: resolver_inv_def published_def)+

lemma resolver_inv_reachable:
  "(jwks_step cfg)\<^sup>*\<^sup>* s s' \<Longrightarrow> initial_resolver s \<Longrightarrow> resolver_inv cfg s'"
proof (induction rule: rtranclp_induct)
  case base
  then show ?case by (auto simp: initial_resolver_def resolver_inv_def)
next
  case (step s1 s2)
  then show ?case by (blast intro: resolver_inv_step)
qed

lemma answered_published:
  assumes "(jwks_step cfg)\<^sup>*\<^sup>* s s'" and "initial_resolver s" and "rv_pcs s' i = Answered kid (Ok k)"
  shows "published cfg s' kid k"
proof -
  have "pc_sound cfg s' (rv_pcs s' i)"
    using resolver_inv_reachable [OF assms(1,2)] by (simp add: resolver_inv_def)
  with assms(3) show ?thesis by simp
qed

section \<open>Lookups end\<close>

text \<open>How many steps of its own a lookup has left at most; 0 when there is none, or it has answered.\<close>

fun steps_left :: "pc \<Rightarrow> nat" where
  "steps_left (Looked kid cached) = 4"
| "steps_left (Fetching kid cached) = 3"
| "steps_left (Fetched kid keys) = 2"
| "steps_left (Refreshed kid) = 1"
| "steps_left _ = 0"

lemma step_moves_on:
  assumes "jwks_step cfg s s'" and "steps_left (rv_pcs s i) \<noteq> 0"
  shows "rv_pcs s' i = rv_pcs s i \<or> steps_left (rv_pcs s' i) < steps_left (rv_pcs s i)"
  using assms by (induction rule: jwks_step.induct) (auto split: if_splits)

lemma step_enabled:
  assumes "steps_left (rv_pcs s i) \<noteq> 0"
  shows "\<exists>s'. jwks_step cfg s s' \<and> steps_left (rv_pcs s' i) < steps_left (rv_pcs s i) \<and>
    (\<forall>k. k \<noteq> i \<longrightarrow> rv_pcs s' k = rv_pcs s k)"
proof (cases "rv_pcs s i")
  case (Looked kid cached)
  show ?thesis
  proof (cases "too_soon_at cfg (rv_jwks s) 0")
    case True
    from jwks_step.skip [OF Looked this] Looked show ?thesis by fastforce
  next
    case False
    from jwks_step.request [OF Looked this] Looked show ?thesis by fastforce
  qed
next
  case (Fetching kid cached)
  from jwks_step.fail [OF Fetching] Fetching show ?thesis by fastforce
next
  case (Fetched kid keys)
  from jwks_step.store [OF Fetched] Fetched show ?thesis by fastforce
next
  case (Refreshed kid)
  from jwks_step.answer [OF Refreshed] Refreshed show ?thesis by fastforce
qed (use assms in simp_all)

text \<open>When a lookup has used up its steps it has answered, not gone back to the start.\<close>

lemma lookup_end:
  assumes "jwks_step cfg s s'" and "steps_left (rv_pcs s i) \<noteq> 0" and "steps_left (rv_pcs s' i) = 0"
  shows "\<exists>kid r. rv_pcs s' i = Answered kid r"
  using assms by (induction rule: jwks_step.induct) (auto split: if_splits)

section \<open>One goroutine is a run of steps\<close>

lemma fetch_keys_response:
  "fetch_keys H cfg w = (w', Ok keys) \<Longrightarrow> \<exists>resp. keys_of_response (jc_url cfg) resp = Ok keys"
  by (auto simp: fetch_keys_def go_simps split: prod.splits)

definition at_pc :: "nat \<Rightarrow> pc \<Rightarrow> jwks \<Rightarrow> resolver \<Rightarrow> resolver \<Rightarrow> bool" where
  "at_pc i p j s s' \<longleftrightarrow> rv_jwks s' = j \<and> rv_pcs s' = (rv_pcs s)(i := p)"

lemma at_pc_step: "jwks_step cfg s s' \<Longrightarrow> at_pc i p j s s' \<Longrightarrow> \<exists>s'. (jwks_step cfg)\<^sup>*\<^sup>* s s' \<and> at_pc i p j s s'"
  by blast

lemma at_pc_trans:
  "(jwks_step cfg)\<^sup>*\<^sup>* s s1 \<Longrightarrow> at_pc i p j s s1 \<Longrightarrow>
   \<exists>s2. (jwks_step cfg)\<^sup>*\<^sup>* s1 s2 \<and> at_pc i q j' s1 s2 \<Longrightarrow>
   \<exists>s2. (jwks_step cfg)\<^sup>*\<^sup>* s s2 \<and> at_pc i q j' s s2"
  by (auto simp: at_pc_def intro: rtranclp_trans)

lemma refreshed_answers:
  "rv_pcs s i = Refreshed kid \<Longrightarrow>
     \<exists>s'. (jwks_step cfg)\<^sup>*\<^sup>* s s' \<and>
       at_pc i (Answered kid (cached_or (no_key kid) (map_of (jk_keys (rv_jwks s)) kid))) (rv_jwks s) s s'"
  by (rule at_pc_step, erule answer) (simp add: at_pc_def)

text \<open>A fetch that succeeded: its answer is received, then stored.\<close>

lemma fetch_simulated:
  assumes "keys_of_response (jc_url cfg) resp = Ok keys" and "rv_pcs s i = Fetching kid cached"
  shows "\<exists>s'. (jwks_step cfg)\<^sup>*\<^sup>* s s' \<and>
    at_pc i (Refreshed kid) \<lparr>jk_keys = keys, jk_fetched_at = t\<rparr> s s'"
proof -
  let ?s1 = "goto i (Fetched kid keys) (s\<lparr>rv_responses := resp # rv_responses s\<rparr>)"
  let ?s2 = "goto i (Refreshed kid) (?s1\<lparr>rv_jwks := \<lparr>jk_keys = keys, jk_fetched_at = t\<rparr>\<rparr>)"
  have "jwks_step cfg s ?s1" by (rule receive [OF assms(2,1)])
  moreover have "jwks_step cfg ?s1 ?s2" by (rule store) simp
  ultimately have "(jwks_step cfg)\<^sup>*\<^sup>* s ?s2" by (meson converse_rtranclp_into_rtranclp r_into_rtranclp)
  moreover have "at_pc i (Refreshed kid) \<lparr>jk_keys = keys, jk_fetched_at = t\<rparr> s ?s2"
    by (simp add: at_pc_def goto_def)
  ultimately show ?thesis by blast
qed

lemma refresh_simulated:
  assumes "jwks_refresh H cfg (j, w) = ((j', w'), x)" and "rv_pcs s i = Looked kid cached"
    and "rv_jwks s = j" and "\<And>p. x \<noteq> Panic p"
  shows "\<exists>s'. (jwks_step cfg)\<^sup>*\<^sup>* s s' \<and>
    at_pc i (case x of Err e \<Rightarrow> Answered kid (cached_or e cached) | _ \<Rightarrow> Refreshed kid) j' s s'"
proof -
  obtain w1 t1 where now: "hl_now H w = (w1, t1)" by force
  show ?thesis
  proof (cases "too_soon_at cfg j t1")
    case True
    with assms(1) now have "x = Ok ()" "j' = j" by (auto simp: jwks_refresh_def too_soon_at_def)
    with True assms show ?thesis
      by (intro at_pc_step) (rule skip, auto simp: at_pc_def)
  next
    case False
    let ?s1 = "goto i (Fetching kid cached) s"
    have req: "(jwks_step cfg)\<^sup>*\<^sup>* s ?s1" "at_pc i (Fetching kid cached) j s ?s1"
      using False assms(2,3) by (auto simp: at_pc_def intro!: r_into_rtranclp request)
    obtain w2 f where f: "fetch_keys H cfg w1 = (w2, f)" by force
    have later: "\<exists>s2. (jwks_step cfg)\<^sup>*\<^sup>* ?s1 s2 \<and>
      at_pc i (case x of Err e \<Rightarrow> Answered kid (cached_or e cached) | _ \<Rightarrow> Refreshed kid) j' ?s1 s2"
    proof (cases f)
      case (Ok keys)
      with f obtain resp where "keys_of_response (jc_url cfg) resp = Ok keys"
        using fetch_keys_response [of H cfg w1 w2 keys] by auto
      moreover obtain t3 where "x = Ok ()" "j' = \<lparr>jk_keys = keys, jk_fetched_at = t3\<rparr>"
        using assms(1) now f Ok False by (auto simp: jwks_refresh_def too_soon_at_def split: prod.splits if_splits)
      ultimately show ?thesis using fetch_simulated [of cfg resp keys ?s1 i kid cached t3] by simp
    next
      case (Err e)
      then have "x = Err e" "j' = j"
        using assms(1) now f False by (auto simp: jwks_refresh_def too_soon_at_def split: if_splits)
      with assms(3) show ?thesis
        by (intro at_pc_step) (rule fail [where i = i and kid = kid and cached = cached and e = e], auto simp: at_pc_def)
    next
      case (Panic p)
      then have "x = Panic p"
        using assms(1) now f False by (auto simp: jwks_refresh_def too_soon_at_def split: if_splits)
      with assms(4) [of p] show ?thesis by simp
    qed
    show ?thesis by (rule at_pc_trans [OF req later])
  qed
qed

text \<open>The rest of a lookup, from the result of its refresh to its answer.\<close>

definition lookup_result :: "string \<Rightarrow> rsa_key option \<Rightarrow> jwks \<Rightarrow> unit outcome \<Rightarrow> rsa_key outcome" where
  "lookup_result kid cached j x =
     (case x of Err e \<Rightarrow> cached_or e cached | Panic p \<Rightarrow> Panic p
      | Ok u \<Rightarrow> cached_or (no_key kid) (map_of (jk_keys j) kid))"

lemma lookup_simulated:
  assumes "jwks_refresh H cfg (j, w) = ((j', w'), x)" and "rv_pcs s i = Looked kid cached"
    and "rv_jwks s = j" and "\<And>p. lookup_result kid cached j' x \<noteq> Panic p"
  shows "\<exists>s'. (jwks_step cfg)\<^sup>*\<^sup>* s s' \<and> at_pc i (Answered kid (lookup_result kid cached j' x)) j' s s'"
proof -
  have nopanic: "x \<noteq> Panic p" for p using assms(4) [of p] by (auto simp: lookup_result_def)
  obtain s2 where s2: "(jwks_step cfg)\<^sup>*\<^sup>* s s2"
    "at_pc i (case x of Err e \<Rightarrow> Answered kid (cached_or e cached) | _ \<Rightarrow> Refreshed kid) j' s s2"
    using refresh_simulated [OF assms(1-3) nopanic] by blast
  show ?thesis
  proof (cases x)
    case (Ok u)
    with s2 have "rv_pcs s2 i = Refreshed kid" and j': "rv_jwks s2 = j'" by (auto simp: at_pc_def)
    from refreshed_answers [OF this(1), of cfg] Ok j'
    have "\<exists>s3. (jwks_step cfg)\<^sup>*\<^sup>* s2 s3 \<and> at_pc i (Answered kid (lookup_result kid cached j' x)) j' s2 s3"
      by (simp add: lookup_result_def)
    then show ?thesis by (rule at_pc_trans [OF s2])
  next
    case (Err e)
    with s2 show ?thesis by (auto simp: lookup_result_def)
  next
    case (Panic p)
    with nopanic [of p] show ?thesis by simp
  qed
qed

lemma jwks_key_simulated:
  assumes "jwks_key H cfg (j, w) kid = ((j', w'), r)" and "\<And>p. r \<noteq> Panic p"
    and "rv_pcs s i = Idle" and "rv_jwks s = j"
  shows "\<exists>s'. (jwks_step cfg)\<^sup>*\<^sup>* s s' \<and> at_pc i (Answered kid r) j' s s'"
proof -
  obtain w1 t1 where now: "hl_now H w = (w1, t1)" by force
  let ?cached = "map_of (jk_keys j) kid"
  show ?thesis
  proof (cases "?cached \<noteq> None \<and> fresh_at cfg j t1")
    case True
    then obtain k where k: "?cached = Some k" by auto
    with True assms(1) now have "r = Ok k" "j' = j" by (auto simp: jwks_key_def fresh_at_def)
    with True k assms(3,4) show ?thesis
      by (intro at_pc_step) (rule hit [where i = i and kid = kid and k = k], auto simp: at_pc_def)
  next
    case False
    let ?s1 = "goto i (Looked kid ?cached) s"
    have "jwks_step cfg s ?s1"
      by (rule miss [where t = t1]) (use False assms in auto)
    then have look: "(jwks_step cfg)\<^sup>*\<^sup>* s ?s1" "at_pc i (Looked kid ?cached) j s ?s1"
      using assms(4) by (auto simp: at_pc_def)
    obtain j1 w2 x where rf: "jwks_refresh H cfg (j, w1) = ((j1, w2), x)" by (metis surj_pair)
    have r: "j' = j1" "r = lookup_result kid ?cached j1 x"
      using assms(1) now rf False
      by (auto simp: jwks_key_def fresh_at_def cached_or_def lookup_result_def
          split: outcome.splits if_splits option.splits)
    have "\<exists>s3. (jwks_step cfg)\<^sup>*\<^sup>* ?s1 s3 \<and> at_pc i (Answered kid r) j' ?s1 s3"
      using lookup_simulated [OF rf, of ?s1 i kid ?cached] assms(2,4) r by simp
    then show ?thesis by (rule at_pc_trans [OF look])
  qed
qed

section \<open>The refresh floor\<close>

text \<open>Inside the floor after a refresh that succeeded, a lookup never reaches the endpoint. Without
  keys the floor does not apply: every lookup asks the endpoint.\<close>

lemma refresh_floor:
  assumes "hl_now H w = (w1, t)" and "jk_keys j \<noteq> []" and "sat64 (t - jk_fetched_at j) < jc_min_refresh cfg"
  shows "jwks_refresh H cfg (j, w) = ((j, w1), Ok ())"
  using assms by (simp add: jwks_refresh_def)

lemma refresh_without_keys:
  assumes "hl_now H w = (w1, t)" and "jk_keys j = []" and "fetch_keys H cfg w1 = (w2, Err e)"
  shows "jwks_refresh H cfg (j, w) = ((j, w2), Err e)"
  using assms by (simp add: jwks_refresh_def)

end
