(* ===== verification/Auth.thy ===== *)
theory Auth
  imports ApiAdmin Jwks
begin

text \<open>
  \<open>internal/middleware/auth.go\<close> (\<open>bearer_token\<close>, \<open>jwt_auth\<close>) and \<open>keyfunc.go\<close> (\<open>new_keyfunc\<close>).

  The JWT library is a parameter (\<open>jwt_parse\<close>): given the parser options, the key resolver and a
  token it gives the subject of the claims, or an error; it may call the resolver, so it runs
  over the resolver's state. The middleware holds the library with its \<open>Keyfunc\<close> supplied
  (\<open>jwt_verify\<close>). Reading a file and parsing a PEM key are parameters too.
\<close>

record http_request =
  hq_method :: string
  hq_path :: string
  hq_authorization :: "string list"
  hq_query :: url_values
  hq_body :: string
  hq_ctx :: ctx
  hq_subject :: "string option"
  hq_remote_addr :: string

type_synonym 's handler = "'s \<Rightarrow> http_request \<Rightarrow> 's \<times> response outcome"

record jwt_options =
  jo_methods :: "string list"
  jo_issuer :: "string option"
  jo_audience :: "string option"

type_synonym ('s, 'k) keyfunc = "'s \<Rightarrow> string option \<Rightarrow> 's \<times> 'k outcome"

type_synonym ('s, 'k) jwt_parse =
  "jwt_options \<Rightarrow> ('s, 'k) keyfunc \<Rightarrow> 's \<Rightarrow> string \<Rightarrow> 's \<times> string outcome"

type_synonym 's jwt_verify = "jwt_options \<Rightarrow> 's \<Rightarrow> string \<Rightarrow> 's \<times> string outcome"

record jwt_config =
  jt_algorithms :: "string list"
  jt_issuer :: string
  jt_audience :: string

section \<open>The middleware\<close>

definition subject :: "http_request \<Rightarrow> string" where
  "subject req = (case hq_subject req of Some v \<Rightarrow> v | None \<Rightarrow> '''')"

definition header_get :: "string list \<Rightarrow> string" where
  "header_get vs = (case vs of [] \<Rightarrow> '''' | v # _ \<Rightarrow> v)"

text \<open>The token, or the message of the refusal.\<close>

definition bearer_token :: "http_request \<Rightarrow> string + string" where
  "bearer_token req =
     (let h = header_get (hq_authorization req)
      in if h = '''' then Inr ''missing Authorization header''
         else
           (case cut (CHR '' '') h of
              None \<Rightarrow> Inr (''Authorization header must be '' @ apos ''Bearer <token>'')
            | Some (scheme, token) \<Rightarrow>
                if \<not> equal_fold scheme ''Bearer'' \<or> trim_space token = ''''
                then Inr (''Authorization header must be '' @ apos ''Bearer <token>'')
                else Inl (trim_space token)))"

definition write_auth_error :: "string \<Rightarrow> response" where
  "write_auth_error msg = respond_json 401 (PError ''unauthorized'' [Lit msg])"

definition parser_options :: "jwt_config \<Rightarrow> jwt_options" where
  "parser_options cfg =
     \<lparr>jo_methods = jt_algorithms cfg,
      jo_issuer = (if jt_issuer cfg \<noteq> '''' then Some (jt_issuer cfg) else None),
      jo_audience = (if jt_audience cfg \<noteq> '''' then Some (jt_audience cfg) else None)\<rparr>"

definition jwt_auth :: "'s jwt_verify \<Rightarrow> jwt_config \<Rightarrow> 's handler \<Rightarrow> 's handler" where
  "jwt_auth verify cfg next_handler s req =
     (case bearer_token req of
        Inr msg \<Rightarrow> (s, Ok (write_auth_error msg))
      | Inl raw \<Rightarrow>
          (case verify (parser_options cfg) s raw of
             (s', Err e) \<Rightarrow> (s', Ok (write_auth_error ''invalid or expired token''))
           | (s', Panic p) \<Rightarrow> (s', Panic p)
           | (s', Ok sub) \<Rightarrow> next_handler s' (req\<lparr>hq_subject := Some sub\<rparr>)))"

section \<open>Key resolvers\<close>

record keyfunc_config =
  kf_algorithm :: string
  kf_secret :: string
  kf_public_key_file :: string
  kf_jwks_url :: string

text \<open>What \<open>NewKeyfunc\<close> returns: the shared secret, the static key, or the resolver of a JWKS.\<close>

datatype 'p key_source = Secret string | StaticKey 'p | JwksEndpoint jwks_config jwks

definition load_rsa_public_key :: "(string \<Rightarrow> string outcome) \<Rightarrow> (string \<Rightarrow> 'p outcome) \<Rightarrow> string \<Rightarrow> 'p outcome" where
  "load_rsa_public_key read_file parse_pem path =
     (case read_file path of
        Err e \<Rightarrow> Err (Errorf [A (Lit ''read jwt public key: ''), W e])
      | Panic p \<Rightarrow> Panic p
      | Ok pem \<Rightarrow>
          (case parse_pem pem of
             Err e \<Rightarrow> Err (Errorf [A (Lit ''parse jwt public key: ''), W e])
           | Panic p \<Rightarrow> Panic p
           | Ok pub \<Rightarrow> Ok pub))"

definition new_keyfunc :: "(string \<Rightarrow> string outcome) \<Rightarrow> (string \<Rightarrow> 'p outcome) \<Rightarrow> keyfunc_config \<Rightarrow>
    ('p key_source \<times> string list) outcome" where
  "new_keyfunc read_file parse_pem cfg =
     (let alg = go_lower (kf_algorithm cfg)
      in if alg = '''' \<or> alg = ''hs256'' then Ok (Secret (kf_secret cfg), [''HS256''])
         else if alg = ''rs256'' then
           (if kf_jwks_url cfg \<noteq> ''''
            then (case new_jwks (kf_jwks_url cfg) [] of (jc, j) \<Rightarrow> Ok (JwksEndpoint jc j, [''RS256'']))
            else try_then (load_rsa_public_key read_file parse_pem (kf_public_key_file cfg))
                   (\<lambda>pub. Ok (StaticKey pub, [''RS256''])))
         else Err (Errorf [A (Lit ''unsupported jwt algorithm ''), A (Quo (kf_algorithm cfg)),
                           A (Lit '' (want hs256 or rs256)'')]))"

section \<open>Lemmas\<close>

lemma write_auth_error_simps [simp]:
  "rp_status (write_auth_error msg) = 401"
  "rp_body (write_auth_error msg) = Some (PError ''unauthorized'' [Lit msg])"
  by (simp_all add: write_auth_error_def respond_json_def encodable_def)

text \<open>A bearer token is never empty and never the header itself.\<close>

lemma bearer_token_cut:
  "bearer_token req = Inl tok \<longleftrightarrow>
     (\<exists>scheme rest. cut (CHR '' '') (header_get (hq_authorization req)) = Some (scheme, rest) \<and>
        equal_fold scheme ''Bearer'' \<and> tok = trim_space rest \<and> tok \<noteq> '''')"
  by (auto simp: bearer_token_def Let_def split: option.splits)

lemma bearer_token_iff:
  "bearer_token req = Inl tok \<longleftrightarrow>
     (\<exists>scheme rest. header_get (hq_authorization req) = scheme @ CHR '' '' # rest \<and>
        CHR '' '' \<notin> set scheme \<and> equal_fold scheme ''Bearer'' \<and> tok = trim_space rest \<and> tok \<noteq> '''')"
  by (simp only: bearer_token_cut cut_Some_iff conj_assoc)

lemma jwt_auth_cases:
  assumes "jwt_auth verify cfg next_handler s req = (s', r)"
  obtains (refused) raw e where "bearer_token req = Inl raw" and "verify (parser_options cfg) s raw = (s', Err e)"
      and "r = Ok (write_auth_error ''invalid or expired token'')"
  | (no_token) msg where "bearer_token req = Inr msg" and "s' = s" and "r = Ok (write_auth_error msg)"
  | (panicked) raw p where "bearer_token req = Inl raw" and "verify (parser_options cfg) s raw = (s', Panic p)"
      and "r = Panic p"
  | (accepted) raw s1 sub where "bearer_token req = Inl raw"
      and "verify (parser_options cfg) s raw = (s1, Ok sub)"
      and "next_handler s1 (req\<lparr>hq_subject := Some sub\<rparr>) = (s', r)"
  using assms by (auto simp: jwt_auth_def split: sum.splits prod.splits outcome.splits)

text \<open>The handler behind the middleware does not matter to a request without an accepted token.\<close>

definition token_accepted :: "'s jwt_verify \<Rightarrow> jwt_config \<Rightarrow> 's \<Rightarrow> http_request \<Rightarrow> bool" where
  "token_accepted verify cfg s req =
     (case bearer_token req of
        Inr msg \<Rightarrow> False
      | Inl raw \<Rightarrow> (case verify (parser_options cfg) s raw of (s', Ok sub) \<Rightarrow> True | _ \<Rightarrow> False))"

lemma jwt_auth_not_accepted:
  "\<not> token_accepted verify cfg s req \<Longrightarrow>
     jwt_auth verify cfg next_handler s req = jwt_auth verify cfg other_handler s req"
  by (auto simp: token_accepted_def jwt_auth_def split: sum.splits prod.splits outcome.splits)

lemma jwt_auth_not_accepted_401:
  assumes "\<not> token_accepted verify cfg s req" and "jwt_auth verify cfg next_handler s req = (s', Ok rsp)"
  shows "rp_status rsp = 401"
  using assms(2)
  by (cases rule: jwt_auth_cases) (use assms(1) in \<open>auto simp: token_accepted_def\<close>)

end
