(* ===== verification/Metrics.thy ===== *)
theory Metrics
  imports ServiceTypes GoText
begin

text \<open>
  \<open>internal/metrics\<close>: the collectors, the decorators of the Kafka interfaces (\<open>kafka.go\<close>) and
  the HTTP middleware (\<open>http.go\<close>).

  A counter vector is a function from its label values to a count, a histogram vector a function
  from its label values to the observations (nanoseconds), newest first. A decorated operation
  runs over the collectors and the state of the operation it wraps; \<open>now\<close> is the clock.
  Counters are floats in the library; the model counts in \<open>nat\<close>, which is exact up to \<open>2^53\<close>.

  A vector is declared with the names of its labels; giving it another number of values is a panic
  of the library. \<open>well_labelled\<close> says that no series of the collectors has the wrong number,
  \<open>kafka_bounded\<close> that the Kafka series name operations and statuses only; every update of this
  file keeps both (\<open>metrics_inv\<close>). \<open>register_metrics\<close> is \<open>New\<close> with its registration: the
  registry is the list of collectors it holds, and the library's \<open>MustRegister\<close> is a parameter.
\<close>

record metrics =
  http_requests :: "string list \<Rightarrow> nat"
  http_duration :: "string list \<Rightarrow> int list"
  kafka_ops :: "string list \<Rightarrow> nat"
  kafka_op_latency :: "string list \<Rightarrow> int list"
  kafka_messages :: "string list \<Rightarrow> nat"

definition new_metrics :: metrics where
  "new_metrics =
     \<lparr>http_requests = (\<lambda>_. 0), http_duration = (\<lambda>_. []), kafka_ops = (\<lambda>_. 0),
      kafka_op_latency = (\<lambda>_. []), kafka_messages = (\<lambda>_. 0)\<rparr>"

section \<open>Collectors and their registration\<close>

record vec_opts =
  vo_namespace :: string
  vo_subsystem :: string
  vo_name :: string
  vo_labels :: "string list"

datatype collector = GoCollector | ProcessCollector | CounterVec vec_opts | HistogramVec vec_opts

definition namespace :: string where "namespace = ''kra''"

definition http_requests_opts :: vec_opts where
  "http_requests_opts =
     \<lparr>vo_namespace = namespace, vo_subsystem = ''http'', vo_name = ''requests_total'',
      vo_labels = [''method'', ''route'', ''status'']\<rparr>"

definition http_duration_opts :: vec_opts where
  "http_duration_opts =
     \<lparr>vo_namespace = namespace, vo_subsystem = ''http'', vo_name = ''request_duration_seconds'',
      vo_labels = [''method'', ''route'']\<rparr>"

definition kafka_ops_opts :: vec_opts where
  "kafka_ops_opts =
     \<lparr>vo_namespace = namespace, vo_subsystem = ''kafka'', vo_name = ''operations_total'',
      vo_labels = [''operation'', ''status'']\<rparr>"

definition kafka_op_latency_opts :: vec_opts where
  "kafka_op_latency_opts =
     \<lparr>vo_namespace = namespace, vo_subsystem = ''kafka'', vo_name = ''operation_duration_seconds'',
      vo_labels = [''operation'']\<rparr>"

definition kafka_messages_opts :: vec_opts where
  "kafka_messages_opts =
     \<lparr>vo_namespace = namespace, vo_subsystem = ''kafka'', vo_name = ''messages_total'',
      vo_labels = [''operation'']\<rparr>"

lemmas vec_opts_defs = http_requests_opts_def http_duration_opts_def kafka_ops_opts_def
  kafka_op_latency_opts_def kafka_messages_opts_def

definition app_collectors :: "collector list" where
  "app_collectors =
     [CounterVec http_requests_opts, HistogramVec http_duration_opts, CounterVec kafka_ops_opts,
      HistogramVec kafka_op_latency_opts, CounterVec kafka_messages_opts]"

text \<open>\<open>MustRegister\<close> on a registry: the registry with the collectors added, or a panic.\<close>

type_synonym registrar = "collector list \<Rightarrow> collector list \<Rightarrow> collector list outcome"

definition new_registry :: "registrar \<Rightarrow> collector list outcome" where
  "new_registry must_register = must_register [] [GoCollector, ProcessCollector]"

definition register_metrics :: "registrar \<Rightarrow> collector list \<Rightarrow> (metrics \<times> collector list) outcome" where
  "register_metrics must_register reg =
     try_then (must_register reg app_collectors) (\<lambda>reg'. Ok (new_metrics, reg'))"

text \<open>
  What Prometheus documents: a registry takes collectors whose metrics have names of their own. A
  vector's full name joins its namespace, subsystem and name; the Go and process collectors have
  names of their own kind.
\<close>

definition fq_name :: "vec_opts \<Rightarrow> string" where
  "fq_name v = vo_namespace v @ ''_'' @ vo_subsystem v @ ''_'' @ vo_name v"

fun collector_name :: "collector \<Rightarrow> string" where
  "collector_name GoCollector = ''go_''"
| "collector_name ProcessCollector = ''process_''"
| "collector_name (CounterVec v) = fq_name v"
| "collector_name (HistogramVec v) = fq_name v"

definition registers_distinct :: "registrar \<Rightarrow> bool" where
  "registers_distinct must_register \<longleftrightarrow>
     (\<forall>reg cs. distinct (map collector_name (reg @ cs)) \<longrightarrow> must_register reg cs = Ok (reg @ cs))"

lemma metrics_register:
  assumes "registers_distinct must_register"
  obtains reg reg' where "new_registry must_register = Ok reg"
    and "register_metrics must_register reg = Ok (new_metrics, reg')"
proof
  have "distinct (map collector_name ([] @ [GoCollector, ProcessCollector]))" by simp
  then show "new_registry must_register = Ok [GoCollector, ProcessCollector]"
    using assms unfolding registers_distinct_def new_registry_def by fastforce
  have "distinct (map collector_name ([GoCollector, ProcessCollector] @ app_collectors))"
    by (simp add: app_collectors_def fq_name_def vec_opts_defs namespace_def)
  then have "must_register [GoCollector, ProcessCollector] app_collectors =
      Ok ([GoCollector, ProcessCollector] @ app_collectors)"
    using assms unfolding registers_distinct_def by blast
  then show "register_metrics must_register [GoCollector, ProcessCollector] =
      Ok (new_metrics, [GoCollector, ProcessCollector] @ app_collectors)"
    by (simp add: register_metrics_def)
qed

section \<open>Updates\<close>

definition add_count :: "string list \<Rightarrow> nat \<Rightarrow> (string list \<Rightarrow> nat) \<Rightarrow> string list \<Rightarrow> nat" where
  "add_count labels n f = f(labels := f labels + n)"

definition observe :: "string list \<Rightarrow> int \<Rightarrow> (string list \<Rightarrow> int list) \<Rightarrow> string list \<Rightarrow> int list" where
  "observe labels d f = f(labels := d # f labels)"

definition op_publish :: string where "op_publish = ''publish''"
definition op_consume :: string where "op_consume = ''consume''"
definition op_list_topics :: string where "op_list_topics = ''list_topics''"
definition op_describe_topic :: string where "op_describe_topic = ''describe_topic''"

text \<open>\<open>time.Since(start)\<close>: the clock's difference, saturated.\<close>

definition since :: "int \<Rightarrow> int \<Rightarrow> int" where
  "since start t = sat64 (t - start)"

definition record_op :: "string \<Rightarrow> int \<Rightarrow> int \<Rightarrow> bool \<Rightarrow> metrics \<Rightarrow> metrics" where
  "record_op operation start t failed m =
     (let status = (if failed then ''error'' else ''success'')
      in m\<lparr>kafka_ops := add_count [operation, status] 1 (kafka_ops m),
           kafka_op_latency := observe [operation] (since start t) (kafka_op_latency m)\<rparr>)"

definition add_messages :: "string \<Rightarrow> nat \<Rightarrow> metrics \<Rightarrow> metrics" where
  "add_messages operation n m = m\<lparr>kafka_messages := add_count [operation] n (kafka_messages m)\<rparr>"

section \<open>Decorators\<close>

definition instrumented_produce :: "('s \<Rightarrow> int) \<Rightarrow> 's producer \<Rightarrow> (metrics \<times> 's) producer" where
  "instrumented_produce now produce ms c topic msgs =
     (case ms of (m, s) \<Rightarrow>
        (case produce s c topic msgs of
           (s', Ok rs) \<Rightarrow>
             ((add_messages op_publish (length msgs) (record_op op_publish (now s) (now s') False m), s'), Ok rs)
         | (s', Err e) \<Rightarrow> ((record_op op_publish (now s) (now s') True m, s'), Err e)
         | (s', Panic p) \<Rightarrow> ((m, s'), Panic p)))"

definition instrumented_read :: "('s \<Rightarrow> int) \<Rightarrow> 's reader \<Rightarrow> (metrics \<times> 's) reader" where
  "instrumented_read now read ms c req =
     (case ms of (m, s) \<Rightarrow>
        (case read s c req of
           (s', Ok msgs) \<Rightarrow>
             ((add_messages op_consume (length msgs) (record_op op_consume (now s) (now s') False m), s'), Ok msgs)
         | (s', Err e) \<Rightarrow> ((record_op op_consume (now s) (now s') True m, s'), Err e)
         | (s', Panic p) \<Rightarrow> ((m, s'), Panic p)))"

definition instrumented_list_topics :: "('s \<Rightarrow> int) \<Rightarrow> 's lister \<Rightarrow> (metrics \<times> 's) lister" where
  "instrumented_list_topics now list_topics ms c =
     (case ms of (m, s) \<Rightarrow>
        (case list_topics s c of
           (s', Ok names) \<Rightarrow> ((record_op op_list_topics (now s) (now s') False m, s'), Ok names)
         | (s', Err e) \<Rightarrow> ((record_op op_list_topics (now s) (now s') True m, s'), Err e)
         | (s', Panic p) \<Rightarrow> ((m, s'), Panic p)))"

definition instrumented_describe_topic :: "('s \<Rightarrow> int) \<Rightarrow> 's describer \<Rightarrow> (metrics \<times> 's) describer" where
  "instrumented_describe_topic now describe_topic ms c topic =
     (case ms of (m, s) \<Rightarrow>
        (case describe_topic s c topic of
           (s', Ok md) \<Rightarrow> ((record_op op_describe_topic (now s) (now s') False m, s'), Ok md)
         | (s', Err e) \<Rightarrow> ((record_op op_describe_topic (now s) (now s') True m, s'), Err e)
         | (s', Panic p) \<Rightarrow> ((m, s'), Panic p)))"

section \<open>HTTP middleware\<close>

text \<open>
  \<open>handler\<close> is \<open>next\<close>: it gives back the status it wrote (0 when it wrote none), the route pattern
  that matched, and its result, a panic included: the deferred part runs on every exit.
\<close>

definition metrics_middleware ::
  "('s \<Rightarrow> int) \<Rightarrow> string \<Rightarrow> (metrics \<times> 's \<Rightarrow> (metrics \<times> 's) \<times> int \<times> string \<times> 'r) \<Rightarrow> metrics \<times> 's \<Rightarrow>
     (metrics \<times> 's) \<times> 'r" where
  "metrics_middleware now http_method handler ms =
     (case handler ms of ((m, s), written, pattern, r) \<Rightarrow>
        (let status = (if written = 0 then 200 else written);
             route = (if pattern = '''' then ''unmatched'' else pattern);
             m1 = m\<lparr>http_requests := add_count [http_method, route, itoa status] 1 (http_requests m)\<rparr>;
             m2 = m1\<lparr>http_duration :=
                       observe [http_method, route] (since (now (snd ms)) (now s)) (http_duration m1)\<rparr>
         in ((m2, s), r)))"

section \<open>Transparency\<close>

text \<open>A decorator gives back what the operation gave back and leaves its state as it left it.\<close>

definition undecorated :: "('m \<times> 's) \<times> 'a \<Rightarrow> 's \<times> 'a" where
  "undecorated r = (snd (fst r), snd r)"

lemma undecorated_pair [simp]: "undecorated ((m, s), r) = (s, r)"
  by (simp add: undecorated_def)

lemmas decorator_defs = instrumented_produce_def instrumented_read_def
  instrumented_list_topics_def instrumented_describe_topic_def

lemma instrumented_transparent:
  "undecorated (instrumented_produce now produce (m, s) c topic msgs) = produce s c topic msgs"
  "undecorated (instrumented_read now read (m, s) c req) = read s c req"
  "undecorated (instrumented_list_topics now list_topics (m, s) c) = list_topics s c"
  "undecorated (instrumented_describe_topic now describe_topic (m, s) c topic) = describe_topic s c topic"
  by (auto simp: decorator_defs split: prod.splits outcome.splits)

lemma undecoratedD: "d = ((m', s'), r) \<Longrightarrow> undecorated d = (s', r)"
  by simp

lemma instrumented_Ok:
  "instrumented_produce now produce (m, s) c topic msgs = ((m', s'), r) \<Longrightarrow> produce s c topic msgs = (s', r)"
  "instrumented_read now read (m, s) c req = ((m', s'), x) \<Longrightarrow> read s c req = (s', x)"
  "instrumented_list_topics now list_topics (m, s) c = ((m', s'), y) \<Longrightarrow> list_topics s c = (s', y)"
  "instrumented_describe_topic now describe_topic (m, s) c topic = ((m', s'), z) \<Longrightarrow>
     describe_topic s c topic = (s', z)"
  by (drule undecoratedD, simp add: instrumented_transparent)+

text \<open>So what the interfaces promise of an operation holds of the decorated one.\<close>

context producer_iface begin

lemma instrumented_producer_iface: "producer_iface (instrumented_produce now produce)"
  by unfold_locales (use results_shape instrumented_Ok(1) in fast)

end

context reader_iface begin

lemma instrumented_reader_iface: "reader_iface (instrumented_read now read)"
  by unfold_locales (use read_bounded instrumented_Ok(2) in fast)

end

context admin_iface begin

lemma instrumented_admin_iface:
  "admin_iface (instrumented_list_topics now list_topics)
     (instrumented_describe_topic now describe_topic) name_le"
  by unfold_locales
    (use topics_sorted describes_topic partitions_sorted instrumented_Ok(3,4) in fast)+

end

section \<open>Counting\<close>

lemma add_count_same [simp]: "add_count k n f k = f k + n"
  by (simp add: add_count_def)

lemma add_count_other [simp]: "k \<noteq> k' \<Longrightarrow> add_count k n f k' = f k'"
  by (simp add: add_count_def)

lemma record_op_simps [simp]:
  "kafka_messages (record_op op t0 t1 failed m) = kafka_messages m"
  "kafka_ops (record_op op t0 t1 failed m) =
     add_count [op, if failed then ''error'' else ''success''] 1 (kafka_ops m)"
  "kafka_ops (add_messages op n m) = kafka_ops m"
  "kafka_messages (add_messages op n m) = add_count [op] n (kafka_messages m)"
  by (simp_all add: record_op_def add_messages_def Let_def)

section \<open>Labels\<close>

definition counts_labelled :: "vec_opts \<Rightarrow> (string list \<Rightarrow> nat) \<Rightarrow> bool" where
  "counts_labelled v f \<longleftrightarrow> (\<forall>labels. f labels \<noteq> 0 \<longrightarrow> length labels = length (vo_labels v))"

definition observations_labelled :: "vec_opts \<Rightarrow> (string list \<Rightarrow> int list) \<Rightarrow> bool" where
  "observations_labelled v f \<longleftrightarrow> (\<forall>labels. f labels \<noteq> [] \<longrightarrow> length labels = length (vo_labels v))"

definition well_labelled :: "metrics \<Rightarrow> bool" where
  "well_labelled m \<longleftrightarrow>
     counts_labelled http_requests_opts (http_requests m) \<and>
     observations_labelled http_duration_opts (http_duration m) \<and>
     counts_labelled kafka_ops_opts (kafka_ops m) \<and>
     observations_labelled kafka_op_latency_opts (kafka_op_latency m) \<and>
     counts_labelled kafka_messages_opts (kafka_messages m)"

lemma counts_labelled_add:
  "counts_labelled v f \<Longrightarrow> length labels = length (vo_labels v) \<Longrightarrow> counts_labelled v (add_count labels n f)"
  by (simp add: counts_labelled_def add_count_def)

lemma observations_labelled_observe:
  "observations_labelled v f \<Longrightarrow> length labels = length (vo_labels v) \<Longrightarrow>
     observations_labelled v (observe labels d f)"
  by (simp add: observations_labelled_def observe_def)

lemma well_labelled_new: "well_labelled new_metrics"
  by (simp add: well_labelled_def counts_labelled_def observations_labelled_def new_metrics_def)

lemma well_labelled_record_op: "well_labelled m \<Longrightarrow> well_labelled (record_op operation t t' e m)"
  by (simp add: well_labelled_def record_op_def Let_def counts_labelled_add observations_labelled_observe
      kafka_ops_opts_def kafka_op_latency_opts_def)

lemma well_labelled_add_messages: "well_labelled m \<Longrightarrow> well_labelled (add_messages operation n m)"
  by (simp add: well_labelled_def add_messages_def counts_labelled_add kafka_messages_opts_def)

lemma well_labelled_middleware:
  assumes "handler (m, s) = ((m1, s1), written, pattern, r1)" and "well_labelled m1"
  shows "well_labelled (fst (fst (metrics_middleware now http_method handler (m, s))))"
  using assms by (simp add: metrics_middleware_def Let_def well_labelled_def counts_labelled_add
      observations_labelled_observe http_requests_opts_def http_duration_opts_def)

text \<open>The series of the Kafka metrics are bounded: operations and statuses only, no topic.\<close>

definition operations :: "string list" where
  "operations = [op_publish, op_consume, op_list_topics, op_describe_topic]"

lemma in_operations [simp]:
  "op_publish \<in> set operations" "op_consume \<in> set operations"
  "op_list_topics \<in> set operations" "op_describe_topic \<in> set operations"
  by (simp_all add: operations_def)

definition kafka_bounded :: "metrics \<Rightarrow> bool" where
  "kafka_bounded m \<longleftrightarrow>
     (\<forall>labels. kafka_ops m labels \<noteq> 0 \<longrightarrow>
        (\<exists>op \<in> set operations. labels = [op, ''success''] \<or> labels = [op, ''error''])) \<and>
     (\<forall>labels. kafka_op_latency m labels \<noteq> [] \<longrightarrow> (\<exists>op \<in> set operations. labels = [op])) \<and>
     (\<forall>labels. kafka_messages m labels \<noteq> 0 \<longrightarrow> (\<exists>op \<in> set operations. labels = [op]))"

lemma kafka_bounded_new: "kafka_bounded new_metrics"
  by (simp add: kafka_bounded_def new_metrics_def)

lemma kafka_bounded_record_op:
  "kafka_bounded m \<Longrightarrow> op \<in> set operations \<Longrightarrow> kafka_bounded (record_op op t t' e m)"
  by (auto simp: kafka_bounded_def record_op_def Let_def add_count_def observe_def)

lemma kafka_bounded_add_messages:
  "kafka_bounded m \<Longrightarrow> op \<in> set operations \<Longrightarrow> kafka_bounded (add_messages op n m)"
  by (auto simp: kafka_bounded_def add_messages_def Let_def add_count_def)

lemma kafka_bounded_middleware:
  assumes "handler (m, s) = ((m1, s1), written, pattern, r1)" and "kafka_bounded m1"
  shows "kafka_bounded (fst (fst (metrics_middleware now http_method handler (m, s))))"
  using assms by (simp add: metrics_middleware_def Let_def kafka_bounded_def)

text \<open>Both together, as one invariant of the collectors.\<close>

definition metrics_inv :: "metrics \<Rightarrow> bool" where
  "metrics_inv m \<longleftrightarrow> well_labelled m \<and> kafka_bounded m"

lemma metrics_inv_new: "metrics_inv new_metrics"
  by (simp add: metrics_inv_def well_labelled_new kafka_bounded_new)

lemma metrics_inv_updates:
  assumes "metrics_inv m" and "op \<in> set operations"
  shows "metrics_inv (record_op op t t' e m)" and "metrics_inv (add_messages op n m)"
  using assms by (simp_all add: metrics_inv_def well_labelled_record_op well_labelled_add_messages
      kafka_bounded_record_op kafka_bounded_add_messages)

lemma metrics_inv_middleware:
  assumes "handler (m, s) = ((m1, s1), written, pattern, r1)" and "metrics_inv m1"
  shows "metrics_inv (fst (fst (metrics_middleware now http_method handler (m, s))))"
  using assms(2) well_labelled_middleware [where handler = handler, OF assms(1)]
    kafka_bounded_middleware [where handler = handler, OF assms(1)]
  by (simp add: metrics_inv_def)

section \<open>Runs of a decorated producer\<close>

text \<open>What the counters of a decorated producer mean, over a run of calls: the number of calls
  that succeeded, that failed, and the messages of the calls that succeeded.\<close>

fun produce_run :: "'s producer \<Rightarrow> 's \<Rightarrow> (ctx \<times> string \<times> message list) list \<Rightarrow>
    's \<times> (nat \<times> publish_result list outcome) list" where
  "produce_run produce s [] = (s, [])"
| "produce_run produce s ((c, topic, msgs) # calls) =
     (case produce s c topic msgs of (s1, r) \<Rightarrow>
        (case produce_run produce s1 calls of (s2, rs) \<Rightarrow> (s2, (length msgs, r) # rs)))"

definition succeeded :: "nat \<times> 'a outcome \<Rightarrow> bool" where
  "succeeded p \<longleftrightarrow> (\<exists>a. snd p = Ok a)"

definition failed :: "nat \<times> 'a outcome \<Rightarrow> bool" where
  "failed p \<longleftrightarrow> (\<exists>e. snd p = Err e)"

lemma outcome_marks [simp]:
  "succeeded (n, Ok a)" "\<not> succeeded (n, Err e)" "\<not> succeeded (n, Panic p)"
  "failed (n, Err e)" "\<not> failed (n, Ok a)" "\<not> failed (n, Panic p)"
  by (simp_all add: succeeded_def failed_def)

lemma produce_run_counts:
  assumes "produce_run (instrumented_produce now produce) (m, s) calls = ((m', s'), rs)"
  shows "produce_run produce s calls = (s', rs)"
    and "kafka_ops m' [op_publish, ''success''] =
      kafka_ops m [op_publish, ''success''] + length (filter succeeded rs)"
    and "kafka_ops m' [op_publish, ''error''] =
      kafka_ops m [op_publish, ''error''] + length (filter failed rs)"
    and "kafka_messages m' [op_publish] =
      kafka_messages m [op_publish] + sum_list (map fst (filter succeeded rs))"
proof -
  have "produce_run produce s calls = (s', rs) \<and>
    kafka_ops m' [op_publish, ''success''] =
      kafka_ops m [op_publish, ''success''] + length (filter succeeded rs) \<and>
    kafka_ops m' [op_publish, ''error''] =
      kafka_ops m [op_publish, ''error''] + length (filter failed rs) \<and>
    kafka_messages m' [op_publish] =
      kafka_messages m [op_publish] + sum_list (map fst (filter succeeded rs))"
    using assms
  proof (induction calls arbitrary: m s rs)
    case Nil
    then show ?case by simp
  next
    case (Cons call calls)
    obtain c topic msgs where call: "call = (c, topic, msgs)" by (cases call)
    obtain s1 r where r: "produce s c topic msgs = (s1, r)" by force
    obtain m1 where m1: "instrumented_produce now produce (m, s) c topic msgs = ((m1, s1), r)"
      using r by (cases r) (simp_all add: instrumented_produce_def)
    from Cons.prems obtain rest where
      rest: "produce_run (instrumented_produce now produce) (m1, s1) calls = ((m', s'), rest)"
      and rs: "rs = (length msgs, r) # rest"
      by (auto simp: call m1 split: prod.splits)
    have ops: "kafka_ops m1 [op_publish, ''success''] =
          kafka_ops m [op_publish, ''success''] + (if succeeded (length msgs, r) then 1 else 0)"
        "kafka_ops m1 [op_publish, ''error''] =
          kafka_ops m [op_publish, ''error''] + (if failed (length msgs, r) then 1 else 0)"
        "kafka_messages m1 [op_publish] =
          kafka_messages m [op_publish] + (if succeeded (length msgs, r) then length msgs else 0)"
      using m1 r by (auto simp: instrumented_produce_def split: outcome.splits)
    from Cons.IH [OF rest] show ?case
      using r ops by (auto simp: call rs)
  qed
  then show "produce_run produce s calls = (s', rs)"
    and "kafka_ops m' [op_publish, ''success''] =
      kafka_ops m [op_publish, ''success''] + length (filter succeeded rs)"
    and "kafka_ops m' [op_publish, ''error''] =
      kafka_ops m [op_publish, ''error''] + length (filter failed rs)"
    and "kafka_messages m' [op_publish] =
      kafka_messages m [op_publish] + sum_list (map fst (filter succeeded rs))"
    by auto
qed

end
