(* ===== verification/Router.thy ===== *)
theory Router
  imports Auth Metrics
begin

text \<open>
  \<open>internal/api/router.go\<close> (\<open>routes\<close>, \<open>router_handler\<close>) and the access log of
  \<open>internal/middleware/logging.go\<close> (\<open>request_logger\<close>).

  The router library (chi) is a parameter: which of a list of routes a method and a path select,
  with the topic in the path; whether a path lies under the pattern of a mounted sub-router; what
  answers when no route is selected; the request-id and the recovery middleware; the route pattern
  it reports afterwards, and the request id. The middleware of a sub-router runs for every path under its pattern, also
  when none of its routes is selected. Both the mounted documentation and a
  route with any method are routes with the method \<open>*\<close>. Handlers run over a state \<open>'s\<close>.
\<close>

type_synonym 's topic_handler = "'s \<Rightarrow> http_request \<Rightarrow> string \<Rightarrow> 's \<times> response outcome"

record 's chi =
  chi_find :: "(string \<times> string) list \<Rightarrow> string \<Rightarrow> string \<Rightarrow> (nat \<times> string) option"
  chi_mounted :: "string \<Rightarrow> string \<Rightarrow> bool"
  chi_not_found :: "'s handler"
  chi_request_id :: "'s handler \<Rightarrow> 's handler"
  chi_recoverer :: "'s handler \<Rightarrow> 's handler"
  chi_pattern :: "http_request \<Rightarrow> string"
  chi_get_req_id :: "http_request \<Rightarrow> string"

record 's handlers =
  hd_live :: "'s topic_handler"
  hd_ready :: "'s topic_handler"
  hd_list :: "'s topic_handler"
  hd_describe :: "'s topic_handler"
  hd_consume :: "'s topic_handler"
  hd_publish :: "'s topic_handler"
  hd_publish_batch :: "'s topic_handler"

record 's router_config =
  rg_handlers :: "'s handlers"
  rg_logger :: "'s handler \<Rightarrow> 's handler"
  rg_metrics_middleware :: "('s handler \<Rightarrow> 's handler) option"
  rg_metrics :: "'s topic_handler option"
  rg_auth :: "('s handler \<Rightarrow> 's handler) option"
  rg_openapi :: "string option"
  rg_docs :: "'s topic_handler option"

record 's route =
  re_method :: string
  re_pattern :: string
  re_guarded :: bool
  re_handler :: "'s topic_handler"

section \<open>Access log\<close>

record access_entry =
  le_method :: string
  le_path :: string
  le_status :: int
  le_bytes :: int
  le_latency :: int
  le_request_id :: string
  le_remote_addr :: string

text \<open>The status a response writer has seen: none was written when the handler panicked.\<close>

definition written_status :: "response outcome \<Rightarrow> int" where
  "written_status r = (case r of Ok rsp \<Rightarrow> rp_status rsp | _ \<Rightarrow> 0)"

text \<open>The deferred record. \<open>req_id\<close> is \<open>middleware.GetReqID\<close> and \<open>bytes\<close> the response writer's
  \<open>BytesWritten\<close>.\<close>

definition access_record :: "(http_request \<Rightarrow> string) \<Rightarrow> (response outcome \<Rightarrow> int) \<Rightarrow>
    http_request \<Rightarrow> response outcome \<Rightarrow> int \<Rightarrow> access_entry" where
  "access_record req_id bytes req r latency =
     \<lparr>le_method = hq_method req, le_path = hq_path req, le_status = written_status r, le_bytes = bytes r,
      le_latency = latency, le_request_id = req_id req, le_remote_addr = hq_remote_addr req\<rparr>"

definition request_logger :: "('s \<Rightarrow> int) \<Rightarrow> (http_request \<Rightarrow> string) \<Rightarrow> (response outcome \<Rightarrow> int) \<Rightarrow>
    (access_entry \<Rightarrow> 's \<Rightarrow> 's) \<Rightarrow> 's handler \<Rightarrow> 's handler" where
  "request_logger now req_id bytes emit next_handler s req =
     (case next_handler s req of
        (s', r) \<Rightarrow> (emit (access_record req_id bytes req r (since (now s) (now s'))) s', r))"

section \<open>Routes\<close>

definition openapi_handler :: "string \<Rightarrow> 's topic_handler" where
  "openapi_handler spec s req topic =
     (s, Ok \<lparr>rp_status = 200, rp_content_type = ''application/yaml'', rp_body = Some (PRaw spec)\<rparr>)"

definition open_route :: "string \<Rightarrow> string \<Rightarrow> 's topic_handler \<Rightarrow> 's route" where
  "open_route meth pattern h =
     \<lparr>re_method = meth, re_pattern = pattern, re_guarded = False, re_handler = h\<rparr>"

definition topic_route :: "string \<Rightarrow> string \<Rightarrow> 's topic_handler \<Rightarrow> 's route" where
  "topic_route meth pattern h =
     \<lparr>re_method = meth, re_pattern = ''/topics'' @ pattern, re_guarded = True, re_handler = h\<rparr>"

definition routes :: "'s router_config \<Rightarrow> 's route list" where
  "routes cfg =
     (let h = rg_handlers cfg in
        [open_route ''GET'' ''/health'' (hd_live h), open_route ''GET'' ''/ready'' (hd_ready h)] @
        (case rg_metrics cfg of None \<Rightarrow> [] | Some mh \<Rightarrow> [open_route ''GET'' ''/metrics'' mh]) @
        (case rg_openapi cfg of None \<Rightarrow> []
          | Some spec \<Rightarrow> [open_route ''GET'' ''/openapi.yaml'' (openapi_handler spec)]) @
        (case rg_docs cfg of None \<Rightarrow> [] | Some dh \<Rightarrow> [open_route ''*'' ''/docs'' dh]) @
        [topic_route ''GET'' ''/'' (hd_list h),
         topic_route ''GET'' ''/{topic}/'' (hd_describe h),
         topic_route ''GET'' ''/{topic}/consume'' (hd_consume h),
         topic_route ''POST'' ''/{topic}/publish'' (hd_publish h),
         topic_route ''POST'' ''/{topic}/publish/batch'' (hd_publish_batch h)])"

definition route_keys :: "'s router_config \<Rightarrow> (string \<times> string) list" where
  "route_keys cfg = map (\<lambda>r. (re_method r, re_pattern r)) (routes cfg)"

definition selected :: "'s chi \<Rightarrow> 's router_config \<Rightarrow> http_request \<Rightarrow> ('s route \<times> string) option" where
  "selected chi cfg req =
     (case chi_find chi (route_keys cfg) (hq_method req) (hq_path req) of
        None \<Rightarrow> None
      | Some (i, topic) \<Rightarrow>
          (case drop i (routes cfg) of [] \<Rightarrow> None | r # rs \<Rightarrow> Some (r, topic)))"

definition guard_topics :: "'s router_config \<Rightarrow> 's handler \<Rightarrow> 's handler" where
  "guard_topics cfg h = (case rg_auth cfg of None \<Rightarrow> h | Some mw \<Rightarrow> mw h)"

definition serve_route :: "'s router_config \<Rightarrow> 's route \<Rightarrow> string \<Rightarrow> 's handler" where
  "serve_route cfg r topic =
     (let h = (\<lambda>s req. re_handler r s req topic) in if re_guarded r then guard_topics cfg h else h)"

definition serve_unrouted :: "'s chi \<Rightarrow> 's router_config \<Rightarrow> 's handler" where
  "serve_unrouted chi cfg s req =
     (if chi_mounted chi ''/topics'' (hq_path req) then guard_topics cfg (chi_not_found chi) s req
      else chi_not_found chi s req)"

definition dispatch :: "'s chi \<Rightarrow> 's router_config \<Rightarrow> 's handler" where
  "dispatch chi cfg s req =
     (case selected chi cfg req of
        None \<Rightarrow> serve_unrouted chi cfg s req
      | Some (r, topic) \<Rightarrow> serve_route cfg r topic s req)"

definition router_handler :: "'s chi \<Rightarrow> 's router_config \<Rightarrow> 's handler" where
  "router_handler chi cfg =
     chi_request_id chi (rg_logger cfg
       ((case rg_metrics_middleware cfg of None \<Rightarrow> (\<lambda>h. h) | Some mw \<Rightarrow> mw)
         (chi_recoverer chi (dispatch chi cfg))))"

section \<open>Lemmas\<close>

text \<open>Every route is open or under \<open>/topics\<close> and guarded.\<close>

lemma routes_guarded:
  "r \<in> set (routes cfg) \<Longrightarrow> re_guarded r \<longleftrightarrow> (\<exists>p. re_pattern r = ''/topics'' @ p)"
  by (auto simp: routes_def open_route_def topic_route_def Let_def split: option.splits)

lemma selected_route: "selected chi cfg req = Some (r, topic) \<Longrightarrow> r \<in> set (routes cfg)"
proof -
  assume "selected chi cfg req = Some (r, topic)"
  then obtain i rs where "drop i (routes cfg) = r # rs"
    by (auto simp: selected_def split: option.splits list.splits)
  then have "r \<in> set (drop i (routes cfg))" by simp
  then show ?thesis by (rule in_set_dropD)
qed

text \<open>The handlers that touch Kafka's data are the ones behind the guard: the routes of two
  configurations that differ only in them select alike.\<close>

definition with_topic_handlers :: "'s handlers \<Rightarrow> 's router_config \<Rightarrow> 's router_config" where
  "with_topic_handlers h cfg =
     cfg\<lparr>rg_handlers := h\<lparr>hd_live := hd_live (rg_handlers cfg), hd_ready := hd_ready (rg_handlers cfg)\<rparr>\<rparr>"

lemma route_keys_with_topic_handlers [simp]: "route_keys (with_topic_handlers h cfg) = route_keys cfg"
  by (simp add: route_keys_def routes_def with_topic_handlers_def Let_def open_route_def topic_route_def
      split: option.splits)

lemma serve_guarded:
  "re_guarded r \<Longrightarrow> rg_auth cfg = Some mw \<Longrightarrow> serve_route cfg r topic = mw (\<lambda>s req. re_handler r s req topic)"
  by (simp add: serve_route_def guard_topics_def Let_def)

lemma dispatch_unrouted:
  "selected chi cfg req = None \<Longrightarrow> chi_mounted chi ''/topics'' (hq_path req) \<Longrightarrow> rg_auth cfg = Some mw \<Longrightarrow>
     dispatch chi cfg s req = mw (chi_not_found chi) s req"
  by (simp add: dispatch_def serve_unrouted_def guard_topics_def)

lemma dispatch_selected:
  "selected chi cfg req = Some (r, topic) \<Longrightarrow> dispatch chi cfg s req = serve_route cfg r topic s req"
  by (simp add: dispatch_def)

lemma dispatch_guarded_refused:
  assumes "selected chi cfg req = Some (r, topic)" and "re_guarded r"
    and "rg_auth cfg = Some (jwt_auth verify acfg)" and "\<not> token_accepted verify acfg s req"
    and "dispatch chi cfg s req = (s', Ok rsp)"
  shows "rp_status rsp = 401"
    and "\<And>h. jwt_auth verify acfg h s req = (s', Ok rsp)"
proof -
  have d: "jwt_auth verify acfg (\<lambda>s req. re_handler r s req topic) s req = (s', Ok rsp)"
    using assms(5) dispatch_selected [OF assms(1), of s] serve_guarded [OF assms(2,3), of topic] by simp
  show "rp_status rsp = 401"
    by (rule jwt_auth_not_accepted_401 [OF assms(4) d])
  show "jwt_auth verify acfg h s req = (s', Ok rsp)" for h
    using d by (simp add: jwt_auth_not_accepted [OF assms(4), of h "\<lambda>s req. re_handler r s req topic"])
qed

end
