(* ===== verification/Server.thy ===== *)
theory Server
  imports ApiConsume ApiEncode KafkaClient Config KafkaSecurity Router
begin

text \<open>
  \<open>cmd/server/main.go\<close>: the wiring. \<open>wire\<close> builds the HTTP handler from a configuration the way
  \<open>run\<close> does up to the router, \<open>new_producer\<close> picks the producer of the configured mode. What
  \<open>run\<close> does with the handler is in \<open>ServerRun\<close>.

  The state of the running program is \<open>app\<close>: the access log, the metrics, the JWKS cache with the
  endpoint behind it, and the Kafka cluster. Each service works on the parts it holds
  (\<open>kafka_call\<close>, \<open>auth_call\<close>). What is outside the repository is a field of \<open>runtime\<close>.
\<close>

record ('a, 'w) app =
  ap_log :: "access_entry list"
  ap_metrics :: metrics
  ap_auth :: 'a
  ap_world :: 'w

datatype 'k verification_key = SecretKey string | PemKey 'k | RsaKey rsa_key

record ('m, 'p, 'c, 'k, 'h, 'w) runtime =
  rn_security :: "('m, 'p, 'c) security_lib"
  rn_client :: "('m, 'p, 'c) lib_client \<Rightarrow> ('m, 'p, 'c) dialer option \<Rightarrow> 'w kafka_lib"
  rn_writer :: "('m, 'p, 'c) lib_writer \<Rightarrow> 'w kafka_lib"
  rn_clock :: "'w \<Rightarrow> int"
  rn_parse_pem :: "string \<Rightarrow> 'k outcome"
  rn_http :: "'h http_lib"
  rn_parse_jwt :: "(jwks \<times> 'h, 'k verification_key) jwt_parse"
  rn_map_order :: "header_map \<Rightarrow> header_map"
  rn_must_register :: registrar
  rn_close_writer :: "'w \<Rightarrow> 'w \<times> unit outcome"
  rn_close_idle :: "'w \<Rightarrow> 'w"
  rn_version :: string
  rn_openapi :: string
  rn_metrics_page :: "(jwks \<times> 'h, 'w) app topic_handler"
  rn_docs_page :: "(jwks \<times> 'h, 'w) app topic_handler"
  rn_chi :: "(jwks \<times> 'h, 'w) app chi"
  rn_atom_text :: "atom \<Rightarrow> string"
  rn_uptime_text :: "int \<Rightarrow> string"

section \<open>Parts of the state\<close>

definition kafka_call :: "(metrics \<times> 'w \<Rightarrow> (metrics \<times> 'w) \<times> 'r) \<Rightarrow> ('a, 'w) app \<Rightarrow> ('a, 'w) app \<times> 'r" where
  "kafka_call f a =
     (case f (ap_metrics a, ap_world a) of
        ((m, w), r) \<Rightarrow> (a\<lparr>ap_metrics := m, ap_world := w\<rparr>, r))"

definition world_call :: "('w \<Rightarrow> 'w \<times> 'r) \<Rightarrow> ('a, 'w) app \<Rightarrow> ('a, 'w) app \<times> 'r" where
  "world_call f a = (case f (ap_world a) of (w, r) \<Rightarrow> (a\<lparr>ap_world := w\<rparr>, r))"

definition auth_call :: "('a \<Rightarrow> 'a \<times> 'r) \<Rightarrow> ('a, 'w) app \<Rightarrow> ('a, 'w) app \<times> 'r" where
  "auth_call f a = (case f (ap_auth a) of (x, r) \<Rightarrow> (a\<lparr>ap_auth := x\<rparr>, r))"

definition metrics_mw :: "(('a, 'w) app \<Rightarrow> int) \<Rightarrow> (http_request \<Rightarrow> string) \<Rightarrow>
    ('a, 'w) app handler \<Rightarrow> ('a, 'w) app handler" where
  "metrics_mw now pattern next_handler a req =
     (case metrics_middleware now (hq_method req)
             (\<lambda>(m, a). case next_handler (a\<lparr>ap_metrics := m\<rparr>) req of
                (a', r) \<Rightarrow> ((ap_metrics a', a'), written_status r, pattern req, r))
             (ap_metrics a, a) of
        ((m, a'), r) \<Rightarrow> (a'\<lparr>ap_metrics := m\<rparr>, r))"

text \<open>The access record is written at level info.\<close>

definition emit_access :: "string \<Rightarrow> access_entry \<Rightarrow> ('a, 'w) app \<Rightarrow> ('a, 'w) app" where
  "emit_access level e a = (if log_enabled level LevelInfo then a\<lparr>ap_log := ap_log a @ [e]\<rparr> else a)"

section \<open>Building the parts\<close>

definition security_of :: "kafka_security \<Rightarrow> security_config" where
  "security_of s =
     \<lparr>sc_protocol = ks_protocol s, sc_mechanism = ks_mechanism s, sc_username = ks_username s,
      sc_password = ks_password s, sc_ca_file = ks_ca_file s, sc_cert_file = ks_cert_file s,
      sc_key_file = ks_key_file s, sc_server_name = ks_server_name s,
      sc_skip_verify = ks_skip_verify s\<rparr>"

definition new_producer :: "('m, 'p, 'c, 'k, 'h, 'w) runtime \<Rightarrow> kafka_config \<Rightarrow> security_config \<Rightarrow>
    'w producer outcome" where
  "new_producer R cfg sec =
     (if equal_fold (kc_produce_mode cfg) ''sync'' then
        try_then (new_sync_producer (rn_security R)
            \<lparr>sy_brokers = kc_brokers cfg, sy_write_timeout = kc_write_timeout cfg,
             sy_required_acks = kc_required_acks cfg, sy_security = sec\<rparr>)
          (\<lambda>(client, acks). Ok (sync_produce (rn_client R client None) acks))
      else
        try_then (new_writer (rn_security R)
            \<lparr>wc_brokers = kc_brokers cfg, wc_write_timeout = kc_write_timeout cfg,
             wc_batch_timeout = kc_batch_timeout cfg, wc_required_acks = kc_required_acks cfg,
             wc_allow_auto_create = kc_allow_auto_create cfg, wc_security = sec\<rparr>)
          (\<lambda>(lib_writer, wr). Ok (writer_produce (rn_writer R lib_writer) wr)))"

definition consumer_config_of :: "kafka_config \<Rightarrow> consumer_config" where
  "consumer_config_of k =
     \<lparr>cc_default_limit = kc_default_limit k, cc_max_limit = kc_max_limit k,
      cc_default_wait = kc_default_wait k, cc_max_wait = kc_max_wait k\<rparr>"

definition max_publish_body_bytes :: int where
  "max_publish_body_bytes = 16777216"

text \<open>The key resolver of a source; only a JWKS keeps a state.\<close>

definition source_keyfunc :: "'h http_lib \<Rightarrow> 'k key_source \<Rightarrow> (jwks \<times> 'h, 'k verification_key) keyfunc" where
  "source_keyfunc H src st kid =
     (case src of
        Secret sec \<Rightarrow> (st, Ok (SecretKey sec))
      | StaticKey pub \<Rightarrow> (st, Ok (PemKey pub))
      | JwksEndpoint jc j \<Rightarrow> and_then (jwks_keyfunc H jc st kid) id (\<lambda>st k. (st, Ok (RsaKey k))))"

definition source_cache :: "'k key_source \<Rightarrow> jwks" where
  "source_cache src =
     (case src of JwksEndpoint jc j \<Rightarrow> j | _ \<Rightarrow> \<lparr>jk_keys = [], jk_fetched_at = zero_time\<rparr>)"

text \<open>The JWT library runs over the resolver's part of the state.\<close>

definition app_verify :: "(jwks \<times> 'h, 'k verification_key) jwt_parse \<Rightarrow> (jwks \<times> 'h, 'k verification_key) keyfunc \<Rightarrow>
    (jwks \<times> 'h, 'w) app jwt_verify" where
  "app_verify parse kf opts a raw = auth_call (\<lambda>st. parse opts kf st raw) a"

definition auth_middleware :: "('m, 'p, 'c, 'k, 'h, 'w) runtime \<Rightarrow> jwt_config \<Rightarrow> 'k key_source \<Rightarrow>
    (jwks \<times> 'h, 'w) app handler \<Rightarrow> (jwks \<times> 'h, 'w) app handler" where
  "auth_middleware R jc src =
     jwt_auth (app_verify (rn_parse_jwt R) (source_keyfunc (rn_http R) src)) jc"

definition jwt_config_of :: "auth_config \<Rightarrow> string list \<Rightarrow> jwt_config" where
  "jwt_config_of a algorithms =
     \<lparr>jt_algorithms = algorithms, jt_issuer = ac_issuer a, jt_audience = ac_audience a\<rparr>"

definition new_auth :: "('m, 'p, 'c, 'k, 'h, 'w) runtime \<Rightarrow> auth_config \<Rightarrow>
    (((jwks \<times> 'h, 'w) app handler \<Rightarrow> (jwks \<times> 'h, 'w) app handler) option \<times> jwks) outcome" where
  "new_auth R a =
     (if \<not> ac_enabled a then Ok (None, \<lparr>jk_keys = [], jk_fetched_at = zero_time\<rparr>)
      else try_then (wrapping ''init jwt auth: '' (new_keyfunc (sl_read_file (rn_security R)) (rn_parse_pem R)
             \<lparr>kf_algorithm = ac_algorithm a, kf_secret = ac_secret a,
              kf_public_key_file = ac_public_key_file a, kf_jwks_url = ac_jwks_url a\<rparr>))
             (\<lambda>(src, algorithms).
               Ok (Some (auth_middleware R (jwt_config_of a algorithms) src), source_cache src)))"

section \<open>Handlers\<close>

definition app_handlers :: "('m, 'p, 'c, 'k, 'h, 'w) runtime \<Rightarrow> config \<Rightarrow> int \<Rightarrow> 'w producer \<Rightarrow> 'w kafka_lib \<Rightarrow>
    (jwks \<times> 'h, 'w) app handlers" where
  "app_handlers R cfg started produce L =
     (let now = rn_clock R; k = cf_kafka cfg;
          health = new_health_service (rn_version R) started (sv_health_timeout (cf_server cfg));
          producer = instrumented_produce now produce;
          uc_consume = consume (instrumented_read now (client_read L)) (now \<circ> snd) (consumer_config_of k);
          uc_list = list_service (instrumented_list_topics now (client_list_topics L));
          uc_describe = describe_service (instrumented_describe_topic now (client_describe_topic L))
      in \<lparr>hd_live = (\<lambda>a req t. world_call (\<lambda>w. live_handler now health w) a),
          hd_ready = (\<lambda>a req t. world_call
            (\<lambda>w. ready_handler now health [(client_name, client_check L)] w (hq_ctx req)) a),
          hd_list = (\<lambda>a req t. kafka_call (\<lambda>s. list_handler uc_list s (hq_ctx req)) a),
          hd_describe = (\<lambda>a req t. kafka_call (\<lambda>s. describe_handler uc_describe s (hq_ctx req) t) a),
          hd_consume = (\<lambda>a req t. kafka_call
            (\<lambda>s. consume_handler uc_consume s (hq_ctx req) t (hq_query req)) a),
          hd_publish = (\<lambda>a req t. kafka_call
            (\<lambda>s. publish_one_handler (publish producer) (rn_map_order R) max_publish_body_bytes s
                   (hq_ctx req) t (hq_body req)) a),
          hd_publish_batch = (\<lambda>a req t. kafka_call
            (\<lambda>s. publish_batch_handler (publish_batch producer) (rn_map_order R) max_publish_body_bytes
                   (kc_max_batch_size k) s (hq_ctx req) t (hq_body req)) a)\<rparr>)"

text \<open>What the response writer counts: the bytes of the body, none after a panic.\<close>

definition written_bytes :: "(atom \<Rightarrow> string) \<Rightarrow> (int \<Rightarrow> string) \<Rightarrow> response outcome \<Rightarrow> int" where
  "written_bytes lib secs r =
     (case r of Ok rsp \<Rightarrow> (case rp_body rsp of None \<Rightarrow> 0 | Some p \<Rightarrow> int (length (body_text lib secs p))) | _ \<Rightarrow> 0)"

definition app_router_config where
  "app_router_config R cfg started produce L auth =
     \<lparr>rg_handlers = app_handlers R cfg started produce L,
      rg_logger = request_logger (rn_clock R \<circ> ap_world) (chi_get_req_id (rn_chi R))
        (written_bytes (rn_atom_text R) (rn_uptime_text R)) (emit_access (lc_level (cf_log cfg))),
      rg_metrics_middleware = Some (metrics_mw (rn_clock R \<circ> ap_world) (chi_pattern (rn_chi R))),
      rg_metrics = Some (rn_metrics_page R), rg_auth = auth, rg_openapi = Some (rn_openapi R),
      rg_docs = Some (rn_docs_page R)\<rparr>"

text \<open>From a loaded configuration to the handler, the initial JWKS cache and the metrics.\<close>

definition wire :: "('m, 'p, 'c, 'k, 'h, 'w) runtime \<Rightarrow> config \<Rightarrow> int \<Rightarrow>
    ((jwks \<times> 'h, 'w) app handler \<times> jwks \<times> metrics) outcome" where
  "wire R cfg started =
     (let sec = security_of (kc_security (cf_kafka cfg))
      in try_then (wrapping ''init kafka producer: '' (new_producer R (cf_kafka cfg) sec)) (\<lambda>produce.
         try_then (wrapping ''init kafka client: ''
             (new_client (rn_security R)
                \<lparr>cg_brokers = kc_brokers (cf_kafka cfg), cg_admin_timeout = kc_admin_timeout (cf_kafka cfg),
                 cg_security = sec\<rparr>)) (\<lambda>cl.
         try_then (new_registry (rn_must_register R)) (\<lambda>registry.
         try_then (register_metrics (rn_must_register R) registry) (\<lambda>(metrics, registry).
         try_then (new_auth R (cf_auth cfg)) (\<lambda>(auth, j).
           Ok (router_handler (rn_chi R)
                 (app_router_config R cfg started produce (rn_client R (cl_client cl) (cl_dialer cl)) auth),
               j, metrics)))))))"

section \<open>The decorated interfaces\<close>

text \<open>The use cases get the adapter behind the metrics; it keeps what the interfaces promise.\<close>

interpretation metered_writer: producer_iface "instrumented_produce now (writer_produce L wr)" for now L wr
  by (rule producer_iface.instrumented_producer_iface [OF writer_producer.producer_iface_axioms])

interpretation metered_sync: producer_iface "instrumented_produce now (sync_produce L acks)" for now L acks
  by (rule producer_iface.instrumented_producer_iface [OF sync_producer.producer_iface_axioms])

interpretation metered_reader: reader_iface "instrumented_read now (client_read L)" for now L
  by (rule reader_iface.instrumented_reader_iface [OF client_reader.reader_iface_axioms])

interpretation metered_admin: admin_iface
  "instrumented_list_topics now (client_list_topics L)"
  "instrumented_describe_topic now (client_describe_topic L)" "(\<le>)" for now L
  by (rule admin_iface.instrumented_admin_iface [OF client_admin.admin_iface_axioms])

lemma new_producer_cases:
  assumes "new_producer R cfg sec = Ok produce"
  obtains (sync) L acks where "produce = sync_produce L acks"
  | (batched) L wr where "produce = writer_produce L wr"
  using assms by (auto simp: new_producer_def go_simps split: if_splits)

lemma new_producer_batch_results:
  assumes "new_producer R cfg sec = Ok produce"
    and "publish_batch (instrumented_produce now produce) s c topic msgs = (s', Ok rs)"
  shows "rs = [] \<or> length rs = length msgs"
  using assms(1)
proof (cases rule: new_producer_cases)
  case (sync L acks)
  with assms(2) show ?thesis by (blast dest: metered_sync.publish_batch_results)
next
  case (batched L wr)
  with assms(2) show ?thesis by (blast dest: metered_writer.publish_batch_results)
qed

section \<open>A valid configuration builds\<close>

text \<open>Everything outside the program answers: files are there and hold what they should, and the
  registry takes collectors with names of their own.\<close>

definition outside_ok :: "('m, 'p, 'c, 'k, 'h, 'w) runtime \<Rightarrow> bool" where
  "outside_ok R \<longleftrightarrow>
     (\<forall>n u p. \<exists>m. sl_scram (rn_security R) n u p = Ok m) \<and>
     (\<forall>f. \<exists>t. sl_read_file (rn_security R) f = Ok t) \<and>
     (\<forall>t. sl_append_certs (rn_security R) t \<noteq> None) \<and>
     (\<forall>c k. \<exists>x. sl_load_key_pair (rn_security R) c k = Ok x) \<and>
     (\<forall>t. \<exists>k. rn_parse_pem R t = Ok k) \<and> registers_distinct (rn_must_register R)"

lemma security_builds:
  assumes "valid_security s" and "outside_ok R"
  shows "\<exists>mt. build (rn_security R) (security_of s) = Ok mt"
proof -
  have "\<exists>m. mechanism (rn_security R) (security_of s) = Ok m"
  proof (cases "uses_sasl (security_of s)")
    case False
    then show ?thesis by (simp add: mechanism_def)
  next
    case True
    then have "security_uses_sasl s" by (simp add: uses_sasl_def security_uses_sasl_def security_of_def)
    with assms(1) have "go_lower (sc_mechanism (security_of s)) \<in> {''scram-sha-256'', ''scram-sha-512'', ''plain''}"
      by (simp add: valid_security_def security_of_def)
    moreover obtain m1 m2 where "sl_scram (rn_security R) 256 (sc_username (security_of s)) (sc_password (security_of s)) = Ok m1"
      "sl_scram (rn_security R) 512 (sc_username (security_of s)) (sc_password (security_of s)) = Ok m2"
      using assms(2) unfolding outside_ok_def by blast
    ultimately show ?thesis using True by (auto simp: mechanism_def Let_def)
  qed
  moreover have "\<exists>t. tls_config (rn_security R) (security_of s) = Ok t"
  proof -
    obtain pem where pem: "sl_read_file (rn_security R) (sc_ca_file (security_of s)) = Ok pem"
      using assms(2) unfolding outside_ok_def by blast
    obtain pool where pool: "sl_append_certs (rn_security R) pem = Some pool"
      using assms(2) unfolding outside_ok_def by blast
    obtain cert where cert:
      "sl_load_key_pair (rn_security R) (sc_cert_file (security_of s)) (sc_key_file (security_of s)) = Ok cert"
      using assms(2) unfolding outside_ok_def by blast
    have "\<exists>cas. root_cas (rn_security R) (security_of s) = Ok cas"
      by (simp add: root_cas_def pem pool wrapping_def)
    moreover have "\<exists>certs. certificates (rn_security R) (security_of s) = Ok certs"
      by (simp add: certificates_def cert wrapping_def)
    ultimately show ?thesis by (auto simp: tls_config_def)
  qed
  ultimately show ?thesis by (auto simp: build_def)
qed

lemma acks_parse:
  "go_lower a \<in> {''all'', ''one'', ''none''} \<Longrightarrow> \<exists>r. parse_required_acks a = Ok r"
  by (auto simp: parse_required_acks_def Let_def)

lemma auth_builds:
  assumes "valid_auth a" and "outside_ok R"
  shows "\<exists>x. new_auth R a = Ok x"
proof (cases "ac_enabled a")
  case False
  then show ?thesis by (simp add: new_auth_def)
next
  case True
  obtain pem where pem: "sl_read_file (rn_security R) (ac_public_key_file a) = Ok pem"
    using assms(2) unfolding outside_ok_def by blast
  obtain k where k: "rn_parse_pem R pem = Ok k"
    using assms(2) unfolding outside_ok_def by blast
  from True assms(1) have "go_lower (ac_algorithm a) = ''hs256'' \<or> go_lower (ac_algorithm a) = ''rs256''"
    by (auto simp: valid_auth_def)
  then show ?thesis
    using True pem k
    by (auto simp: new_auth_def new_keyfunc_def load_rsa_public_key_def wrapping_def Let_def split: prod.splits)
qed

lemma producer_builds:
  assumes "valid_config cfg" and "outside_ok R"
  shows "\<exists>p. new_producer R (cf_kafka cfg) (security_of (kc_security (cf_kafka cfg))) = Ok p"
proof -
  let ?k = "cf_kafka cfg"
  have "valid_security (kc_security ?k)" using assms(1) by (simp add: valid_config_def Let_def)
  then obtain mt where mt: "build (rn_security R) (security_of (kc_security ?k)) = Ok mt"
    using security_builds [OF _ assms(2)] by blast
  obtain acks where acks: "parse_required_acks (kc_required_acks ?k) = Ok acks"
    using acks_parse [of "kc_required_acks ?k"] assms(1) by (auto simp: valid_config_def Let_def)
  show ?thesis
    by (cases mt) (simp add: new_producer_def new_sync_producer_def new_writer_def acks build_transport_def mt wrapping_def)
qed

lemma client_builds:
  assumes "valid_config cfg" and "outside_ok R"
  shows "\<exists>cl. new_client (rn_security R)
    \<lparr>cg_brokers = kc_brokers (cf_kafka cfg), cg_admin_timeout = kc_admin_timeout (cf_kafka cfg),
     cg_security = security_of (kc_security (cf_kafka cfg))\<rparr> = Ok cl"
proof -
  have "valid_security (kc_security (cf_kafka cfg))" using assms(1) by (simp add: valid_config_def Let_def)
  then obtain mt where mt: "build (rn_security R) (security_of (kc_security (cf_kafka cfg))) = Ok mt"
    using security_builds [OF _ assms(2)] by blast
  show ?thesis
    by (cases mt) (simp add: new_client_def build_transport_def build_dialer_def mt wrapping_def)
qed

lemma wire_builds:
  assumes "valid_config cfg" and "outside_ok R"
  shows "\<exists>h j. wire R cfg started = Ok (h, j, new_metrics)"
proof -
  obtain p where p: "new_producer R (cf_kafka cfg) (security_of (kc_security (cf_kafka cfg))) = Ok p"
    using producer_builds [OF assms] by blast
  obtain cl where cl: "new_client (rn_security R)
    \<lparr>cg_brokers = kc_brokers (cf_kafka cfg), cg_admin_timeout = kc_admin_timeout (cf_kafka cfg),
     cg_security = security_of (kc_security (cf_kafka cfg))\<rparr> = Ok cl"
    using client_builds [OF assms] by blast
  obtain x where x: "new_auth R (cf_auth cfg) = Ok x"
    using auth_builds [of "cf_auth cfg" R] assms by (auto simp: valid_config_def Let_def)
  have "registers_distinct (rn_must_register R)" using assms(2) by (simp add: outside_ok_def)
  then obtain reg reg' where reg: "new_registry (rn_must_register R) = Ok reg"
    "register_metrics (rn_must_register R) reg = Ok (new_metrics, reg')" by (rule metrics_register)
  show ?thesis by (cases x) (simp add: wire_def Let_def p cl x reg wrapping_def)
qed

section \<open>Through the middleware\<close>

text \<open>What the router library documents of its two middleware: the request id is put into the
  context, and the recovery changes nothing about a request that does not panic, and no state.\<close>

definition chi_transparent :: "'s chi \<Rightarrow> bool" where
  "chi_transparent chi \<longleftrightarrow>
     (\<forall>h s req. chi_request_id chi h s req = h s req) \<and>
     (\<forall>h s req. fst (chi_recoverer chi h s req) = fst (h s req)) \<and>
     (\<forall>h s req rsp. snd (h s req) = Ok rsp \<longrightarrow> snd (chi_recoverer chi h s req) = Ok rsp)"

definition server_routes :: "(string \<times> string) list" where
  "server_routes =
     [(''GET'', ''/health''), (''GET'', ''/ready''), (''GET'', ''/metrics''), (''GET'', ''/openapi.yaml''),
      (''*'', ''/docs''), (''GET'', ''/topics/''), (''GET'', ''/topics/{topic}/''),
      (''GET'', ''/topics/{topic}/consume''), (''POST'', ''/topics/{topic}/publish''),
      (''POST'', ''/topics/{topic}/publish/batch'')]"

text \<open>A request for the topics: one of the five topic routes, or an unrouted path under their prefix.\<close>

definition under_topics :: "'s chi \<Rightarrow> http_request \<Rightarrow> bool" where
  "under_topics chi req =
     (case chi_find chi server_routes (hq_method req) (hq_path req) of
        Some (i, topic) \<Rightarrow> 5 \<le> i \<and> i < length server_routes
      | None \<Rightarrow> chi_mounted chi ''/topics'' (hq_path req))"

lemma app_route_keys: "route_keys (app_router_config R cfg started produce L auth) = server_routes"
  by (simp add: route_keys_def routes_def app_router_config_def Let_def open_route_def topic_route_def
      server_routes_def)

lemma metrics_mw_world:
  assumes "metrics_mw now pattern h a req = (a', r)"
  shows "\<exists>a1. h a req = (a1, r) \<and> ap_world a' = ap_world a1"
proof -
  obtain a1 r1 where h: "h a req = (a1, r1)" by force
  have "a\<lparr>ap_metrics := ap_metrics a\<rparr> = a" by simp
  with assms h show ?thesis by (auto simp: metrics_mw_def metrics_middleware_def Let_def)
qed

lemma request_logger_world:
  assumes "request_logger now req_id bytes (emit_access level) h a req = (a', r)"
  shows "\<exists>a1. h a req = (a1, r) \<and> ap_world a' = ap_world a1"
  using assms by (cases "h a req") (auto simp: request_logger_def emit_access_def)

text \<open>What a request does to the cluster, and its answer, come from the handler it is dispatched to.\<close>

lemma router_handler_world:
  assumes "chi_transparent (rn_chi R)"
    and "router_handler (rn_chi R) (app_router_config R cfg started produce L auth) a req = (a', r)"
  shows "\<exists>a1 r1. dispatch (rn_chi R) (app_router_config R cfg started produce L auth) a req = (a1, r1) \<and>
    ap_world a' = ap_world a1 \<and> (\<forall>rsp. r1 = Ok rsp \<longrightarrow> r = Ok rsp)"
proof -
  let ?cfg = "app_router_config R cfg started produce L auth"
  let ?h = "chi_recoverer (rn_chi R) (dispatch (rn_chi R) ?cfg)"
  have "request_logger (rn_clock R \<circ> ap_world) (chi_get_req_id (rn_chi R))
        (written_bytes (rn_atom_text R) (rn_uptime_text R)) (emit_access (lc_level (cf_log cfg)))
      (metrics_mw (rn_clock R \<circ> ap_world) (chi_pattern (rn_chi R)) ?h) a req = (a', r)"
    using assms by (simp add: router_handler_def app_router_config_def chi_transparent_def)
  then obtain a2 where "metrics_mw (rn_clock R \<circ> ap_world) (chi_pattern (rn_chi R)) ?h a req = (a2, r)"
    and w2: "ap_world a' = ap_world a2"
    using request_logger_world by blast
  then obtain a3 where a3: "?h a req = (a3, r)" and w3: "ap_world a2 = ap_world a3"
    using metrics_mw_world by blast
  obtain a1 r1 where d: "dispatch (rn_chi R) ?cfg a req = (a1, r1)" by force
  have "a3 = a1" "\<forall>rsp. r1 = Ok rsp \<longrightarrow> r = Ok rsp"
    using assms(1) a3 d unfolding chi_transparent_def by (metis fst_conv snd_conv)+
  with d w2 w3 show ?thesis by auto
qed

lemma auth_call_world: "auth_call f a = (a', r) \<Longrightarrow> ap_world a' = ap_world a"
  by (auto simp: auth_call_def split: prod.splits)

lemma app_verify_world: "app_verify parse kf opts a raw = (a', r) \<Longrightarrow> ap_world a' = ap_world a"
  by (simp add: app_verify_def auth_call_world)

lemma guarded_topic_route:
  assumes "selected chi (app_router_config R cfg started produce L auth) req = Some (rt, topic)"
    and "chi_find chi server_routes (hq_method req) (hq_path req) = Some (i, topic)" and "5 \<le> i"
  shows "re_guarded rt"
proof -
  from assms(1,2) obtain rs where d: "drop i (routes (app_router_config R cfg started produce L auth)) = rt # rs"
    by (auto simp: selected_def app_route_keys split: list.splits)
  have "re_guarded r" if "r \<in> set (drop 5 (routes (app_router_config R cfg started produce L auth)))" for r
    using that by (auto simp: routes_def app_router_config_def Let_def open_route_def topic_route_def)
  moreover have "rt \<in> set (drop 5 (routes (app_router_config R cfg started produce L auth)))"
    using d set_drop_subset_set_drop [OF assms(3)] by (metis list.set_intros(1) subsetD)
  ultimately show ?thesis by blast
qed

end
