(* ===== verification/Broker.thy ===== *)
theory Broker
  imports KafkaWriter KafkaSync KafkaClient "HOL-Library.AList"
begin

text \<open>
  A small broker in memory: an instance of the library parameter on which the properties that
  assume something of the library are evaluated. Topics hold partitions, a partition is the list
  of its records. It is no model of code in the repository.
\<close>

record broker =
  bk_topics :: "(string \<times> krecord list list) list"
  bk_clock :: int
  bk_reader :: "string \<times> int \<times> int"

definition partition_log :: "broker \<Rightarrow> string \<Rightarrow> int \<Rightarrow> krecord list option" where
  "partition_log b t p =
     (case map_of (bk_topics b) t of
        None \<Rightarrow> None
      | Some parts \<Rightarrow> if 0 \<le> p \<and> nat p < length parts then Some (parts ! nat p) else None)"

definition broker_log :: "broker \<Rightarrow> string \<Rightarrow> int \<Rightarrow> int \<Rightarrow> krecord option" where
  "broker_log b t p i =
     (case partition_log b t p of
        None \<Rightarrow> None
      | Some l \<Rightarrow> if 0 \<le> i \<and> nat i < length l then Some (l ! nat i) else None)"

definition store_records :: "string \<Rightarrow> int \<Rightarrow> krecord list \<Rightarrow> broker \<Rightarrow> broker" where
  "store_records t p recs b =
     (case map_of (bk_topics b) t of
        None \<Rightarrow> b
      | Some parts \<Rightarrow>
          b\<lparr>bk_topics := AList.update t (parts[nat p := parts ! nat p @ recs]) (bk_topics b)\<rparr>)"

definition broker_produce :: "broker \<Rightarrow> ctx \<Rightarrow> produce_request \<Rightarrow> broker \<times> produce_response outcome" where
  "broker_produce b c q =
     (case partition_log b (rq_topic q) (rq_partition q) of
        None \<Rightarrow> (b, Ok \<lparr>rs_error = Some unknown_topic_or_partition, rs_base_offset = -1\<rparr>)
      | Some l \<Rightarrow>
          if int (length l) + int (length (rq_records q)) > max_int64
          then (b, Ok \<lparr>rs_error = Some (KafkaError 56), rs_base_offset = -1\<rparr>)
          else (store_records (rq_topic q) (rq_partition q) (rq_records q) b,
                Ok \<lparr>rs_error = None, rs_base_offset = int (length l)\<rparr>))"

definition broker_topic :: "broker \<Rightarrow> string \<Rightarrow> ktopic" where
  "broker_topic b t =
     (case map_of (bk_topics b) t of
        None \<Rightarrow> \<lparr>kt_name = t, kt_internal = False, kt_partitions = [], kt_error = Some unknown_topic_or_partition\<rparr>
      | Some parts \<Rightarrow>
          \<lparr>kt_name = t, kt_internal = (take 2 t = ''__''),
           kt_partitions = map (\<lambda>i. \<lparr>kp_id = int i, kp_leader = \<lparr>kb_id = 1\<rparr>,
             kp_replicas = [\<lparr>kb_id = 1\<rparr>], kp_isr = [\<lparr>kb_id = 1\<rparr>]\<rparr>) [0..<length parts],
           kt_error = None\<rparr>)"

definition broker_metadata :: "broker \<Rightarrow> ctx \<Rightarrow> string list \<Rightarrow> broker \<times> ktopic list outcome" where
  "broker_metadata b c ts = (b, Ok (map (broker_topic b) (if ts = [] then map fst (bk_topics b) else ts)))"

text \<open>A key always goes to the same partition.\<close>

definition broker_balance :: "broker \<Rightarrow> bytes \<Rightarrow> bytes \<Rightarrow> int list \<Rightarrow> broker \<times> int" where
  "broker_balance b key val parts = (b, parts ! (bytes_len key mod length parts))"

definition broker_offsets :: "broker \<Rightarrow> string \<Rightarrow> offset_request \<Rightarrow> partition_offsets" where
  "broker_offsets b t r =
     (case r of
        FirstOffsetOf p \<Rightarrow> \<lparr>po_partition = p, po_first = 0, po_last = -1, po_error = None\<rparr>
      | LastOffsetOf p \<Rightarrow>
          \<lparr>po_partition = p, po_first = 0,
           po_last = (case partition_log b t p of None \<Rightarrow> -1 | Some l \<Rightarrow> int (length l)), po_error = None\<rparr>)"

fun broker_write :: "broker \<Rightarrow> kmessage list \<Rightarrow> broker \<times> unit outcome" where
  "broker_write b [] = (b, Ok ())"
| "broker_write b (m # ms) =
     (case map_of (bk_topics b) (km_topic m) of
        None \<Rightarrow> (b, Err (WriteErrors (map (\<lambda>_. Some unknown_topic_or_partition) (m # ms))))
      | Some parts \<Rightarrow>
          broker_write
            (store_records (km_topic m) (int (bytes_len (km_key m) mod length parts))
               [\<lparr>kr_key = km_key m, kr_value = km_value m, kr_headers = km_headers m\<rparr>] b) ms)"

definition broker_read_message :: "broker \<Rightarrow> ctx \<Rightarrow> broker \<times> kmessage outcome" where
  "broker_read_message b c =
     (case bk_reader b of (t, p, i) \<Rightarrow>
        (case broker_log b t p i of
           None \<Rightarrow> (b, Err (Sentinel DeadlineExceeded))
         | Some r \<Rightarrow>
             (b\<lparr>bk_reader := (t, p, i + 1)\<rparr>,
              Ok \<lparr>km_topic = t, km_partition = p, km_offset = i, km_key = kr_key r, km_value = kr_value r,
                  km_headers = kr_headers r, km_time = 0\<rparr>)))"

definition broker_set_offset :: "broker \<Rightarrow> int \<Rightarrow> broker \<times> unit outcome" where
  "broker_set_offset b i =
     (case bk_reader b of (t, p, _) \<Rightarrow>
        (b\<lparr>bk_reader := (t, p, if i = first_offset then 0
                           else if i = last_offset
                             then (case partition_log b t p of None \<Rightarrow> 0 | Some l \<Rightarrow> int (length l))
                           else i)\<rparr>, Ok ()))"

definition broker_lib :: "broker kafka_lib" where
  "broker_lib =
     \<lparr>lib_metadata = broker_metadata, lib_produce = broker_produce, lib_balance = broker_balance,
      lib_list_offsets = (\<lambda>b c t rs. (b, Ok (\<lambda>t'. if t' = t then map (broker_offsets b t) rs else []))),
      lib_write_messages = (\<lambda>b c ms. broker_write b ms),
      lib_new_reader = (\<lambda>b cfg. (b\<lparr>bk_reader := (rc_topic cfg, rc_partition cfg, 0)\<rparr>, Ok ())),
      lib_set_offset = broker_set_offset,
      lib_set_offset_at = (\<lambda>b c t. broker_set_offset b (if t \<le> 0 then first_offset else last_offset)),
      lib_read_message = broker_read_message, lib_close_reader = (\<lambda>b. b),
      rt_now = bk_clock, rt_backoff = (\<lambda>b c d. (b\<lparr>bk_clock := bk_clock b + d\<rparr>, Ok ())),
      rt_range = (\<lambda>b ks. ks)\<rparr>"

definition new_broker :: "(string \<times> krecord list list) list \<Rightarrow> broker" where
  "new_broker ts = \<lparr>bk_topics = ts, bk_clock = 0, bk_reader = ('''', 0, 0)\<rparr>"

section \<open>The laws\<close>

lemma partition_log_store:
  "partition_log b t p = Some l \<Longrightarrow>
     partition_log (store_records t p recs b) t' p' =
       (if t' = t \<and> p' = p then Some (l @ recs) else partition_log b t' p')"
  by (auto simp: partition_log_def store_records_def update_conv' nth_list_update eq_nat_nat_iff
      split: option.splits if_splits)

lemma broker_log_store:
  "partition_log b t p = Some l \<Longrightarrow> broker_log b t' p' i = Some r \<Longrightarrow>
     broker_log (store_records t p recs b) t' p' i = Some r"
  by (auto simp: broker_log_def partition_log_store nth_append split: option.splits if_splits)

lemma broker_appends_log: "appends_log broker_lib broker_log"
proof -
  have "in_int64 (rs_base_offset resp + int j) \<and>
      broker_log b' (rq_topic q) (rq_partition q) (rs_base_offset resp + int j) = Some (rq_records q ! j)"
    if "broker_produce b c q = (b', Ok resp)" "rs_error resp = None" "j < length (rq_records q)"
    for b c q b' resp j
  proof -
    from that obtain l where l: "partition_log b (rq_topic q) (rq_partition q) = Some l"
      and cap: "int (length l) + int (length (rq_records q)) \<le> max_int64"
      and b': "b' = store_records (rq_topic q) (rq_partition q) (rq_records q) b"
      and base: "rs_base_offset resp = int (length l)"
      by (auto simp: broker_produce_def split: option.splits if_splits)
    have "in_int64 (int (length l) + int j)"
      using cap that(3) by (auto simp: in_int64_def min_int64_def)
    moreover have "nat (int (length l) + int j) = length l + j" by linarith
    ultimately show ?thesis
      using that(3) by (simp add: base b' broker_log_def partition_log_store [OF l])
  qed
  then show ?thesis by (auto simp: appends_log_def broker_lib_def)
qed

lemma broker_keeps_log: "keeps_log broker_lib broker_log"
  by (auto simp: keeps_log_def broker_lib_def broker_produce_def broker_log_store
      split: option.splits if_splits)

lemma broker_ranges_once: "ranges_once broker_lib"
  by (simp add: ranges_once_def broker_lib_def)

definition broker_place :: "broker \<Rightarrow> (string \<times> int) \<times> int" where
  "broker_place b = (case bk_reader b of (t, p, i) \<Rightarrow> ((t, p), i))"

lemma broker_log_reader [simp]: "broker_log (b\<lparr>bk_reader := x\<rparr>) = broker_log b"
  by (rule ext)+ (simp add: broker_log_def partition_log_def)

lemma broker_reads_log: "reads_log broker_lib broker_log broker_place"
  by (auto simp: reads_log_def broker_lib_def log_kept_def broker_place_def broker_set_offset_def
      broker_read_message_def shows_record_def first_offset_def last_offset_def split: prod.splits option.splits)

lemmas broker_laws = broker_appends_log broker_keeps_log broker_ranges_once

section \<open>A cluster to evaluate on\<close>

definition no_deadline :: ctx where
  "no_deadline = \<lparr>ctx_deadline = None\<rparr>"

definition demo_broker :: broker where
  "demo_broker = new_broker [(''orders'', [[], []]), (''events'', [[]]), (''__state'', [[]])]"

definition demo_message :: "bytes \<Rightarrow> string \<Rightarrow> message" where
  "demo_message key val = \<lparr>m_key = key, m_value = Some val, m_headers = []\<rparr>"

definition demo_batch :: "message list" where
  "demo_batch = [demo_message None ''a'', demo_message (Some ''k'') ''b'', demo_message None ''c'']"

definition demo_coordinates :: "publish_result list" where
  "demo_coordinates =
     [\<lparr>pr_partition = 0, pr_offset = 0\<rparr>, \<lparr>pr_partition = 1, pr_offset = 0\<rparr>,
      \<lparr>pr_partition = 0, pr_offset = 1\<rparr>]"

definition demo_after :: broker where
  "demo_after = fst (sync_produce broker_lib RequireAll demo_broker no_deadline ''orders'' demo_batch)"

lemma demo_sync:
  "sync_produce broker_lib RequireAll demo_broker no_deadline ''orders'' demo_batch =
     (demo_after, Ok demo_coordinates)"
proof -
  have "snd (sync_produce broker_lib RequireAll demo_broker no_deadline ''orders'' demo_batch) =
      Ok demo_coordinates"
    by code_simp
  then show ?thesis by (simp add: demo_after_def prod_eq_iff)
qed

lemma demo_read:
  "snd (client_read broker_lib demo_after no_deadline
      \<lparr>rr_topic = ''orders'', rr_partition = 0, rr_offset = offset_earliest, rr_from_time = None, rr_limit = 5\<rparr>) =
     Ok [\<lparr>cm_partition = 0, cm_offset = 0, cm_key = None, cm_value = Some ''a'', cm_headers = [], cm_timestamp = 0\<rparr>,
         \<lparr>cm_partition = 0, cm_offset = 1, cm_key = None, cm_value = Some ''c'', cm_headers = [], cm_timestamp = 0\<rparr>]"
  by code_simp

end
