(* ===== verification/KafkaProps.thy ===== *)
theory KafkaProps
  imports Broker "HOL-Library.Multiset"
begin

text \<open>
  The properties of the Kafka adapter (\<open>internal/kafka\<close>): the coordinates of the synchronous
  producer, the attempts of the batched writer, what a read returns, and the admin calls. The
  witnesses run on the in-memory broker.
\<close>

section \<open>Synchronous producer\<close>

text \<open>C8: Every coordinate that the synchronous producer reports is the place of its message in the
  log: the record stored there is the one built from the message with the same index, for any
  library that stores the records of an acknowledged request from its base offset on.\<close>

theorem sync_coordinates_located:
  assumes "appends_log L log" and "keeps_log L log" and "ranges_once L" and "acks \<noteq> RequireNone"
    and "sync_produce L acks w c topic msgs = (w', Ok rs)" and "i < length msgs"
  shows "length rs = length msgs \<and>
    log w' topic (pr_partition (rs ! i)) (pr_offset (rs ! i)) = Some (to_record (msgs ! i))"
  using sync_produce_located [OF assms] sync_produce_length [OF assms(5)] by simp

theorem sync_coordinates_located_witness:
  "broker_log demo_after ''orders'' 0 1 = Some (to_record (demo_message None ''c''))"
  using sync_coordinates_located [OF broker_laws _ demo_sync, of 2]
  by (simp add: demo_batch_def demo_coordinates_def)



text \<open>A topic that the metadata answer reports as unknown, or that is missing from it, is the
  domain error ``topic not found'', and no message is produced: the state is the one the metadata
  call left.\<close>

lemma sync_unknown_topic:
  assumes "msgs \<noteq> []" and "lib_metadata L w c [topic] = (w', Ok topics)"
    and "\<forall>t \<in> set topics. kt_name t = topic \<longrightarrow> kt_error t = Some unknown_topic_or_partition"
  shows "sync_produce L acks w c topic msgs = (w', Err (Sentinel ErrTopicNotFound))"
proof -
  have "find_partitions topic topics = Err (Sentinel ErrTopicNotFound)"
    using assms(3)
    by (induction topics) (auto simp: unknown_topic_or_partition_def)
  with assms(1,2) show ?thesis by (simp add: sync_produce_def sync_partitions_def)
qed


text \<open>A cluster whose second partition refuses every request.\<close>

definition flaky_lib :: "broker kafka_lib" where
  "flaky_lib = broker_lib\<lparr>lib_produce := (\<lambda>b c q.
     if rq_partition q = 1 then (b, Err (KafkaError 7)) else broker_produce b c q)\<rparr>"

lemma flaky_laws: "appends_log flaky_lib broker_log" "keeps_log flaky_lib broker_log" "ranges_once flaky_lib"
proof -
  have "lib_produce broker_lib = broker_produce" by (simp add: broker_lib_def)
  with broker_laws(1,2) show "appends_log flaky_lib broker_log" "keeps_log flaky_lib broker_log"
    unfolding flaky_lib_def appends_log_def keeps_log_def by (auto split: if_splits)
  show "ranges_once flaky_lib" using broker_ranges_once by (simp add: ranges_once_def flaky_lib_def)
qed

definition demo_failed :: "broker \<times> publish_result list outcome" where
  "demo_failed = sync_produce flaky_lib RequireAll demo_broker no_deadline ''orders'' demo_batch"


section \<open>Batched writer\<close>

text \<open>C26: One publish makes at least one and at most five write calls, exactly one when topics are
  not auto-created, and waits at most once for each of them.\<close>

theorem writer_attempts:
  assumes "msgs \<noteq> []"
    and "writer_produce (counted L) wr (w, \<lparr>n_writes = 0, n_backoffs = 0\<rparr>) c topic msgs = ((w', k), r)"
  shows "1 \<le> n_writes k \<and> n_writes k \<le> 5 \<and> n_backoffs k \<le> n_writes k \<and>
    (\<not> wr_allow_auto_create wr \<longrightarrow> n_writes k = 1 \<and> n_backoffs k = 0)"
proof -
  obtain w1 k1 r1 where l: "write_loop (counted L) (wr_allow_auto_create wr) (auto_create_max_attempts - 1)
      (w, \<lparr>n_writes = 0, n_backoffs = 0\<rparr>) c (map (to_write_message topic) msgs) = ((w1, k1), r1)"
    by (metis surj_pair)
  with assms have "k1 = k"
    by (auto simp: writer_produce_def split: sum.splits if_splits)
  with write_loop_counts [OF l] show ?thesis by (auto simp: auto_create_max_attempts_def)
qed

definition demo_counted :: "(broker \<times> write_calls) \<times> publish_result list outcome" where
  "demo_counted = writer_produce (counted broker_lib) \<lparr>wr_allow_auto_create = True\<rparr>
     (demo_broker, \<lparr>n_writes = 0, n_backoffs = 0\<rparr>) no_deadline ''missing'' demo_batch"

theorem writer_attempts_witness:
  "n_writes (snd (fst demo_counted)) \<le> 5 \<and> n_writes (snd (fst demo_counted)) = 5 \<and>
     n_backoffs (snd (fst demo_counted)) = 5"
proof -
  have run: "writer_produce (counted broker_lib) \<lparr>wr_allow_auto_create = True\<rparr>
      (demo_broker, \<lparr>n_writes = 0, n_backoffs = 0\<rparr>) no_deadline ''missing'' demo_batch =
      ((fst (fst demo_counted), snd (fst demo_counted)), snd demo_counted)"
    by (simp add: demo_counted_def)
  have "n_writes (snd (fst demo_counted)) \<le> 5"
    using writer_attempts [OF _ run] by (simp add: demo_batch_def)
  moreover have "n_writes (snd (fst demo_counted)) = 5 \<and> n_backoffs (snd (fst demo_counted)) = 5"
    unfolding demo_counted_def by code_simp
  ultimately show ?thesis by simp
qed

text \<open>C27: The writer reports success only after a write call that the library acknowledged for
  exactly these messages, and then without coordinates.\<close>

theorem writer_success:
  assumes "msgs \<noteq> []" and "writer_produce L wr w c topic msgs = (w', Ok rs)"
  shows "rs = [] \<and> (\<exists>w0 u. lib_write_messages L w0 c (map (to_write_message topic) msgs) = (w', Ok u))"
proof -
  from assms have "write_loop L (wr_allow_auto_create wr) (auto_create_max_attempts - 1) w c
      (map (to_write_message topic) msgs) = (w', Inl (Ok rs))"
    by (auto simp: writer_produce_def split: prod.splits sum.splits if_splits)
  from write_loop_result [OF this] show ?thesis by (simp add: loop_result_def)
qed

definition demo_written :: "broker \<times> publish_result list outcome" where
  "demo_written =
     writer_produce broker_lib \<lparr>wr_allow_auto_create = False\<rparr> demo_broker no_deadline ''orders'' demo_batch"

theorem writer_success_witness:
  "snd demo_written = Ok [] \<and>
   (\<exists>w0 u. lib_write_messages broker_lib w0 no_deadline (map (to_write_message ''orders'') demo_batch) =
      (fst demo_written, Ok u))"
proof -
  have r: "snd demo_written = Ok []"
    unfolding demo_written_def by code_simp
  then have "writer_produce broker_lib \<lparr>wr_allow_auto_create = False\<rparr> demo_broker no_deadline ''orders'' demo_batch =
      (fst demo_written, Ok [])"
    by (simp add: prod_eq_iff flip: demo_written_def)
  from writer_success [OF _ this] r show ?thesis by (simp add: demo_batch_def)
qed

text \<open>Without auto-creation the error of a write decides the answer: ``topic not found'' when it
  is or contains the protocol's unknown-topic error, otherwise an error that names the topic and
  wraps it.\<close>

lemma writer_error_translation:
  assumes "msgs \<noteq> []" and "\<not> wr_allow_auto_create wr"
    and "lib_write_messages L w c (map (to_write_message topic) msgs) = (w', Err e)"
  shows "writer_produce L wr w c topic msgs =
    (w', Err (if contains_kafka_error (Some e) unknown_topic_or_partition
              then Sentinel ErrTopicNotFound else kafka_write_error topic e))"
  using assms by (simp add: writer_produce_def write_loop.simps)

section \<open>Reading\<close>


definition demo_request :: read_request where
  "demo_request = \<lparr>rr_topic = ''orders'', rr_partition = 0, rr_offset = offset_earliest,
     rr_from_time = None, rr_limit = 5\<rparr>"

lemma demo_values:
  "map cm_value
     [\<lparr>cm_partition = 0, cm_offset = 0, cm_key = None, cm_value = Some ''a'', cm_headers = [], cm_timestamp = 0\<rparr>,
      \<lparr>cm_partition = 0, cm_offset = 1, cm_key = None, cm_value = Some ''c'', cm_headers = [], cm_timestamp = 0\<rparr>] =
   [Some ''a'', Some ''c'']"
  by simp


text \<open>C39: A partition reader that was opened is closed on every way out of a read.\<close>

theorem read_closes_reader:
  assumes "client_read L w c req = (w', r)"
    and "lib_new_reader L w (reader_config_of req) = (w1, Ok u)"
  shows "\<exists>w2. w' = lib_close_reader L w2"
  by (rule client_read_closes [OF assms])

text \<open>A library on which closing is visible: the state counts the readers that are open.\<close>

definition open_count_lib :: "int kafka_lib" where
  "open_count_lib =
     \<lparr>lib_metadata = (\<lambda>w c ts. (w, Ok [])), lib_produce = (\<lambda>w c q. (w, Panic [])),
      lib_balance = (\<lambda>w k v ps. (w, 0)), lib_list_offsets = (\<lambda>w c t rs. (w, Ok (\<lambda>_. []))),
      lib_write_messages = (\<lambda>w c ms. (w, Ok ())), lib_new_reader = (\<lambda>w cfg. (w + 1, Ok ())),
      lib_set_offset = (\<lambda>w i. (w, Ok ())), lib_set_offset_at = (\<lambda>w c t. (w, Ok ())),
      lib_read_message = (\<lambda>w c. (w, Err (Sentinel Canceled))), lib_close_reader = (\<lambda>w. 0),
      rt_now = (\<lambda>w. 0), rt_backoff = (\<lambda>w c d. (w, Ok ())), rt_range = (\<lambda>w ks. ks)\<rparr>"

theorem read_closes_reader_witness:
  "fst (client_read open_count_lib 0 no_deadline demo_request) = 0"
proof -
  have "\<exists>w2 :: int. fst (client_read open_count_lib 0 no_deadline demo_request) =
      lib_close_reader open_count_lib w2"
    by (rule read_closes_reader [where r = "snd (client_read open_count_lib 0 no_deadline demo_request)"])
      (simp_all add: open_count_lib_def)
  then show ?thesis by (simp add: open_count_lib_def)
qed

section \<open>Admin\<close>

text \<open>The topic list is sorted and holds the names of exactly the topics of the metadata answer
  that are not internal and came without an error, each as often as there.\<close>

lemma list_topics_exact:
  "client_list_topics L w c = (w', Ok names) \<longleftrightarrow>
     (\<exists>topics. lib_metadata L w c [] = (w', Ok topics) \<and> sorted names \<and>
        mset names = image_mset kt_name (filter_mset (\<lambda>t. \<not> kt_internal t \<and> kt_error t = None) (mset topics)))"
proof -
  have "names = sort (topic_names topics) \<longleftrightarrow>
      sorted names \<and> mset names = image_mset kt_name (filter_mset (\<lambda>t. \<not> kt_internal t \<and> kt_error t = None) (mset topics))"
    for topics
    by (auto simp: topic_names_filter intro: properties_for_sort [symmetric])
  then show ?thesis by (simp add: client_list_topics_Ok_iff)
qed


definition demo_described :: "broker \<times> topic_metadata outcome" where
  "demo_described = client_describe_topic broker_lib demo_after no_deadline ''orders''"

definition demo_metadata :: topic_metadata where
  "demo_metadata = (case snd demo_described of Ok md \<Rightarrow> md)"


text \<open>A topic without a metadata entry of its name, or with the unknown-topic error, is ``topic
  not found''.\<close>

lemma describe_unknown_topic:
  assumes "lib_metadata L w c [topic] = (w', Ok topics)"
    and "\<forall>t \<in> set topics. kt_name t = topic \<longrightarrow> kt_error t = Some unknown_topic_or_partition"
  shows "client_describe_topic L w c topic = (w', Err (Sentinel ErrTopicNotFound))"
proof (cases "find (\<lambda>t. kt_name t = topic) topics")
  case None
  with assms(1) show ?thesis by (simp add: client_describe_topic_def)
next
  case (Some t)
  then have "kt_error t = Some unknown_topic_or_partition"
    using assms(2) by (auto simp: find_Some_iff)
  with assms(1) Some show ?thesis
    by (simp add: client_describe_topic_def unknown_topic_or_partition_def)
qed

end
