(* ===== verification/ServiceProps.thy ===== *)
theory ServiceProps
  imports Publisher Consumer TopicHealth
begin

text \<open>
  The properties of the use cases (\<open>internal/service\<close>): what is refused before a dependency is
  called, and the meaning of filters and limits.
\<close>

section \<open>Publish\<close>

text \<open>The error of an unacceptable batch: the topic first, then the batch, then the first message
  without a value, by its index.\<close>

definition batch_error :: "string \<Rightarrow> message list \<Rightarrow> goerr" where
  "batch_error topic msgs =
     (if topic = '''' then Sentinel ErrEmptyTopic
      else if msgs = [] then Sentinel ErrNoMessages
      else empty_value_error (length (takeWhile (\<lambda>m. bytes_len (m_value m) \<noteq> 0) msgs)))"

lemma first_match_takeWhile:
  "\<exists>x \<in> set xs. p x \<Longrightarrow> \<exists>x. first_match i p xs = Some (i + length (takeWhile (\<lambda>x. \<not> p x) xs), x)"
proof (induction xs arbitrary: i)
  case Nil
  then show ?case by simp
next
  case (Cons a xs)
  then show ?case using Cons.IH [of "Suc i"] by (cases "p a") auto
qed

lemma publish_batch_eq:
  "publish_batch produce s c topic msgs =
     (if valid_batch topic msgs
      then and_then (produce s c topic msgs) (produce_error topic) (\<lambda>s' rs. (s', Ok rs))
      else (s, Err (batch_error topic msgs)))"
proof (cases "valid_batch topic msgs")
  case True
  then show ?thesis by (simp add: publish_batch_valid)
next
  case False
  show ?thesis
  proof (cases "topic = '''' \<or> msgs = []")
    case True
    with False show ?thesis by (auto simp: publish_batch_def batch_error_def)
  next
    case nonempty: False
    with False have "\<exists>m \<in> set msgs. bytes_len (m_value m) = 0" by (auto simp: valid_batch_def)
    from first_match_takeWhile [OF this, of 0] obtain m where
      "first_match 0 (\<lambda>m. bytes_len (m_value m) = 0) msgs =
         Some (length (takeWhile (\<lambda>m. bytes_len (m_value m) \<noteq> 0) msgs), m)" by auto
    with False nonempty show ?thesis by (simp add: publish_batch_def batch_error_def)
  qed
qed

text \<open>C19: The publish use case hands a batch to the producer exactly when the topic is not empty, the
  batch is not empty and every message has a value. Otherwise nothing is produced and the error
  names the first problem, with the index of the first message without a value.\<close>

theorem publish_batch_total:
  "publish_batch produce s c topic msgs =
     (if valid_batch topic msgs
      then and_then (produce s c topic msgs) (produce_error topic) (\<lambda>s' rs. (s', Ok rs))
      else (s, Err (batch_error topic msgs)))"
  by (rule publish_batch_eq)

section \<open>Consume\<close>

definition query_error :: "consume_query \<Rightarrow> goerr" where
  "query_error q =
     (if cq_topic q = '''' then Sentinel ErrEmptyTopic
      else if cq_partition q < 0 then invalid_query ''partition must be >= 0''
      else invalid_query quoted_until_since)"

lemma consume_eq:
  "consume read now cfg s c q =
     (if valid_query q
      then and_then (read s (scan_ctx now cfg s c q) (read_request_of cfg q)) (consume_error (cq_topic q))
             (\<lambda>s' scanned. (s', Ok \<lparr>cr_messages = filter (satisfies (cq_filter q)) scanned,
                                    cr_scanned = length scanned\<rparr>))
      else (s, Err (query_error q)))"
proof (cases "valid_query q")
  case True
  then show ?thesis by (simp add: consume_valid)
next
  case False
  show ?thesis
  proof (cases "cq_topic q = '''' \<or> cq_partition q < 0")
    case True
    with False show ?thesis by (auto simp: consume_def query_error_def)
  next
    case ok: False
    with False obtain a b where "mf_since (cq_filter q) = Some a" "mf_until (cq_filter q) = Some b" "b < a"
      by (auto simp: valid_query_def not_le)
    with False ok show ?thesis by (simp add: consume_def query_error_def)
  qed
qed


text \<open>A scan always has a deadline. It is no later than the configured maximum from now, and no
  later than the deadline the request came with.\<close>

lemma scan_deadline:
  "\<exists>t. ctx_deadline (scan_ctx now cfg s c q) = Some t \<and> t \<le> now s + cc_max_wait cfg \<and>
     (case ctx_deadline c of None \<Rightarrow> True | Some p \<Rightarrow> t \<le> p)"
  using clamp_le [of "cq_timeout q" "cc_default_wait cfg" "cc_max_wait cfg"]
  by (auto simp: scan_ctx_def with_timeout_def split: option.splits)

definition demo_limits :: consumer_config where
  "demo_limits = \<lparr>cc_default_limit = 10, cc_max_limit = 1000, cc_default_wait = 5, cc_max_wait = 30\<rparr>"

end
