(* ===== verification/ApiProps.thy ===== *)
theory ApiProps
  imports ApiConsume ApiAdmin ServiceProps "HOL-Library.Multiset"
begin

text \<open>
  The properties of the HTTP handlers (\<open>internal/api\<close>) over the use cases behind them.
\<close>

section \<open>Errors\<close>

text \<open>The text that the layers put around an error does not change the status and the code a
  client gets: what the adapter, the use cases and the batch handler wrap is classified like the
  error inside.\<close>

lemma classify_through_layers:
  "classify (produce_error topic e) = classify e \<and> classify (consume_error topic e) = classify e \<and>
   classify (describe_error topic e) = classify e \<and> classify (index_error i e) = classify e"
  by (simp add: produce_error_def consume_error_def describe_error_def index_error_def classify_wrap)

text \<open>C36: A query that the use case refuses as invalid (a negative partition, or an end of the time
  range before its start) is answered with 502 and the code of an upstream failure, not with 400,
  and without reading.\<close>

theorem invalid_query_is_502:
  assumes "parse_consume_query topic q = Ok query" and "topic \<noteq> ''''" and "\<not> valid_query query"
  shows "\<exists>rsp. consume_handler (consume read now cfg) s c topic q = (s, Ok rsp) \<and>
    rp_status rsp = 502 \<and> (\<exists>txt. rp_body rsp = Some (PError ''kafka_error'' txt))"
proof -
  have "query_error query = invalid_query ''partition must be >= 0'' \<or>
      query_error query = invalid_query quoted_until_since"
    using parse_consume_query_Ok(1) [OF assms(1)] assms(2) by (auto simp: query_error_def)
  then have "classify (query_error query) = (502, ''kafka_error'')"
    by (auto simp: classify_def invalid_query_def)
  moreover have "consume_handler (consume read now cfg) s c topic q = (s, Ok (write_error (query_error query)))"
    using assms by (simp add: consume_handler_def consume_eq)
  ultimately show ?thesis by auto
qed

definition only_parameter :: "string \<Rightarrow> string list \<Rightarrow> url_values" where
  "only_parameter k vs = (\<lambda>k'. if k' = k then vs else [])"

lemma only_parameter_other [simp]: "k' \<noteq> k \<Longrightarrow> only_parameter k vs k' = []"
  by (simp add: only_parameter_def)

lemma url_get_only_parameter [simp]: "url_get (only_parameter k [v]) k = v"
  by (simp add: only_parameter_def url_get_def)

lemma absent_parameters:
  "q k = [] \<Longrightarrow> int_param q k d = Ok d" "q k = [] \<Longrightarrow> duration_param q k d = Ok d"
  "q k = [] \<Longrightarrow> offset_param q k = Ok offset_earliest" "q k = [] \<Longrightarrow> time_param q k = Ok None"
  by (simp_all add: int_param_def duration_param_def offset_param_def time_param_def)

definition plain_query :: "string \<Rightarrow> int \<Rightarrow> consume_query" where
  "plain_query topic n =
     \<lparr>cq_topic = topic, cq_partition = n, cq_offset = offset_earliest, cq_from_time = None,
      cq_limit = 0, cq_timeout = 0,
      cq_filter = \<lparr>mf_key = None, mf_headers = [], mf_since = None, mf_until = None\<rparr>\<rparr>"

lemma parse_only_partition:
  assumes "parse_int64 v = Some n" and "v \<noteq> ''''"
  shows "parse_consume_query topic (only_parameter ''partition'' [v]) = Ok (plain_query topic n)"
proof -
  have "int_param (only_parameter ''partition'' [v]) ''partition'' 0 = Ok n"
    using assms by (simp add: int_param_def)
  then show ?thesis
    by (simp add: parse_consume_query_def absent_parameters header_filters_def key_param_def url_has_def
        plain_query_def)
qed

theorem invalid_query_is_502_witness:
  "\<exists>rsp. consume_handler (consume (\<lambda>s c r. (s, Ok [])) (\<lambda>s. 0) demo_limits) () \<lparr>ctx_deadline = None\<rparr> ''orders''
       (only_parameter ''partition'' [''-1'']) = ((), Ok rsp) \<and>
     rp_status rsp = 502 \<and> (\<exists>txt. rp_body rsp = Some (PError ''kafka_error'' txt))"
proof -
  have n: "parse_int64 ''-1'' = Some (-1)" by code_simp
  show ?thesis
    by (rule invalid_query_is_502 [OF parse_only_partition [OF n]]) (simp_all add: valid_query_def plain_query_def)
qed

section \<open>Publish\<close>

text \<open>The two ways of a batch: it is refused before anything is sent, or it is sent as it was asked.\<close>

lemma batch_error_400: "fst (classify (batch_error topic msgs)) = 400"
proof -
  have "is_err (batch_error topic msgs) ErrEmptyTopic \<or> is_err (batch_error topic msgs) ErrNoMessages \<or>
      is_err (batch_error topic msgs) ErrEmptyValue"
    by (simp add: batch_error_def empty_value_error_def)
  then show ?thesis by (auto simp: classify_400)
qed

lemma refused_batch:
  assumes "publish_batch_handler (publish_batch produce) ord mx mb s c topic body = (s', Ok rsp)"
    and "\<And>reqs msgs. decode_body decode_batch mx body = Ok reqs \<Longrightarrow> int (length reqs) \<le> mb \<Longrightarrow>
      to_messages ord 0 reqs = Ok msgs \<Longrightarrow> \<not> valid_batch topic msgs"
  shows "s' = s \<and> rp_status rsp = 400"
proof (cases "decode_body decode_batch mx body")
  case (Err e)
  with assms(1) client_error_decode_body [of decode_batch mx body] show ?thesis
    by (auto simp: publish_batch_handler_def classify_400)
next
  case (Panic p)
  with client_error_decode_body [of decode_batch mx body] show ?thesis by simp
next
  case (Ok reqs)
  show ?thesis
  proof (cases "int (length reqs) > mb")
    case True
    with assms(1) Ok show ?thesis
      by (auto simp: publish_batch_handler_def batch_too_big_def classify_400)
  next
    case False
    with assms(1) Ok assms(2) [OF Ok] client_error_to_messages [of ord 0 reqs] show ?thesis
      by (cases "to_messages ord 0 reqs")
        (auto simp: publish_batch_handler_def classify_400 publish_batch_eq batch_error_400)
  qed
qed

lemma sent_batch:
  assumes "publish_batch_handler (publish_batch produce) ord mx mb s c topic body = (s', Ok rsp)"
    and "decode_body decode_batch mx body = Ok reqs" and "int (length reqs) \<le> mb"
    and "to_messages ord 0 reqs = Ok msgs" and "valid_batch topic msgs"
  shows "(\<exists>rs. produce s c topic msgs = (s', Ok rs) \<and> rsp = respond_json 200
      (PPublish \<lparr>pu_topic = topic, pu_published = length reqs, pu_offsets = to_offsets rs\<rparr>)) \<or>
    (\<exists>e. produce s c topic msgs = (s', Err e) \<and> rp_status rsp = fst (classify e))"
proof -
  obtain s1 r where r: "produce s c topic msgs = (s1, r)" by force
  from assms to_messages_length [OF assms(4)] r show ?thesis
    by (cases r) (auto simp: publish_batch_handler_def publish_batch_valid produce_error_def classify_wrap)
qed


definition demo_produce :: "nat producer" where
  "demo_produce s c topic msgs =
     (s + length msgs, Ok (map (\<lambda>i. \<lparr>pr_partition = 0, pr_offset = int (s + i)\<rparr>) [0..<length msgs]))"

text \<open>The body \<open>{"messages":[{"value":1}]}\<close>, and the same with a bracket behind it.\<close>

definition quoted :: "string \<Rightarrow> string" where
  "quoted s = quote # s @ [quote]"

definition one_value_body :: string where
  "one_value_body = ''{'' @ quoted ''messages'' @ '':[{'' @ quoted ''value'' @ '':1}]}''"

definition demo_batch_response :: "string \<Rightarrow> nat \<times> response outcome" where
  "demo_batch_response body =
     publish_batch_handler (publish_batch demo_produce) id 100 5 7 \<lparr>ctx_deadline = None\<rparr> ''t'' body"

lemma demo_batch_runs:
  "demo_batch_response one_value_body = (8, Ok (respond_json 200 (PPublish \<lparr>pu_topic = ''t'', pu_published = 1,
     pu_offsets = [\<lparr>ro_partition = 0, ro_offset = 7\<rparr>]\<rparr>)))"
  unfolding demo_batch_response_def by code_simp


text \<open>The rendering of a value loses nothing: decoding what the consume handler puts into a message,
  under its encoding tag, the way the publish handler does gives back exactly the bytes, for every
  value that is not empty. (The JSON encoder then writes the document without white space.)\<close>

lemma value_round_trip:
  assumes "b \<noteq> ''''"
  shows "decode_publish_value (Some (fst (encode_value (Some b)))) (snd (encode_value (Some b))) = Ok (Some b)"
  by (rule decode_encoded_value) (use assms in simp)

lemma value_round_trip_example:
  "decode_publish_value (Some (fst (encode_value (Some [CHR 0xFF, CHR 0x00]))))
     (snd (encode_value (Some [CHR 0xFF, CHR 0x00]))) = Ok (Some [CHR 0xFF, CHR 0x00])"
  by (rule value_round_trip) simp

text \<open>Every rendered value is valid JSON, so the raw bytes of a message can never break the
  response document; base64 is used exactly for values that are not JSON themselves.\<close>

lemma rendered_value_valid:
  "json_valid (fst (encode_value b)) \<and>
   (snd (encode_value b) = encoding_base64 \<longleftrightarrow> bytes_len b \<noteq> 0 \<and> \<not> json_valid (bytes_str b)) \<and>
   (snd (encode_value b) = encoding_json \<or> snd (encode_value b) = encoding_base64)"
  by (simp add: encode_value_valid) (simp add: encode_value_def encoding_defs)

text \<open>The size limit: an accepted body has its JSON value inside the first \<open>max\<close> bytes, and what
  follows the value there is white space, or starts with a closing bracket.\<close>

lemma accepted_body:
  assumes "decode_body dec mx body = Ok a"
  shows "\<exists>v r. parse_json (take (nat mx) body) = POk v r \<and> dec v = Some a \<and>
    (skip_ws r = [] \<or> hd (skip_ws r) \<in> {CHR '']'', CHR ''}''})"
  using assms
  by (auto simp: decode_body_def Let_def dec_more_def split: pres.splits if_splits option.splits list.splits)

lemma accepted_body_example:
  "\<exists>v r. parse_json (take 100 one_value_body) = POk v r \<and> skip_ws r = []"
proof -
  have "decode_body Some 100 one_value_body = Ok (JObj [(''messages'', ''[{'' @ quoted ''value'' @ '':1}]'',
      JArr [JObj [(''value'', ''1'', JNum ''1'')]])])"
    by code_simp
  from accepted_body [OF this] have "\<exists>v r. parse_json (take 100 one_value_body) = POk v r" by auto
  moreover have "case parse_json (take 100 one_value_body) of POk v r \<Rightarrow> skip_ws r = [] | _ \<Rightarrow> False"
    by code_simp
  ultimately show ?thesis by auto
qed

text \<open>A body with a closing brace after its object is accepted, although it is no single JSON
  document: the check for more input does not see closing brackets.\<close>

lemma trailing_brace_accepted:
  "\<exists>reqs. decode_body decode_batch 100 (one_value_body @ ''}'') = Ok reqs \<and> length reqs = 1 \<and>
     \<not> json_valid (one_value_body @ ''}'')"
proof -
  have "case decode_body decode_batch 100 (one_value_body @ ''}'') of Ok reqs \<Rightarrow> length reqs = 1 | _ \<Rightarrow> False"
    by code_simp
  moreover have "\<not> json_valid (one_value_body @ ''}'')"
    by code_simp
  ultimately show ?thesis by (auto split: outcome.splits)
qed

text \<open>C37: The converted messages of a batch are, position by position, the conversions of its
  entries. A message has a key exactly when the entry has one that is not empty, and its headers
  are the entry's headers, in some order.\<close>

theorem converted_messages:
  assumes "to_messages ord i ms = Ok msgs" and "k < length ms" and "mset (ord (mr_headers (ms ! k))) = mset (mr_headers (ms ! k))"
  shows "m_key (msgs ! k) = (if mr_key (ms ! k) = '''' then None else Some (mr_key (ms ! k))) \<and>
    decode_publish_value (mr_value (ms ! k)) (mr_value_encoding (ms ! k)) = Ok (m_value (msgs ! k)) \<and>
    mset (m_headers (msgs ! k)) = image_mset (\<lambda>(n, v). \<lparr>h_key = n, h_value = Some v\<rparr>) (mset (mr_headers (ms ! k)))"
proof -
  have "to_message ord (ms ! k) = Ok (msgs ! k)" by (rule to_messages_nth [OF assms(1,2)])
  then obtain val where "decode_publish_value (mr_value (ms ! k)) (mr_value_encoding (ms ! k)) = Ok val"
    and m: "msgs ! k = \<lparr>m_key = (if mr_key (ms ! k) \<noteq> '''' then Some (mr_key (ms ! k)) else None), m_value = val,
       m_headers = (if length (mr_headers (ms ! k)) > 0
         then map (\<lambda>(k, v). \<lparr>h_key = k, h_value = Some v\<rparr>) (ord (mr_headers (ms ! k))) else [])\<rparr>"
    by (auto simp: to_message_def go_simps)
  moreover have "m_headers (msgs ! k) =
      map (\<lambda>(k, v). \<lparr>h_key = k, h_value = Some v\<rparr>) (ord (mr_headers (ms ! k)))"
    using m assms(3) by auto
  ultimately show ?thesis using assms(3) by simp
qed

definition demo_entry :: message_request where
  "demo_entry = \<lparr>mr_key = ''k'', mr_value = Some ''1'', mr_value_encoding = '''', mr_headers = [(''a'', ''b'')]\<rparr>"

theorem converted_messages_witness:
  "\<exists>m. to_messages id 0 [demo_entry] = Ok [m] \<and> m_key m = Some ''k'' \<and>
     mset (m_headers m) = {#\<lparr>h_key = ''a'', h_value = Some ''b''\<rparr>#}"
proof -
  have "\<exists>m. to_messages id 0 [demo_entry] = Ok [m]"
    by (simp add: demo_entry_def to_message_def decode_publish_value_def)
  then obtain m where m: "to_messages id 0 [demo_entry] = Ok [m]" by auto
  from converted_messages [OF m, of 0] m show ?thesis by (simp add: demo_entry_def)
qed

section \<open>Consume\<close>

text \<open>A query that parses is in range: the integers fit 64 bits, the timeout is not negative, the
  offset is a keyword or not negative, and a key filter is set exactly when the parameter is
  present, with its first value, which may be empty.\<close>

lemma parsed_query_in_range:
  assumes "parse_consume_query topic q = Ok query"
  shows "cq_topic query = topic \<and> in_int64 (cq_partition query) \<and> in_int64 (cq_limit query) \<and>
    0 \<le> cq_timeout query \<and>
    (cq_offset query = offset_earliest \<or> cq_offset query = offset_latest \<or> 0 \<le> cq_offset query) \<and>
    mf_key (cq_filter query) = (case q ''key'' of [] \<Rightarrow> None | v # vs \<Rightarrow> Some v)"
  using parse_consume_query_Ok [OF assms]
  by (auto simp: key_param_def url_has_def url_get_def split: list.splits)



text \<open>A consume answer has no body exactly when a message has a timestamp outside the years 0 to
  9999, which JSON encoding refuses after the status 200 was written.\<close>

lemma missing_body:
  assumes "consume_handler consumer s c topic q = (s', Ok rsp)" and "rp_status rsp = 200"
  shows "\<exists>query result. consumer s c query = (s', Ok result) \<and>
    (rp_body rsp = None \<longleftrightarrow> (\<exists>m \<in> set (cr_messages result). \<not> year_in_range (cm_timestamp m)))"
proof -
  from assms(1) obtain query result where "consumer s c query = (s', Ok result)"
    and "rsp = respond_json 200
      (PConsume \<lparr>cs_topic = topic, cs_partition = cq_partition query,
                 cs_count = length (cr_messages result), cs_scanned = cr_scanned result,
                 cs_messages = to_consumed_messages (cr_messages result)\<rparr>)"
    by (auto simp: consume_handler_200_iff [OF assms(2)])
  then show ?thesis
    by (intro exI [of _ query] exI [of _ result])
      (auto simp: respond_json_def encodable_def to_consumed_messages_def list_all_iff encode_value_valid)
qed

section \<open>Probes\<close>



end
