(* ===== verification/AuthProps.thy ===== *)
theory AuthProps
  imports Auth
begin

text \<open>
  The properties of authentication (\<open>internal/middleware\<close>): which keys the JWKS cache answers with,
  for one goroutine and for many, and which requests pass the middleware.
\<close>

section \<open>An endpoint to evaluate on\<close>

definition json_member :: "string \<Rightarrow> string \<Rightarrow> string" where
  "json_member k v = quote # k @ quote # '':'' @ quote # v @ [quote]"

text \<open>A set with one RSA key and one key of another type; the RSA key is 65537 for both numbers.\<close>

definition demo_document :: string where
  "demo_document =
     ''{'' @ quote # ''keys'' @ quote # '':[{'' @ json_member ''kty'' ''RSA'' @ '','' @ json_member ''kid'' ''k1'' @ '','' @
     json_member ''n'' ''AQAB'' @ '','' @ json_member ''e'' ''AQAB'' @ ''},{'' @ json_member ''kty'' ''EC'' @ '','' @
     json_member ''kid'' ''k2'' @ ''}]}''"

definition demo_key :: rsa_key where
  "demo_key = \<lparr>rk_n = 65537, rk_e = 65537\<rparr>"

text \<open>The endpoint answers while the state is positive; every request uses one up. The clock reads
  the state.\<close>

definition demo_http :: "nat http_lib" where
  "demo_http =
     \<lparr>hl_now = (\<lambda>w. (w, int w)), hl_new_request = (\<lambda>u. Ok ()),
      hl_do = (\<lambda>w c u. case w of 0 \<Rightarrow> (0, Err (LibError ''connection refused'' [])) | Suc n \<Rightarrow> (n, Ok (200, demo_document)))\<rparr>"

definition demo_jwks_config :: jwks_config where
  "demo_jwks_config = fst (new_jwks ''https://issuer/jwks'' [])"

definition empty_cache :: jwks where
  "empty_cache = \<lparr>jk_keys = [], jk_fetched_at = zero_time\<rparr>"

lemma demo_decode: "decode_document demo_document = Some
    [empty_jwk\<lparr>kw_kty := ''RSA'', kw_kid := ''k1'', kw_n := ''AQAB'', kw_e := ''AQAB''\<rparr>,
     empty_jwk\<lparr>kw_kty := ''EC'', kw_kid := ''k2''\<rparr>]"
  by code_simp

lemma demo_numbers: "b64url_raw_decode ''AQAB'' = Some [CHR 0x01, CHR 0x00, CHR 0x01]"
  by code_simp

lemma demo_keys: "keys_of_response url (200, demo_document) = Ok [(''k1'', demo_key)]"
  by (simp add: keys_of_response_def demo_decode is_rsa_signature_key_def empty_jwk_def rsa_public_key_def
      demo_numbers demo_key_def wrap64_def)

lemma demo_fetch: "fetch_keys demo_http demo_jwks_config (Suc n) = (n, Ok [(''k1'', demo_key)])"
  by (simp add: fetch_keys_def demo_http_def demo_keys)

lemma demo_fetch_fails: "fetch_keys demo_http demo_jwks_config 0 =
    (0, Err (Errorf [A (Lit ''fetch jwks: ''), W (LibError ''connection refused'' [])]))"
  by (simp add: fetch_keys_def demo_http_def)

lemma demo_lookup:
  "jwks_key demo_http demo_jwks_config (empty_cache, Suc n) ''k1'' =
     ((\<lparr>jk_keys = [(''k1'', demo_key)], jk_fetched_at = int n\<rparr>, n), Ok demo_key)"
  using demo_fetch [of n]
  by (simp add: jwks_key_def jwks_refresh_def empty_cache_def) (simp add: demo_http_def)

definition start :: resolver where
  "start = \<lparr>rv_jwks = empty_cache, rv_pcs = (\<lambda>_. Idle), rv_responses = []\<rparr>"

lemma initial_start [simp]: "initial_resolver start"
  by (simp add: initial_resolver_def start_def empty_cache_def)

section \<open>Keys\<close>

text \<open>C5: However many goroutines look keys up and refresh at the same time, in whatever order, a key
  that a lookup answers was published under that key id in a response of the endpoint.\<close>

theorem answered_keys_published:
  assumes "(jwks_step cfg)\<^sup>*\<^sup>* s s'" and "initial_resolver s" and "rv_pcs s' i = Answered kid (Ok k)"
  shows "\<exists>resp \<in> set (rv_responses s'). \<exists>keys.
    keys_of_response (jc_url cfg) resp = Ok keys \<and> map_of keys kid = Some k"
  using answered_published [OF assms] by (simp add: published_def)

lemma demo_run: "\<exists>s'. (jwks_step demo_jwks_config)\<^sup>*\<^sup>* start s' \<and> rv_pcs s' 0 = Answered ''k1'' (Ok demo_key)"
  using jwks_key_simulated [OF demo_lookup [of 0], of start 0]
  by (auto simp: at_pc_def start_def)

theorem answered_keys_published_witness:
  "\<exists>(s' :: resolver) resp keys. rv_pcs s' 0 = Answered ''k1'' (Ok demo_key) \<and> resp \<in> set (rv_responses s') \<and>
     keys_of_response (jc_url demo_jwks_config) resp = Ok keys \<and> map_of keys ''k1'' = Some demo_key"
proof -
  obtain s' where s: "(jwks_step demo_jwks_config)\<^sup>*\<^sup>* start s'" "rv_pcs s' 0 = Answered ''k1'' (Ok demo_key)"
    using demo_run by blast
  from answered_keys_published [OF s(1) initial_start s(2)] obtain resp keys where
    "resp \<in> set (rv_responses s')" "keys_of_response (jc_url demo_jwks_config) resp = Ok keys"
    "map_of keys ''k1'' = Some demo_key" by blast
  with s(2) show ?thesis by (intro exI conjI)
qed



text \<open>C14: The code of one goroutine refines the step system: a lookup that does not panic, from any
  state in which the goroutine is idle, is a run of steps that ends with the same answer and the
  same cache, and leaves the other goroutines where they were.\<close>

theorem lookup_refines_steps:
  assumes "jwks_key H cfg (j, w) kid = ((j', w'), r)" and "\<And>p. r \<noteq> Panic p"
    and "rv_pcs s i = Idle" and "rv_jwks s = j"
  shows "\<exists>s'. (jwks_step cfg)\<^sup>*\<^sup>* s s' \<and> rv_jwks s' = j' \<and> rv_pcs s' = (rv_pcs s)(i := Answered kid r)"
  using jwks_key_simulated [OF assms] by (simp add: at_pc_def)

theorem lookup_refines_steps_witness:
  "\<exists>s'. (jwks_step demo_jwks_config)\<^sup>*\<^sup>* start s' \<and> jk_keys (rv_jwks s') = [(''k1'', demo_key)] \<and>
     rv_pcs s' 4 = Answered ''k1'' (Ok demo_key) \<and> rv_pcs s' 5 = Idle"
  using lookup_refines_steps [OF demo_lookup [of 0], of start 4] by (auto simp: start_def)

text \<open>A published key comes from an RSA entry of the document that is meant for signatures and has
  this key id: entries of other types never become keys.\<close>

lemma published_keys_are_rsa:
  assumes "keys_of_response url resp = Ok keys" and "map_of keys kid = Some pub"
  shows "fst resp = 200 \<and> (\<exists>doc k. decode_document (snd resp) = Some doc \<and> k \<in> set doc \<and> kw_kid k = kid \<and>
    kw_kty k = ''RSA'' \<and> (kw_use k = '''' \<or> kw_use k = ''sig'') \<and> rsa_public_key k = Ok pub)"
proof -
  have "fst resp = 200" using assms(1) by (simp add: keys_of_response_def split: if_splits)
  moreover obtain doc k where "decode_document (snd resp) = Some doc" "k \<in> set doc" "kw_kid k = kid"
    "is_rsa_signature_key k" "rsa_public_key k = Ok pub"
    using assms by (rule keys_of_response_sound)
  ultimately show ?thesis by (auto simp: is_rsa_signature_key_def)
qed

lemma published_keys_are_rsa_example:
  "\<exists>doc k. decode_document demo_document = Some doc \<and> k \<in> set doc \<and> kw_kid k = ''k1'' \<and> rsa_public_key k = Ok demo_key"
  using published_keys_are_rsa [OF demo_keys, of "''k1''" demo_key] by auto

text \<open>C31: A key that is in the cache stays available when the endpoint is down: the lookup answers
  with it, unless a newer set was fetched and stored, and then with what that set says.\<close>

theorem cached_key_survives:
  assumes "map_of (jk_keys j) kid = Some k" and "jwks_key H cfg (j, w) kid = ((j', w'), r)" and "\<And>p. r \<noteq> Panic p"
  shows "r = Ok k \<or> (\<exists>w1 w2. fetch_keys H cfg w1 = (w2, Ok (jk_keys j')) \<and>
    r = (case map_of (jk_keys j') kid of Some k' \<Rightarrow> Ok k' | None \<Rightarrow> Err (no_key kid)))"
  using jwks_key_cached [OF assms(1,2)] assms(3) by blast

definition old_cache :: jwks where
  "old_cache = \<lparr>jk_keys = [(''k1'', demo_key)], jk_fetched_at = - 600 * ns_per_sec\<rparr>"

lemma demo_stale: "jwks_key demo_http demo_jwks_config (old_cache, 0) ''k1'' = ((old_cache, 0), Ok demo_key)"
  using demo_fetch_fails
  by (simp add: jwks_key_def jwks_refresh_def old_cache_def demo_jwks_config_def new_jwks_def ns_per_sec_def sat64_def
      min_int64_def max_int64_def demo_http_def)

theorem cached_key_survives_witness:
  "snd (jwks_key demo_http demo_jwks_config (old_cache, 0) ''k1'') = Ok demo_key"
proof -
  have "map_of (jk_keys old_cache) ''k1'' = Some demo_key" by (simp add: old_cache_def)
  from cached_key_survives [OF this demo_stale] show ?thesis by (simp add: demo_stale)
qed

text \<open>After a refresh that succeeded, no lookup reaches the endpoint before the minimum interval
  has passed, whatever key ids are asked for: the state behind the client only sees two clock
  readings.\<close>

lemma refresh_floor_holds:
  assumes "hl_now H w = (w1, t1)" and "hl_now H w1 = (w2, t2)" and "jk_keys j \<noteq> []"
    and "sat64 (t2 - jk_fetched_at j) < jc_min_refresh cfg"
  shows "fst (jwks_key H cfg (j, w) kid) = (j, w1) \<or> fst (jwks_key H cfg (j, w) kid) = (j, w2)"
proof -
  have "jwks_refresh H cfg (j, w1) = ((j, w2), Ok ())" by (rule refresh_floor [OF assms(2-4)])
  with assms(1) show ?thesis by (simp add: jwks_key_def Let_def)
qed

text \<open>C40: The interval does not limit refreshes that fail: while there are no keys, every lookup asks
  the endpoint again and answers with its error.\<close>

theorem failing_refresh_not_limited:
  assumes "hl_now H w = (w1, t1)" and "hl_now H w1 = (w2, t2)" and "jk_keys j = []"
    and "fetch_keys H cfg w2 = (w3, Err e)"
  shows "jwks_key H cfg (j, w) kid = ((j, w3), Err e)"
  using assms(1,3) refresh_without_keys [OF assms(2-4)] by (simp add: jwks_key_def)

theorem failing_refresh_not_limited_witness:
  "\<exists>e. jwks_key demo_http demo_jwks_config (empty_cache, 0) ''k1'' = ((empty_cache, 0), Err e)"
  by (rule exI, rule failing_refresh_not_limited [OF _ _ _ demo_fetch_fails])
    (simp_all add: demo_http_def empty_cache_def)

section \<open>Requests\<close>

text \<open>C28: The middleware hands a request on exactly when the library accepts its token under the
  configured options, and then with the token's subject and nothing else changed. Otherwise the
  handler behind it is not called and the answer is 401.\<close>

theorem jwt_auth_gate:
  assumes "jwt_auth verify cfg next_handler s req = (s', Ok rsp)"
  shows "(\<exists>raw s1 sub. bearer_token req = Inl raw \<and> verify (parser_options cfg) s raw = (s1, Ok sub) \<and>
      next_handler s1 (req\<lparr>hq_subject := Some sub\<rparr>) = (s', Ok rsp)) \<or>
    \<not> token_accepted verify cfg s req \<and> rp_status rsp = 401 \<and>
      (\<forall>other_handler. jwt_auth verify cfg other_handler s req = (s', Ok rsp))"
proof (cases "token_accepted verify cfg s req")
  case True
  then obtain raw s1 sub where "bearer_token req = Inl raw" "verify (parser_options cfg) s raw = (s1, Ok sub)"
    by (auto simp: token_accepted_def split: sum.splits prod.splits outcome.splits)
  with assms show ?thesis by (auto simp: jwt_auth_def)
next
  case False
  with assms show ?thesis
    using jwt_auth_not_accepted_401 [OF False assms] jwt_auth_not_accepted [OF False] by metis
qed

definition demo_verify :: "unit jwt_verify" where
  "demo_verify opts s raw = (s, if raw = ''good'' then Ok ''alice'' else Err (LibError ''signature is invalid'' []))"

definition demo_http_request :: "string \<Rightarrow> http_request" where
  "demo_http_request authorization =
     \<lparr>hq_method = ''GET'', hq_path = ''/topics'', hq_authorization = [authorization], hq_query = (\<lambda>_. []),
      hq_body = '''', hq_ctx = \<lparr>ctx_deadline = None\<rparr>, hq_subject = None, hq_remote_addr = ''10.0.0.1:5000''\<rparr>"

definition demo_jwt_config :: jwt_config where
  "demo_jwt_config = \<lparr>jt_algorithms = [''HS256''], jt_issuer = '''', jt_audience = ''''\<rparr>"

definition echo_subject :: "unit handler" where
  "echo_subject s req = (s, Ok (respond_json 200 (PRaw (subject req))))"

lemma demo_bearer: "bearer_token (demo_http_request ''bearer bad'') = Inl ''bad''"
  unfolding demo_http_request_def by code_simp

theorem jwt_auth_gate_witness:
  "\<exists>rsp. jwt_auth demo_verify demo_jwt_config echo_subject () (demo_http_request ''bearer bad'') = ((), Ok rsp) \<and>
     rp_status rsp = 401"
proof -
  obtain rsp where r: "jwt_auth demo_verify demo_jwt_config echo_subject () (demo_http_request ''bearer bad'') = ((), Ok rsp)"
    by (simp add: jwt_auth_def demo_bearer demo_verify_def)
  from jwt_auth_gate [OF r] r show ?thesis by (auto simp: demo_bearer demo_verify_def)
qed

text \<open>The kind of key and the accepted algorithm always belong together: HS256 with the shared
  secret, RS256 with a public key or the endpoint's keys. No configuration accepts a public key as
  an HMAC secret.\<close>

lemma keyfunc_algorithms:
  assumes "new_keyfunc read_file parse_pem cfg = Ok (src, algs)"
  shows "(\<exists>sec. src = Secret sec \<and> algs = [''HS256''] \<and> sec = kf_secret cfg) \<or>
    ((\<exists>pub. src = StaticKey pub) \<or> (\<exists>jc j. src = JwksEndpoint jc j \<and> jc_url jc = kf_jwks_url cfg)) \<and> algs = [''RS256'']"
  using assms
  by (auto simp: new_keyfunc_def Let_def new_jwks_def go_simps split: if_splits)

lemma keyfunc_algorithms_example:
  "\<exists>src. new_keyfunc (\<lambda>p. Err (LibError ''no such file'' [])) (\<lambda>s. Ok ())
      \<lparr>kf_algorithm = ''rs256'', kf_secret = ''x'', kf_public_key_file = '''', kf_jwks_url = ''https://issuer''\<rparr> =
      Ok (src, [''RS256'']) \<and> (\<exists>jc j. src = JwksEndpoint jc j)"
proof -
  obtain src algs where r: "new_keyfunc (\<lambda>p. Err (LibError ''no such file'' [])) (\<lambda>s. Ok ())
      \<lparr>kf_algorithm = ''rs256'', kf_secret = ''x'', kf_public_key_file = '''', kf_jwks_url = ''https://issuer''\<rparr> =
      Ok (src, algs)" and "\<exists>jc j. src = JwksEndpoint jc j"
    by (simp add: new_keyfunc_def Let_def lower_char_def new_jwks_def)
  from keyfunc_algorithms [OF r] this show ?thesis by auto
qed

end
