(* ===== verification/ConfigProps.thy ===== *)
theory ConfigProps
  imports Config KafkaSecurity Metrics
begin

text \<open>
  The properties of the configuration (\<open>internal/config\<close>), of the connection security
  (\<open>internal/kafka/security.go\<close>) and of the metrics (\<open>internal/metrics\<close>).
\<close>

section \<open>Configuration\<close>

text \<open>C29: Loading succeeds exactly when no variable failed to parse and the result is valid, and it
  gives what was read; so a running program has a valid configuration.\<close>

theorem load_config_exact:
  "load_config env = Ok cfg \<longleftrightarrow> run_state (read_config env) [] = (cfg, []) \<and> valid_config cfg"
  by (rule load_config_Ok_iff)

text \<open>C38: Every misconfigured variable is reported at once: the number of parse errors is the number
  of variables with a type whose non-empty value does not parse as that type.\<close>

theorem all_parse_errors_reported:
  "length (snd (run_state (read_config env) [])) = ill_typed env"
  using reads_config [of env] by (simp add: reads_def)

text \<open>With nothing set the service starts with its documented defaults: port 8080, one local broker,
  all acknowledgements, batched mode, plaintext, no authentication, at most 10000 messages in a
  batch, and 10 up to 1000 consumed messages.\<close>

lemma default_configuration:
  "\<exists>cfg. load_config (\<lambda>_. None) = Ok cfg \<and> addr (cf_server cfg) = ''0.0.0.0:8080'' \<and>
     kc_brokers (cf_kafka cfg) = [''localhost:9092''] \<and> kc_required_acks (cf_kafka cfg) = ''all'' \<and>
     kc_produce_mode (cf_kafka cfg) = ''batched'' \<and> kc_max_batch_size (cf_kafka cfg) = 10000 \<and>
     kc_default_limit (cf_kafka cfg) = 10 \<and> kc_max_limit (cf_kafka cfg) = 1000 \<and>
     ks_protocol (kc_security (cf_kafka cfg)) = ''plaintext'' \<and> \<not> ac_enabled (cf_auth cfg)"
proof -
  have "case load_config (\<lambda>_. None) of
      Ok cfg \<Rightarrow> kc_brokers (cf_kafka cfg) = [''localhost:9092''] \<and> kc_required_acks (cf_kafka cfg) = ''all'' \<and>
        kc_produce_mode (cf_kafka cfg) = ''batched'' \<and> kc_max_batch_size (cf_kafka cfg) = 10000 \<and>
        kc_default_limit (cf_kafka cfg) = 10 \<and> kc_max_limit (cf_kafka cfg) = 1000 \<and>
        ks_protocol (kc_security (cf_kafka cfg)) = ''plaintext'' \<and> \<not> ac_enabled (cf_auth cfg) \<and>
        sv_host (cf_server cfg) = ''0.0.0.0'' \<and> sv_port (cf_server cfg) = 8080
    | _ \<Rightarrow> False"
    by code_simp
  moreover have "itoa 8080 = ''8080''"
    by (simp add: itoa_def nat_str.simps digit_char_def)
  ultimately show ?thesis by (auto simp: addr_def split: outcome.splits)
qed

section \<open>Security\<close>


definition demo_security_lib :: "(unit, unit, unit) security_lib" where
  "demo_security_lib =
     \<lparr>sl_scram = (\<lambda>n u p. Ok ()), sl_read_file = (\<lambda>p. Ok ''pem''), sl_append_certs = (\<lambda>pem. Some ()),
      sl_load_key_pair = (\<lambda>c k. Ok ())\<rparr>"

definition demo_sasl_ssl :: security_config where
  "demo_sasl_ssl =
     \<lparr>sc_protocol = ''sasl_ssl'', sc_mechanism = ''plain'', sc_username = ''u'', sc_password = ''p'',
      sc_ca_file = ''ca.pem'', sc_cert_file = '''', sc_key_file = '''', sc_server_name = '''', sc_skip_verify = False\<rparr>"

lemma demo_sasl_ssl_uses: "uses_sasl demo_sasl_ssl \<and> uses_tls demo_sasl_ssl"
  by (simp add: uses_sasl_def uses_tls_def demo_sasl_ssl_def lower_char_def Let_def)

lemma demo_secured_client:
  "\<exists>cl. new_client demo_security_lib \<lparr>cg_brokers = [''b:9092''], cg_admin_timeout = 5, cg_security = demo_sasl_ssl\<rparr> = Ok cl"
proof -
  have "mechanism demo_security_lib demo_sasl_ssl = Ok (Some (PlainMechanism ''u'' ''p''))"
    using demo_sasl_ssl_uses by (simp add: mechanism_def Let_def demo_sasl_ssl_def lower_char_def)
  moreover have "\<exists>t. tls_config demo_security_lib demo_sasl_ssl = Ok (Some t)"
    using demo_sasl_ssl_uses
    by (simp add: tls_config_def root_cas_def certificates_def demo_security_lib_def wrapping_def)
  ultimately show ?thesis
    by (auto simp: new_client_Ok build_transport_def build_dialer_def build_def)
qed


text \<open>The producers are connected in the same way as the client, and they wait for the
  acknowledgements that were configured; the batched writer is synchronous, so its errors reach
  the caller.\<close>

lemma producers_secured:
  "(\<forall>lw wr. new_writer SL wcfg = Ok (lw, wr) \<longrightarrow>
      build_transport SL (wc_security wcfg) = Ok (lw_transport lw) \<and>
      (lw_transport lw = None \<longleftrightarrow> \<not> uses_sasl (wc_security wcfg) \<and> \<not> uses_tls (wc_security wcfg)) \<and>
      parse_required_acks (wc_required_acks wcfg) = Ok (lw_required_acks lw) \<and> \<not> lw_async lw \<and>
      wr_allow_auto_create wr = wc_allow_auto_create wcfg) \<and>
   (\<forall>cl acks. new_sync_producer SL scfg = Ok (cl, acks) \<longrightarrow>
      build_transport SL (sy_security scfg) = Ok (ln_transport cl) \<and>
      (ln_transport cl = None \<longleftrightarrow> \<not> uses_sasl (sy_security scfg) \<and> \<not> uses_tls (sy_security scfg)) \<and>
      parse_required_acks (sy_required_acks scfg) = Ok acks)"
  by (auto simp: new_writer_def new_sync_producer_def go_simps dest: build_transport_Ok(1))

section \<open>Metrics\<close>

text \<open>C33: The decorators are transparent: a decorated Kafka operation gives the result of the
  operation and leaves its state as the operation does, on success, on an error and on a panic.\<close>

theorem decorators_transparent:
  "undecorated (instrumented_produce now produce (m, s) c topic msgs) = produce s c topic msgs \<and>
   undecorated (instrumented_read now read (m, s) c req) = read s c req \<and>
   undecorated (instrumented_list_topics now list_topics (m, s) c) = list_topics s c \<and>
   undecorated (instrumented_describe_topic now describe_topic (m, s) c topic) = describe_topic s c topic"
  by (simp add: instrumented_transparent)

text \<open>C32: Over any sequence of publishes the counters say what happened: the operations that succeeded,
  the operations that failed, and the messages of those that succeeded.\<close>

theorem publish_counters:
  assumes "produce_run (instrumented_produce now produce) (m, s) calls = ((m', s'), rs)"
  shows "produce_run produce s calls = (s', rs) \<and>
    kafka_ops m' [op_publish, ''success''] = kafka_ops m [op_publish, ''success''] + length (filter succeeded rs) \<and>
    kafka_ops m' [op_publish, ''error''] = kafka_ops m [op_publish, ''error''] + length (filter failed rs) \<and>
    kafka_messages m' [op_publish] = kafka_messages m [op_publish] + sum_list (map fst (filter succeeded rs))"
  using produce_run_counts [OF assms] by simp

definition flaky_produce :: "nat producer" where
  "flaky_produce s c topic msgs = (Suc s, if even s then Ok [] else Err (KafkaError 7))"

definition demo_calls :: "(ctx \<times> string \<times> message list) list" where
  "demo_calls =
     (let m = \<lparr>m_key = None, m_value = Some ''x'', m_headers = []\<rparr>; c = \<lparr>ctx_deadline = None\<rparr>
      in [(c, ''t'', [m, m]), (c, ''t'', [m]), (c, ''t'', [m, m, m])])"

theorem publish_counters_witness:
  "\<exists>m' s' rs. produce_run (instrumented_produce int flaky_produce) (new_metrics, 0) demo_calls = ((m', s'), rs) \<and>
     kafka_ops m' [op_publish, ''success''] = 2 \<and> kafka_ops m' [op_publish, ''error''] = 1 \<and>
     kafka_messages m' [op_publish] = 5"
proof -
  obtain m' s' rs where r: "produce_run (instrumented_produce int flaky_produce) (new_metrics, 0) demo_calls = ((m', s'), rs)"
    by (metis surj_pair)
  have "produce_run flaky_produce 0 demo_calls = (3, [(2, Ok []), (1, Err (KafkaError 7)), (3, Ok [])])"
    by (simp add: demo_calls_def Let_def flaky_produce_def)
  with publish_counters [OF r] have rs: "rs = [(2, Ok []), (1, Err (KafkaError 7)), (3, Ok [])]" by simp
  from publish_counters [OF r] r show ?thesis
    by (intro exI [of _ m'] exI [of _ s'] exI [of _ rs]) (simp add: rs new_metrics_def)
qed

text \<open>The HTTP middleware passes the handler's result through and counts every request exactly once,
  under its method, its route pattern (\<open>unmatched\<close> when there is none) and its status (200 when the
  handler wrote none), also when the handler panicked; no other counter moves.\<close>

lemma http_requests_counted:
  assumes "handler (m, s) = ((m1, s1), written, pattern, r)"
  shows "\<exists>m'. metrics_middleware now http_method handler (m, s) = ((m', s1), r) \<and>
    (\<forall>labels. http_requests m' labels = http_requests m1 labels +
       (if labels = [http_method, if pattern = '''' then ''unmatched'' else pattern, itoa (if written = 0 then 200 else written)]
        then 1 else 0)) \<and>
    kafka_ops m' = kafka_ops m1 \<and> kafka_messages m' = kafka_messages m1"
  using assms by (simp add: metrics_middleware_def Let_def add_count_def)

end
