(* ===== verification/ServerProps.thy ===== *)
theory ServerProps
  imports Server KafkaProps ApiProps AuthProps ConfigProps
begin

text \<open>
  A runtime to evaluate the whole program on, and the lemmas that carry the properties across
  components in the root theory.
\<close>

section \<open>A runtime\<close>

definition demo_parse :: "(jwks \<times> nat, unit verification_key) jwt_parse" where
  "demo_parse opts kf st raw =
     (case kf st (Some ''k1'') of
        (st', Ok (SecretKey k)) \<Rightarrow> (st', if raw = k then Ok ''alice'' else Err (LibError ''signature is invalid'' []))
      | (st', Ok (RsaKey k)) \<Rightarrow> (st', if raw = ''good'' then Ok ''alice'' else Err (LibError ''signature is invalid'' []))
      | (st', Ok (PemKey u)) \<Rightarrow> (st', Err (LibError ''signature is invalid'' []))
      | (st', Err e) \<Rightarrow> (st', Err e)
      | (st', Panic p) \<Rightarrow> (st', Panic p))"

definition demo_chi :: "(jwks \<times> nat, broker) app chi" where
  "demo_chi =
     \<lparr>chi_find = (\<lambda>keys m p. if p = ''/topics/orders/publish/batch'' then Some (9, ''orders'') else None),
      chi_mounted = (\<lambda>pattern p. take (length pattern) p = pattern),
      chi_not_found = (\<lambda>a req. (a, Ok (respond_json 404 (PRaw ''404 page not found'')))),
      chi_request_id = (\<lambda>h. h), chi_recoverer = (\<lambda>h. h), chi_pattern = hq_path,
      chi_get_req_id = (\<lambda>req. ''id'')\<rparr>"

definition demo_runtime :: "(unit, unit, unit, unit, nat, broker) runtime" where
  "demo_runtime =
     \<lparr>rn_security = demo_security_lib, rn_client = (\<lambda>cl dl. broker_lib), rn_writer = (\<lambda>lw. broker_lib),
      rn_clock = bk_clock, rn_parse_pem = (\<lambda>t. Ok ()), rn_http = demo_http, rn_parse_jwt = demo_parse,
      rn_map_order = (\<lambda>hm. hm), rn_must_register = (\<lambda>reg cs. Ok (reg @ cs)),
      rn_close_writer = (\<lambda>w. (w, Ok ())), rn_close_idle = (\<lambda>w. w), rn_version = ''dev'', rn_openapi = ''openapi: 3.0.3'',
      rn_metrics_page = (\<lambda>a req t. (a, Ok (respond_json 200 (PRaw '''')))),
      rn_docs_page = (\<lambda>a req t. (a, Ok (respond_json 200 (PRaw '''')))), rn_chi = demo_chi,
      rn_atom_text = (\<lambda>a. ''''), rn_uptime_text = (\<lambda>u. ''0'')\<rparr>"

definition unauthenticated_publish :: http_request where
  "unauthenticated_publish =
     \<lparr>hq_method = ''POST'', hq_path = ''/topics/orders/publish/batch'', hq_authorization = [], hq_query = (\<lambda>_. []),
      hq_body = one_value_body, hq_ctx = no_deadline, hq_subject = None, hq_remote_addr = ''10.0.0.1:5000''\<rparr>"

definition demo_env :: environment where
  "demo_env k =
     (if k = ''KRA_AUTH_ENABLED'' then Some ''true''
      else if k = ''KRA_AUTH_JWT_SECRET'' then Some ''s3cret''
      else if k = ''KRA_KAFKA_PRODUCE_MODE'' then Some ''sync''
      else None)"

lemma demo_outside_ok: "outside_ok demo_runtime"
  by (simp add: outside_ok_def demo_runtime_def demo_security_lib_def registers_distinct_def)

lemma demo_chi_transparent: "chi_transparent (rn_chi demo_runtime)"
  by (simp add: chi_transparent_def demo_runtime_def demo_chi_def)

lemma demo_loads:
  "\<exists>cfg. load_config demo_env = Ok cfg \<and> ac_enabled (cf_auth cfg) \<and>
     kc_produce_mode (cf_kafka cfg) = ''sync'' \<and> kc_required_acks (cf_kafka cfg) = ''all''"
proof -
  have "case load_config demo_env of
      Ok cfg \<Rightarrow> ac_enabled (cf_auth cfg) \<and> kc_produce_mode (cf_kafka cfg) = ''sync'' \<and>
        kc_required_acks (cf_kafka cfg) = ''all''
    | _ \<Rightarrow> False"
    by code_simp
  then show ?thesis by (auto split: outcome.splits)
qed

lemma demo_producer:
  "\<exists>cfg sec. new_producer demo_runtime cfg sec = Ok (sync_produce broker_lib RequireAll)"
proof -
  obtain cfg where l: "load_config demo_env = Ok cfg" and mode: "kc_produce_mode (cf_kafka cfg) = ''sync''"
    and acks: "kc_required_acks (cf_kafka cfg) = ''all''" using demo_loads by blast
  then have "valid_security (kc_security (cf_kafka cfg))"
    by (simp add: load_config_Ok_iff valid_config_def Let_def)
  from security_builds [OF this demo_outside_ok] obtain mt where
    mt: "build (rn_security demo_runtime) (security_of (kc_security (cf_kafka cfg))) = Ok mt" by blast
  have "parse_required_acks ''all'' = Ok RequireAll"
    by (simp add: parse_required_acks_def lower_char_def Let_def)
  moreover have "\<exists>tp. build_transport (rn_security demo_runtime) (security_of (kc_security (cf_kafka cfg))) = Ok tp"
    by (cases mt) (simp add: build_transport_def mt)
  moreover have "rn_client demo_runtime = (\<lambda>cl dl. broker_lib)"
    by (simp add: demo_runtime_def)
  ultimately have "new_producer demo_runtime (cf_kafka cfg) (security_of (kc_security (cf_kafka cfg))) =
      Ok (sync_produce broker_lib RequireAll)"
    by (auto simp: new_producer_def mode equal_fold_def new_sync_producer_def acks wrapping_def)
  then show ?thesis by blast
qed

section \<open>Requests behind the guard\<close>

definition key_source_of :: "('m, 'p, 'c, 'k, 'h, 'w) runtime \<Rightarrow> auth_config \<Rightarrow> ('k key_source \<times> string list) outcome" where
  "key_source_of R a =
     new_keyfunc (sl_read_file (rn_security R)) (rn_parse_pem R)
       \<lparr>kf_algorithm = ac_algorithm a, kf_secret = ac_secret a,
        kf_public_key_file = ac_public_key_file a, kf_jwks_url = ac_jwks_url a\<rparr>"

text \<open>Answered with 401, and the cluster as before.\<close>

definition refused :: "('a, 'w) app \<Rightarrow> ('a, 'w) app \<times> response outcome \<Rightarrow> bool" where
  "refused a x \<longleftrightarrow> ap_world (fst x) = ap_world a \<and> (\<exists>rsp. snd x = Ok rsp \<and> rp_status rsp = 401)"

lemma refusedI: "x = (a', Ok rsp) \<Longrightarrow> rp_status rsp = 401 \<Longrightarrow> ap_world a' = ap_world a \<Longrightarrow> refused a x"
  by (simp add: refused_def)

lemma wire_Ok:
  assumes "wire R cfg started = Ok (h, j, m)"
  obtains produce L auth where
    "h = router_handler (rn_chi R) (app_router_config R cfg started produce L auth)"
    and "new_auth R (cf_auth cfg) = Ok (auth, j)" and "m = new_metrics"
  using assms by (auto simp: wire_def register_metrics_def Let_def go_simps)

lemma new_auth_enabled:
  assumes "new_auth R a = Ok (auth, j)" and "ac_enabled a"
  obtains src algs where "key_source_of R a = Ok (src, algs)"
    and "auth = Some (auth_middleware R (jwt_config_of a algs) src)" and "j = source_cache src"
  using assms by (auto simp: new_auth_def key_source_of_def go_simps)

lemma selected_server_route:
  assumes "chi_find (rn_chi R) server_routes (hq_method req) (hq_path req) = Some (i, topic)" and "i < 10"
  shows "\<exists>rt. selected (rn_chi R) (app_router_config R cfg started produce L auth) req = Some (rt, topic)"
proof -
  let ?rs = "routes (app_router_config R cfg started produce L auth)"
  have "length ?rs = length server_routes"
    using app_route_keys [of R cfg started produce L auth] by (metis length_map route_keys_def)
  then have "i < length ?rs" using assms(2) by (simp add: server_routes_def)
  then obtain r rs where "drop i ?rs = r # rs" by (metis Cons_nth_drop_Suc)
  with assms(1) show ?thesis by (simp add: selected_def app_route_keys)
qed

text \<open>A request for a topic route, with authentication on: which of the three ways it takes.\<close>

lemma guarded_dispatch:
  assumes "under_topics chi req" and "rg_auth (app_router_config R cfg started produce L auth) = Some mw"
    and "chi = rn_chi R"
  shows "\<exists>rh. dispatch chi (app_router_config R cfg started produce L auth) a req = mw rh a req"
proof -
  let ?cfg = "app_router_config R cfg started produce L auth"
  show ?thesis
  proof (cases "chi_find chi server_routes (hq_method req) (hq_path req)")
    case None
    then have "selected chi ?cfg req = None" by (simp add: selected_def app_route_keys)
    with None assms(1,2) show ?thesis by (auto simp: dispatch_unrouted under_topics_def)
  next
    case (Some it)
    then obtain i topic where f: "chi_find chi server_routes (hq_method req) (hq_path req) = Some (i, topic)"
      by (cases it) simp
    with assms(1) have i: "5 \<le> i" "i < 10" by (simp_all add: under_topics_def server_routes_def)
    obtain rt where sel: "selected chi ?cfg req = Some (rt, topic)"
      using selected_server_route [OF f [unfolded assms(3)] i(2)] assms(3) by blast
    have "re_guarded rt" by (rule guarded_topic_route [OF sel f i(1)])
    with assms(2) have "dispatch chi ?cfg a req = mw (\<lambda>s req. re_handler rt s req topic) a req"
      by (simp add: dispatch_selected [OF sel] serve_guarded)
    then show ?thesis by blast
  qed
qed

lemma guarded_request:
  assumes "wire R cfg started = Ok (h, j, m)" and "ac_enabled (cf_auth cfg)" and "chi_transparent (rn_chi R)"
    and "under_topics (rn_chi R) req"
  shows "\<exists>src algs rh. key_source_of R (cf_auth cfg) = Ok (src, algs) \<and>
    ap_world (fst (h a req)) = ap_world (fst (auth_middleware R (jwt_config_of (cf_auth cfg) algs) src rh a req)) \<and>
    (\<forall>rsp. snd (auth_middleware R (jwt_config_of (cf_auth cfg) algs) src rh a req) = Ok rsp \<longrightarrow>
       snd (h a req) = Ok rsp)"
proof -
  obtain produce L auth where h: "h = router_handler (rn_chi R) (app_router_config R cfg started produce L auth)"
    and na: "new_auth R (cf_auth cfg) = Ok (auth, j)" by (rule wire_Ok [OF assms(1)])
  obtain src algs where src: "key_source_of R (cf_auth cfg) = Ok (src, algs)"
    and auth: "auth = Some (auth_middleware R (jwt_config_of (cf_auth cfg) algs) src)"
    by (rule new_auth_enabled [OF na assms(2)])
  let ?cfg = "app_router_config R cfg started produce L auth"
  have "rg_auth ?cfg = Some (auth_middleware R (jwt_config_of (cf_auth cfg) algs) src)"
    by (simp add: app_router_config_def auth)
  from guarded_dispatch [OF assms(4) this refl] obtain rh where
    d: "dispatch (rn_chi R) ?cfg a req = auth_middleware R (jwt_config_of (cf_auth cfg) algs) src rh a req" by blast
  obtain a' r where hr: "h a req = (a', r)" by force
  from router_handler_world [OF assms(3) hr [unfolded h]] obtain a1 r1 where
    "dispatch (rn_chi R) ?cfg a req = (a1, r1)" "ap_world a' = ap_world a1" "\<forall>rsp. r1 = Ok rsp \<longrightarrow> r = Ok rsp"
    by blast
  note run = this
  have "auth_middleware R (jwt_config_of (cf_auth cfg) algs) src rh a req = (a1, r1)"
    using run(1) by (simp only: d)
  with run(2,3) hr src show ?thesis by (intro exI [of _ src] exI [of _ algs] exI [of _ rh]) simp
qed

lemma auth_middleware_no_token:
  "bearer_token req = Inr msg \<Longrightarrow> auth_middleware R jc src rh a req = (a, Ok (write_auth_error msg))"
  by (simp add: auth_middleware_def jwt_auth_def)

lemma auth_middleware_rejected:
  assumes "bearer_token req = Inl raw"
    and "rn_parse_jwt R (parser_options jc) (source_keyfunc (rn_http R) src) (ap_auth a) raw = (st, Err e)"
  shows "auth_middleware R jc src rh a req =
    (a\<lparr>ap_auth := st\<rparr>, Ok (write_auth_error ''invalid or expired token''))"
  using assms by (simp add: auth_middleware_def jwt_auth_def app_verify_def auth_call_def)

lemma auth_middleware_panicked:
  assumes "bearer_token req = Inl raw"
    and "rn_parse_jwt R (parser_options jc) (source_keyfunc (rn_http R) src) (ap_auth a) raw = (st, Panic p)"
  shows "auth_middleware R jc src rh a req = (a\<lparr>ap_auth := st\<rparr>, Panic p)"
  using assms by (simp add: auth_middleware_def jwt_auth_def app_verify_def auth_call_def)

end
