(* ===== verification/ServerRun.thy ===== *)
theory ServerRun
  imports Server
begin

text \<open>
  The life of the process: \<open>run\<close> of \<open>cmd/server/main.go\<close>.

  \<open>start_server\<close> is \<open>run\<close> up to the \<open>http.Server\<close>: load the configuration, build the producer,
  wire the rest; when a later part fails, the deferred close of the producer runs. From then on two
  goroutines and the connections of \<open>net/http\<close> run side by side: \<open>run_step\<close> is one step of one of them.

  \<^item> The main goroutine (\<open>main_pc\<close>) waits in the \<open>select\<close>, shuts the server down after a signal, and
    closes the producer on its way out.
  \<^item> The goroutine of the listener (\<open>listener_pc\<close>) serves until \<open>ListenAndServe\<close> ends and then sends
    the error, if it is one, on \<open>serverErr\<close>, a channel with one place.
  \<^item> A request is counted from its arrival to its response (\<open>pr_active\<close>); its handler runs as one step.

  Assumed of \<open>net/http\<close>, as its documentation says: no request begins after \<open>Shutdown\<close> was called,
  \<open>Shutdown\<close> returns no error only when no request is left, and \<open>ErrServerClosed\<close> comes from a
  server that was shut down.
\<close>

section \<open>Starting\<close>

record 'h http_server =
  hs_addr :: string
  hs_handler :: 'h
  hs_read_timeout :: int
  hs_write_timeout :: int
  hs_idle_timeout :: int

definition new_server :: "server_config \<Rightarrow> 'h \<Rightarrow> 'h http_server" where
  "new_server cfg h =
     \<lparr>hs_addr = addr cfg, hs_handler = h, hs_read_timeout = sv_read_timeout cfg,
      hs_write_timeout = sv_write_timeout cfg, hs_idle_timeout = sv_idle_timeout cfg\<rparr>"

definition writer_close :: "('m, 'p, 'c, 'k, 'h, 'w) runtime \<Rightarrow> 'w \<Rightarrow> 'w \<times> unit outcome" where
  "writer_close R w = rn_close_writer R w"

text \<open>The client's transport is always the library's, so its idle connections are closed.\<close>

definition sync_close :: "('m, 'p, 'c, 'k, 'h, 'w) runtime \<Rightarrow> 'w \<Rightarrow> 'w \<times> unit outcome" where
  "sync_close R w = (rn_close_idle R w, Ok ())"

text \<open>The close function \<open>newProducer\<close> returns beside the producer.\<close>

definition close_producer :: "('m, 'p, 'c, 'k, 'h, 'w) runtime \<Rightarrow> kafka_config \<Rightarrow> 'w \<Rightarrow> 'w \<times> unit outcome" where
  "close_producer R cfg = (if equal_fold (kc_produce_mode cfg) ''sync'' then sync_close R else writer_close R)"

definition start_server :: "('m, 'p, 'c, 'k, 'h, 'w) runtime \<Rightarrow> environment \<Rightarrow> int \<Rightarrow> 'w \<Rightarrow>
    'w \<times> (config \<times> (jwks \<times> 'h, 'w) app handler http_server \<times> jwks \<times> metrics) outcome" where
  "start_server R env started w =
     and_then (w, wrapping ''load config: '' (load_config env)) id (\<lambda>w cfg.
     and_then (w, wrapping ''init kafka producer: ''
         (new_producer R (cf_kafka cfg) (security_of (kc_security (cf_kafka cfg))))) id (\<lambda>w produce.
       (case wire R cfg started of
          Ok (h, j, m) \<Rightarrow> (w, Ok (cfg, new_server (cf_server cfg) h, j, m))
        | Err e \<Rightarrow> (fst (close_producer R (cf_kafka cfg) w), Err e)
        | Panic p \<Rightarrow> (fst (close_producer R (cf_kafka cfg) w), Panic p))))"

section \<open>Running\<close>

datatype main_pc = Selecting | ShuttingDown | Draining | Returning "goerr option" | Exited "goerr option"

datatype listener_pc = Listening | Sending goerr | Stopped

record ('a, 'w) process =
  pr_main :: main_pc
  pr_listener :: listener_pc
  pr_errs :: "goerr list"
  pr_signal :: bool
  pr_draining :: bool
  pr_active :: nat
  pr_app :: "('a, 'w) app"

definition server_err_capacity :: nat where
  "server_err_capacity = 1"

definition initial_process :: "('a, 'w) app \<Rightarrow> ('a, 'w) process" where
  "initial_process a =
     \<lparr>pr_main = Selecting, pr_listener = Listening, pr_errs = [], pr_signal = False,
      pr_draining = False, pr_active = 0, pr_app = a\<rparr>"

fun exited :: "main_pc \<Rightarrow> bool" where
  "exited (Exited r) = True"
| "exited _ = False"

definition server_error :: "goerr \<Rightarrow> goerr" where
  "server_error e = Errorf [A (Lit ''http server: ''), W e]"

definition shutdown_error :: "goerr \<Rightarrow> goerr" where
  "shutdown_error e = Errorf [A (Lit ''graceful shutdown: ''), W e]"

definition close_world :: "('w \<Rightarrow> 'w \<times> unit outcome) \<Rightarrow> ('a, 'w) app \<Rightarrow> ('a, 'w) app" where
  "close_world close a = a\<lparr>ap_world := fst (close (ap_world a))\<rparr>"

inductive run_step :: "('a, 'w) app handler \<Rightarrow> ('w \<Rightarrow> 'w \<times> unit outcome) \<Rightarrow>
    ('a, 'w) process \<Rightarrow> ('a, 'w) process \<Rightarrow> bool" for h close where
  request: "\<not> exited (pr_main p) \<Longrightarrow> \<not> pr_draining p \<Longrightarrow>
    run_step h close p (p\<lparr>pr_active := Suc (pr_active p)\<rparr>)"
| response: "\<not> exited (pr_main p) \<Longrightarrow> pr_active p = Suc n \<Longrightarrow> h (pr_app p) req = (a', r) \<Longrightarrow>
    run_step h close p (p\<lparr>pr_active := n, pr_app := a'\<rparr>)"
| signal: "\<not> exited (pr_main p) \<Longrightarrow> run_step h close p (p\<lparr>pr_signal := True\<rparr>)"
| served: "\<not> exited (pr_main p) \<Longrightarrow> pr_listener p = Listening \<Longrightarrow>
    is_err e ServerClosed \<longrightarrow> pr_draining p \<Longrightarrow>
    run_step h close p (p\<lparr>pr_listener := (if \<not> is_err e ServerClosed then Sending e else Stopped)\<rparr>)"
| send: "\<not> exited (pr_main p) \<Longrightarrow> pr_listener p = Sending e \<Longrightarrow> length (pr_errs p) < server_err_capacity \<Longrightarrow>
    run_step h close p (p\<lparr>pr_listener := Stopped, pr_errs := pr_errs p @ [e]\<rparr>)"
| select_error: "pr_main p = Selecting \<Longrightarrow> pr_errs p = e # es \<Longrightarrow>
    run_step h close p (p\<lparr>pr_main := Returning (Some (server_error e)), pr_errs := es\<rparr>)"
| select_signal: "pr_main p = Selecting \<Longrightarrow> pr_signal p \<Longrightarrow>
    run_step h close p (p\<lparr>pr_main := ShuttingDown\<rparr>)"
| shutdown: "pr_main p = ShuttingDown \<Longrightarrow>
    run_step h close p (p\<lparr>pr_main := Draining, pr_draining := True\<rparr>)"
| shutdown_returns: "pr_main p = Draining \<Longrightarrow> r = None \<longrightarrow> pr_active p = 0 \<Longrightarrow>
    run_step h close p (p\<lparr>pr_main := Returning (map_option shutdown_error r)\<rparr>)"
| deferred: "pr_main p = Returning r \<Longrightarrow>
    run_step h close p (p\<lparr>pr_main := Exited r, pr_app := close_world close (pr_app p)\<rparr>)"

abbreviation runs :: "('a, 'w) app handler \<Rightarrow> ('w \<Rightarrow> 'w \<times> unit outcome) \<Rightarrow>
    ('a, 'w) process \<Rightarrow> ('a, 'w) process \<Rightarrow> bool" where
  "runs h close \<equiv> (run_step h close)\<^sup>*\<^sup>*"

text \<open>\<open>main\<close>: what it writes to stderr, and the status it exits with.\<close>

definition fatal_text :: "goerr option \<Rightarrow> atom list" where
  "fatal_text r =
     (case r of None \<Rightarrow> [] | Some e \<Rightarrow> Lit ''fatal: '' # error_text e @ [Lit [CHR 0x0A]])"

definition exit_status :: "goerr option \<Rightarrow> int" where
  "exit_status r = (case r of None \<Rightarrow> 0 | Some e \<Rightarrow> 1)"

section \<open>The invariant\<close>

text \<open>Why \<open>run\<close> returns what it returns, and what is on the channel, as predicates of the fields.\<close>

fun end_reason :: "bool \<Rightarrow> bool \<Rightarrow> nat \<Rightarrow> listener_pc \<Rightarrow> goerr option \<Rightarrow> bool" where
  "end_reason sig draining n l None \<longleftrightarrow> sig \<and> draining \<and> n = 0"
| "end_reason sig draining n l (Some x) \<longleftrightarrow>
     (\<exists>e. x = server_error e \<and> \<not> is_err e ServerClosed \<and> l = Stopped) \<or>
     (\<exists>e. x = shutdown_error e \<and> sig)"

fun main_ok :: "bool \<Rightarrow> bool \<Rightarrow> nat \<Rightarrow> listener_pc \<Rightarrow> main_pc \<Rightarrow> bool" where
  "main_ok sig draining n l Selecting \<longleftrightarrow> \<not> draining"
| "main_ok sig draining n l ShuttingDown \<longleftrightarrow> sig \<and> \<not> draining"
| "main_ok sig draining n l Draining \<longleftrightarrow> sig \<and> draining"
| "main_ok sig draining n l (Returning r) \<longleftrightarrow> end_reason sig draining n l r"
| "main_ok sig draining n l (Exited r) \<longleftrightarrow> end_reason sig draining n l r"

fun channel_ok :: "listener_pc \<Rightarrow> goerr list \<Rightarrow> bool" where
  "channel_ok Listening es \<longleftrightarrow> es = []"
| "channel_ok (Sending e) es \<longleftrightarrow> es = [] \<and> \<not> is_err e ServerClosed"
| "channel_ok Stopped es \<longleftrightarrow> length es \<le> 1 \<and> (\<forall>e \<in> set es. \<not> is_err e ServerClosed)"

definition run_inv :: "('a, 'w) process \<Rightarrow> bool" where
  "run_inv p \<longleftrightarrow>
     main_ok (pr_signal p) (pr_draining p) (pr_active p) (pr_listener p) (pr_main p) \<and>
     channel_ok (pr_listener p) (pr_errs p)"

lemma run_inv_initial: "run_inv (initial_process a)"
  by (simp add: run_inv_def initial_process_def)

lemma end_reason_mono:
  "end_reason sig draining n l r \<Longrightarrow> (l = Stopped \<longrightarrow> l' = Stopped) \<Longrightarrow> (r = None \<longrightarrow> n' = 0) \<Longrightarrow> (sig \<longrightarrow> sig') \<Longrightarrow>
     end_reason sig' draining n' l' r"
  by (cases r) auto

lemma main_ok_mono:
  "main_ok sig draining n l pc \<Longrightarrow> (l = Stopped \<longrightarrow> l' = Stopped) \<Longrightarrow>
     (\<forall>r. pc = Returning r \<or> pc = Exited r \<longrightarrow> r = None \<longrightarrow> n' = 0) \<Longrightarrow> (sig \<longrightarrow> sig') \<Longrightarrow>
     main_ok sig' draining n' l' pc"
  by (cases pc) (auto intro: end_reason_mono)

lemma main_ok_same:
  "main_ok sig draining n l pc \<Longrightarrow> (l = Stopped \<longrightarrow> l' = Stopped) \<Longrightarrow> (sig \<longrightarrow> sig') \<Longrightarrow>
     main_ok sig' draining n l' pc"
  by (rule main_ok_mono) auto

lemma channel_full: "channel_ok l (e # es) \<Longrightarrow> l = Stopped \<and> es = [] \<and> \<not> is_err e ServerClosed"
  by (cases l) auto

lemma run_inv_step: "run_step h close p p' \<Longrightarrow> run_inv p \<Longrightarrow> run_inv p'"
proof (induction rule: run_step.induct)
  case (request p)
  then have "pr_main p \<noteq> Returning None" "pr_main p \<noteq> Exited None" by (auto simp: run_inv_def)
  with request show ?case by (auto simp: run_inv_def elim!: main_ok_mono)
next
  case (response p n req a' r)
  then have "pr_main p \<noteq> Returning None" "pr_main p \<noteq> Exited None" by (auto simp: run_inv_def)
  with response show ?case by (auto simp: run_inv_def elim!: main_ok_mono)
next
  case (signal p)
  then show ?case by (auto simp: run_inv_def elim!: main_ok_same)
next
  case (served p e)
  then show ?case by (auto simp: run_inv_def elim!: main_ok_same)
next
  case (send p e)
  then show ?case by (auto simp: run_inv_def elim!: main_ok_same)
next
  case (select_error p e es)
  then show ?case using channel_full [of "pr_listener p" e es] by (auto simp: run_inv_def)
next
  case (select_signal p)
  then show ?case by (simp add: run_inv_def)
next
  case (shutdown p)
  then show ?case by (simp add: run_inv_def)
next
  case (shutdown_returns p r)
  then show ?case by (cases r) (auto simp: run_inv_def)
next
  case (deferred p r)
  then show ?case by (simp add: run_inv_def)
qed

lemma run_inv_reachable: "runs h close (initial_process a) p \<Longrightarrow> run_inv p"
  by (induction rule: rtranclp_induct) (simp_all add: run_inv_initial run_inv_step)

text \<open>What the handler keeps, and the close of the producer, holds of the state throughout.\<close>

lemma runs_keep:
  assumes "runs h close (initial_process a) p" and "P a"
    and "\<And>a req a' r. P a \<Longrightarrow> h a req = (a', r) \<Longrightarrow> P a'" and "\<And>a. P a \<Longrightarrow> P (close_world close a)"
  shows "P (pr_app p)"
  using assms(1)
proof (induction rule: rtranclp_induct)
  case base
  then show ?case using assms(2) by (simp add: initial_process_def)
next
  case (step p p')
  from step.hyps(2) step.IH show ?case
    by (induction rule: run_step.induct) (auto intro: assms(3,4))
qed

section \<open>The way to the end\<close>

text \<open>How many of its own steps the main goroutine is from the end.\<close>

fun main_steps_left :: "main_pc \<Rightarrow> nat" where
  "main_steps_left Selecting = 4"
| "main_steps_left ShuttingDown = 3"
| "main_steps_left Draining = 2"
| "main_steps_left (Returning r) = 1"
| "main_steps_left (Exited r) = 0"

definition stopping :: "('a, 'w) process \<Rightarrow> bool" where
  "stopping p \<longleftrightarrow> pr_signal p \<or> pr_errs p \<noteq> [] \<or> pr_main p \<noteq> Selecting"

lemma main_steps_left_step: "run_step h close p p' \<Longrightarrow> main_steps_left (pr_main p') \<le> main_steps_left (pr_main p)"
  by (induction rule: run_step.induct) simp_all

lemma stopping_step: "run_step h close p p' \<Longrightarrow> stopping p \<Longrightarrow> stopping p'"
  by (induction rule: run_step.induct) (auto simp: stopping_def)

lemma main_progress:
  assumes "stopping p" and "\<not> exited (pr_main p)"
  shows "\<exists>p'. run_step h close p p' \<and> main_steps_left (pr_main p') < main_steps_left (pr_main p)"
proof (cases "pr_main p")
  case Selecting
  show ?thesis
  proof (cases "pr_signal p")
    case True
    from run_step.select_signal [OF Selecting this, of h close] Selecting show ?thesis by force
  next
    case False
    with assms(1) Selecting obtain e es where "pr_errs p = e # es" by (auto simp: stopping_def neq_Nil_conv)
    from run_step.select_error [OF Selecting this, of h close] Selecting show ?thesis by force
  qed
next
  case ShuttingDown
  from run_step.shutdown [OF this, of h close] this show ?thesis by force
next
  case Draining
  from run_step.shutdown_returns [OF this, of "Some (Sentinel DeadlineExceeded)" h close] this
  show ?thesis by force
next
  case (Returning r)
  from run_step.deferred [OF this, of h close] this show ?thesis by force
next
  case (Exited r)
  with assms(2) show ?thesis by simp
qed

lemma stopping_exits:
  "stopping p \<Longrightarrow> \<exists>n p'. n \<le> main_steps_left (pr_main p) \<and> (run_step h close ^^ n) p p' \<and> exited (pr_main p')"
proof (induction "main_steps_left (pr_main p)" arbitrary: p rule: less_induct)
  case less
  show ?case
  proof (cases "exited (pr_main p)")
    case True
    then show ?thesis by (intro exI [of _ 0]) simp
  next
    case False
    from main_progress [OF less.prems this] obtain q where
      q: "run_step h close p q" "main_steps_left (pr_main q) < main_steps_left (pr_main p)" by blast
    from less.hyps [OF q(2) stopping_step [OF q(1) less.prems]] obtain n p' where
      n: "n \<le> main_steps_left (pr_main q)" "(run_step h close ^^ n) q p'" "exited (pr_main p')" by blast
    have "(run_step h close ^^ Suc n) p p'" using q(1) n(2) by (rule relpowp_Suc_I2)
    moreover have "Suc n \<le> main_steps_left (pr_main p)" using n(1) q(2) by simp
    ultimately show ?thesis using n(3) by blast
  qed
qed

lemma stopping_exits_in:
  assumes "stopping p"
  shows "\<exists>n p'. n \<le> 4 \<and> (run_step h close ^^ n) p p' \<and> exited (pr_main p')"
proof -
  have "main_steps_left (pr_main p) \<le> 4" by (cases "pr_main p") simp_all
  with stopping_exits [OF assms, of h close] show ?thesis by (meson le_trans)
qed

text \<open>The end is the close of the producer.\<close>

lemma exited_closed:
  assumes "runs h close (initial_process a) p" and "pr_main p = Exited r"
  shows "\<exists>q. runs h close (initial_process a) q \<and> pr_main q = Returning r \<and>
    p = q\<lparr>pr_main := Exited r, pr_app := close_world close (pr_app q)\<rparr>"
  using assms(1)
proof (cases rule: rtranclp.cases)
  case rtrancl_refl
  with assms(2) show ?thesis by (simp add: initial_process_def)
next
  case (rtrancl_into_rtrancl q)
  from rtrancl_into_rtrancl(2) assms(2)
  have "pr_main q = Returning r \<and> p = q\<lparr>pr_main := Exited r, pr_app := close_world close (pr_app q)\<rparr>"
    by (cases rule: run_step.cases) auto
  with rtrancl_into_rtrancl(1) show ?thesis by blast
qed

text \<open>The listener is never left waiting for a place on the channel.\<close>

lemma send_not_blocked:
  assumes "run_inv p" and "pr_listener p = Sending e" and "\<not> exited (pr_main p)"
  shows "\<exists>p'. run_step h close p p' \<and> pr_listener p' = Stopped \<and> stopping p'"
  using assms
  by (intro exI [of _ "p\<lparr>pr_listener := Stopped, pr_errs := pr_errs p @ [e]\<rparr>"] conjI run_step.send)
    (simp_all add: run_inv_def server_err_capacity_def stopping_def)

section \<open>Runs to evaluate\<close>

lemma one_request_runs:
  assumes "h a req = (a', r)"
  shows "\<exists>p. runs h close (initial_process a) p \<and> pr_app p = a'"
proof -
  let ?p = "(initial_process a)\<lparr>pr_active := Suc 0\<rparr>"
  have "run_step h close (initial_process a) ?p"
    using run_step.request [of "initial_process a" h close] by (simp add: initial_process_def)
  moreover have "run_step h close ?p (?p\<lparr>pr_active := 0, pr_app := a'\<rparr>)"
    by (rule run_step.response) (use assms in \<open>simp_all add: initial_process_def\<close>)
  ultimately have "runs h close (initial_process a) (?p\<lparr>pr_active := 0, pr_app := a'\<rparr>)"
    by (meson converse_rtranclp_into_rtranclp r_into_rtranclp)
  then show ?thesis by (rule_tac exI [of _ "?p\<lparr>pr_active := 0, pr_app := a'\<rparr>"]) simp
qed

lemma signalled_run: "\<exists>p. runs h close (initial_process a) p \<and> pr_main p = Exited None"
proof -
  let ?p1 = "(initial_process a)\<lparr>pr_signal := True\<rparr>"
  let ?p2 = "?p1\<lparr>pr_main := ShuttingDown\<rparr>"
  let ?p3 = "?p2\<lparr>pr_main := Draining, pr_draining := True\<rparr>"
  let ?p4 = "?p3\<lparr>pr_main := Returning None\<rparr>"
  let ?p5 = "?p4\<lparr>pr_main := Exited None, pr_app := close_world close (pr_app ?p4)\<rparr>"
  have "run_step h close (initial_process a) ?p1" by (rule run_step.signal) (simp add: initial_process_def)
  moreover have "run_step h close ?p1 ?p2" by (rule run_step.select_signal) (simp_all add: initial_process_def)
  moreover have "run_step h close ?p2 ?p3" by (rule run_step.shutdown) simp
  moreover have "run_step h close ?p3 ?p4"
    using run_step.shutdown_returns [of ?p3 None h close] by (simp add: initial_process_def)
  moreover have "run_step h close ?p4 ?p5" by (rule run_step.deferred) simp
  ultimately have "runs h close (initial_process a) ?p5"
    by (meson converse_rtranclp_into_rtranclp r_into_rtranclp)
  then show ?thesis by (rule_tac exI [of _ ?p5]) simp
qed

section \<open>A start that fails\<close>

text \<open>The producer is closed exactly when it was built; a configuration that does not load builds none.\<close>

lemma start_server_state:
  assumes "start_server R env started w = (w', r)"
  shows "(case r of
      Ok x \<Rightarrow> w' = w
    | _ \<Rightarrow> w' = w \<or> (\<exists>cfg produce. load_config env = Ok cfg \<and>
        new_producer R (cf_kafka cfg) (security_of (kc_security (cf_kafka cfg))) = Ok produce \<and>
        w' = fst (close_producer R (cf_kafka cfg) w)))"
  using assms
  by (cases "load_config env"; cases "new_producer R (cf_kafka cfg) (security_of (kc_security (cf_kafka cfg)))")
    (auto simp: start_server_def wrapping_def split: outcome.splits)

lemma start_server_Ok:
  "start_server R env started w = (w', Ok (cfg, srv, j, m)) \<longleftrightarrow>
     w' = w \<and> load_config env = Ok cfg \<and> (\<exists>h. wire R cfg started = Ok (h, j, m) \<and> srv = new_server (cf_server cfg) h)"
proof -
  have "\<exists>p. new_producer R (cf_kafka cfg) (security_of (kc_security (cf_kafka cfg))) = Ok p"
    if "wire R cfg started = Ok (h, j, m)" for h
    using that by (auto simp: wire_def Let_def go_simps)
  then show ?thesis
    by (fastforce simp: start_server_def go_simps wrapping_def split: outcome.splits)
qed

end
