(* ===== verification/Observation.thy ===== *)
theory Observation
  imports ServerProps ServerRun
begin

text \<open>
  What the running program observes of a request: the access log and the counter of HTTP requests.
  Whatever the decorators may write is kept by every handler of the program (\<open>dispatch_keeps\<close>): so
  the series of the metrics have the labels they are declared with (\<open>process_metrics_inv\<close>), and, as no
  handler touches the access log or the counter of requests (\<open>dispatch_quiet\<close>), the two middleware
  of the router account for each request once (\<open>request_observed\<close>).
\<close>

section \<open>What an operation leaves alone\<close>

text \<open>A predicate of the state that every operation below keeps is kept by the composition.\<close>

lemma and_then_keeps:
  "P (fst r) \<Longrightarrow> (\<And>s a. P s \<Longrightarrow> P (fst (k s a))) \<Longrightarrow> P (fst (and_then r f k))"
  by (cases "(r, f, k)" rule: and_then.cases) auto

lemma answering_keeps: "P (fst r) \<Longrightarrow> P (fst (answering r))"
  by (cases r rule: answering.cases) auto

lemma list_handler_keeps:
  "P (fst (uc s c)) \<Longrightarrow> P (fst (list_handler uc s c))"
  unfolding list_handler_def by (intro answering_keeps [where P = P] and_then_keeps [where P = P]) auto

lemma describe_handler_keeps:
  "P (fst (uc s c t)) \<Longrightarrow> P (fst (describe_handler uc s c t))"
  unfolding describe_handler_def by (intro answering_keeps [where P = P] and_then_keeps [where P = P]) auto

lemma consume_handler_keeps:
  "P s \<Longrightarrow> (\<And>s query. P s \<Longrightarrow> P (fst (uc s c query))) \<Longrightarrow> P (fst (consume_handler uc s c t q))"
  unfolding consume_handler_def by (intro answering_keeps [where P = P] and_then_keeps [where P = P]) auto

lemma publish_one_handler_keeps:
  "P s \<Longrightarrow> (\<And>s msg. P s \<Longrightarrow> P (fst (uc s c t msg))) \<Longrightarrow> P (fst (publish_one_handler uc ord mx s c t body))"
  unfolding publish_one_handler_def by (intro answering_keeps [where P = P] and_then_keeps [where P = P]) auto

lemma publish_batch_handler_keeps:
  "P s \<Longrightarrow> (\<And>s msgs. P s \<Longrightarrow> P (fst (uc s c t msgs))) \<Longrightarrow>
     P (fst (publish_batch_handler uc ord mx mb s c t body))"
  unfolding publish_batch_handler_def by (intro answering_keeps [where P = P] and_then_keeps [where P = P]) (auto intro!: and_then_keeps [where P = P])

text \<open>A use case calls its interface once or not at all, and leaves the state as the call left it.\<close>

lemma fst_and_then [simp]: "(\<And>s a. fst (k s a) = s) \<Longrightarrow> fst (and_then r f k) = fst r"
  by (cases "(r, f, k)" rule: and_then.cases) auto

lemma use_cases_state:
  "fst (publish_batch produce s c t msgs) \<in> {s, fst (produce s c t msgs)}"
  "fst (list_service list_topics s c) = fst (list_topics s c)"
  "fst (describe_service describe_topic s c t) \<in> {s, fst (describe_topic s c t)}"
  by (simp_all add: publish_batch_def list_service_def describe_service_def split: option.split)

lemma consume_state: "fst (consume read now cfg s c q) = s \<or> (\<exists>c' req. fst (consume read now cfg s c q) = fst (read s c' req))"
  by (simp add: consume_def Let_def) blast

lemma use_cases_keep:
  assumes "P s"
  shows "P (fst (produce s c t msgs)) \<Longrightarrow> P (fst (publish_batch produce s c t msgs))"
    and "(\<And>c' req. P (fst (read s c' req))) \<Longrightarrow> P (fst (consume read now cfg s c q))"
    and "P (fst (list_topics s c)) \<Longrightarrow> P (fst (list_service list_topics s c))"
    and "P (fst (describe_topic s c t)) \<Longrightarrow> P (fst (describe_service describe_topic s c t))"
  using assms use_cases_state(1) [of produce s c t msgs] use_cases_state(2) [of list_topics s c]
    use_cases_state(3) [of describe_topic s c t] consume_state [of read now cfg s c q]
  by (force, metis, simp, force)

section \<open>Log and metrics through the handlers\<close>

text \<open>
  A predicate \<open>stable\<close> under what the handlers do to the log and the metrics: it is about these two
  alone, and it allows what the decorators write. Every handler the router can reach keeps such a
  predicate (\<open>dispatch_keeps\<close>).
\<close>

definition keeps :: "('s \<Rightarrow> bool) \<Rightarrow> 's handler \<Rightarrow> bool" where
  "keeps P h \<longleftrightarrow> (\<forall>s req. P s \<longrightarrow> P (fst (h s req)))"

lemma keepsD: "keeps P h \<Longrightarrow> P s \<Longrightarrow> h s req = (s', r) \<Longrightarrow> P s'"
  by (metis fst_conv keeps_def)

definition same_books :: "('a, 'w) app \<Rightarrow> ('a, 'w) app \<Rightarrow> bool" where
  "same_books a a' \<longleftrightarrow> ap_log a' = ap_log a \<and> ap_metrics a' = ap_metrics a"

definition stable :: "(('a, 'w) app \<Rightarrow> bool) \<Rightarrow> bool" where
  "stable P \<longleftrightarrow>
     (\<forall>a a'. same_books a a' \<longrightarrow> P a \<longrightarrow> P a') \<and>
     (\<forall>a op t t' e. op \<in> set operations \<longrightarrow> P a \<longrightarrow> P (a\<lparr>ap_metrics := record_op op t t' e (ap_metrics a)\<rparr>)) \<and>
     (\<forall>a op n. op \<in> set operations \<longrightarrow> P a \<longrightarrow> P (a\<lparr>ap_metrics := add_messages op n (ap_metrics a)\<rparr>))"

definition quiet_pages :: "('m, 'p, 'c, 'k, 'h, 'w) runtime \<Rightarrow> bool" where
  "quiet_pages R \<longleftrightarrow>
     (\<forall>a req t. same_books a (fst (rn_metrics_page R a req t))) \<and>
     (\<forall>a req t. same_books a (fst (rn_docs_page R a req t))) \<and>
     (\<forall>a req. same_books a (fst (chi_not_found (rn_chi R) a req)))"

lemma stable_same: "stable P \<Longrightarrow> P a \<Longrightarrow> same_books a a' \<Longrightarrow> P a'"
  unfolding stable_def by blast

lemma stable_record:
  "stable P \<Longrightarrow> op \<in> set operations \<Longrightarrow> P a \<Longrightarrow> P (a\<lparr>ap_metrics := record_op op t t' e (ap_metrics a)\<rparr>)"
  unfolding stable_def by blast

lemma stable_add:
  "stable P \<Longrightarrow> op \<in> set operations \<Longrightarrow> P a \<Longrightarrow> P (a\<lparr>ap_metrics := add_messages op n (ap_metrics a)\<rparr>)"
  unfolding stable_def by blast

lemma same_books_simps [simp]:
  "same_books a a" "same_books a (a\<lparr>ap_world := w\<rparr>)" "same_books a (a\<lparr>ap_auth := x\<rparr>)"
  by (simp_all add: same_books_def)

text \<open>The part of the state a Kafka service works on, put back into the whole.\<close>

definition with_kafka :: "('a, 'w) app \<Rightarrow> metrics \<times> 'w \<Rightarrow> ('a, 'w) app" where
  "with_kafka a s = a\<lparr>ap_metrics := fst s, ap_world := snd s\<rparr>"

lemma with_kafka_self: "with_kafka a (ap_metrics a, ap_world a) = a"
  by (simp add: with_kafka_def)

lemma kafka_call_with: "fst (kafka_call f a) = with_kafka a (fst (f (ap_metrics a, ap_world a)))"
  by (simp add: kafka_call_def with_kafka_def split: prod.split)

lemma with_kafka_books [simp]:
  "ap_log (with_kafka a s) = ap_log a" "ap_metrics (with_kafka a s) = fst s"
  by (simp_all add: with_kafka_def)

lemma with_kafka_world: "stable P \<Longrightarrow> P (with_kafka a (m, w)) \<Longrightarrow> P (with_kafka a (m, w'))"
  by (rule stable_same [of P "with_kafka a (m, w)"]) (simp_all add: same_books_def)

lemma with_kafka_record:
  assumes "stable P" and "op \<in> set operations" and "P (with_kafka a (m, w))"
  shows "P (with_kafka a (record_op op t t' e m, w'))"
  by (rule stable_same [OF assms(1) stable_record [OF assms]]) (simp add: same_books_def)

lemma with_kafka_add:
  assumes "stable P" and "op \<in> set operations" and "P (with_kafka a (m, w))"
  shows "P (with_kafka a (add_messages op n m, w))"
  by (rule stable_same [OF assms(1) stable_add [OF assms]]) (simp add: same_books_def)

lemma decorators_keep:
  assumes "stable P" and "P (with_kafka a s)"
  shows "P (with_kafka a (fst (instrumented_produce now produce s c t msgs)))"
    and "P (with_kafka a (fst (instrumented_read now read s c req)))"
    and "P (with_kafka a (fst (instrumented_list_topics now list_topics s c)))"
    and "P (with_kafka a (fst (instrumented_describe_topic now describe_topic s c t)))"
proof -
  obtain m w where s: "s = (m, w)" by force
  note kept = with_kafka_world [OF assms(1) assms(2) [unfolded s]]
  note recorded = with_kafka_record [OF assms(1) _ assms(2) [unfolded s]]
  note added = with_kafka_add [OF assms(1) _ recorded]
  show "P (with_kafka a (fst (instrumented_produce now produce s c t msgs)))"
    by (cases "produce w c t msgs"; cases "snd (produce w c t msgs)")
      (simp_all add: s instrumented_produce_def kept recorded added)
  show "P (with_kafka a (fst (instrumented_read now read s c req)))"
    by (cases "read w c req"; cases "snd (read w c req)")
      (simp_all add: s instrumented_read_def kept recorded added)
  show "P (with_kafka a (fst (instrumented_list_topics now list_topics s c)))"
    by (cases "list_topics w c"; cases "snd (list_topics w c)")
      (simp_all add: s instrumented_list_topics_def kept recorded)
  show "P (with_kafka a (fst (instrumented_describe_topic now describe_topic s c t)))"
    by (cases "describe_topic w c t"; cases "snd (describe_topic w c t)")
      (simp_all add: s instrumented_describe_topic_def kept recorded)
qed

lemma kafka_call_keeps:
  assumes "\<And>a s req. P (with_kafka a s) \<Longrightarrow> P (with_kafka a (fst (g req s)))"
  shows "keeps P (\<lambda>a req. kafka_call (g req) a)"
  using assms by (metis kafka_call_with keeps_def with_kafka_self)

lemma world_auth_keep:
  assumes "stable P" and "P a"
  shows "P (fst (world_call f a))" and "P (fst (auth_call g a))"
  using assms by (auto simp: world_call_def auth_call_def split: prod.split intro: stable_same)

lemma app_handlers_keep:
  fixes R :: "('m, 'p, 'c, 'k, 'h, 'w) runtime" and t :: string and cfg started produce L
  defines "H \<equiv> app_handlers R cfg started produce L"
  assumes "stable P"
  shows "keeps P (\<lambda>a req. hd_live H a req t)" "keeps P (\<lambda>a req. hd_ready H a req t)"
    "keeps P (\<lambda>a req. hd_list H a req t)" "keeps P (\<lambda>a req. hd_describe H a req t)"
    "keeps P (\<lambda>a req. hd_consume H a req t)" "keeps P (\<lambda>a req. hd_publish H a req t)"
    "keeps P (\<lambda>a req. hd_publish_batch H a req t)"
proof -
  note D = decorators_keep [OF assms(2)]
  note U = use_cases_keep [where P = "\<lambda>s. P (with_kafka a s)" for a]
  note H = H_def app_handlers_def Let_def handlers.select_convs
  show "keeps P (\<lambda>a req. hd_live H a req t)" "keeps P (\<lambda>a req. hd_ready H a req t)"
    by (simp_all add: H keeps_def world_auth_keep [OF assms(2)])
  show "keeps P (\<lambda>a req. hd_list H a req t)" unfolding H
    by (rule kafka_call_keeps, rule list_handler_keeps [where P = "\<lambda>s. P (with_kafka a s)" for a],
        rule U(3), assumption, rule D(3))
  show "keeps P (\<lambda>a req. hd_describe H a req t)" unfolding H
    by (rule kafka_call_keeps, rule describe_handler_keeps [where P = "\<lambda>s. P (with_kafka a s)" for a],
        rule U(4), assumption, rule D(4))
  show "keeps P (\<lambda>a req. hd_consume H a req t)" unfolding H
    by (rule kafka_call_keeps, rule consume_handler_keeps [where P = "\<lambda>s. P (with_kafka a s)" for a],
        assumption, rule U(2), assumption, rule D(2))
  show "keeps P (\<lambda>a req. hd_publish H a req t)" unfolding H publish_def
    by (rule kafka_call_keeps, rule publish_one_handler_keeps [where P = "\<lambda>s. P (with_kafka a s)" for a],
        assumption, rule U(1), assumption, rule D(1))
  show "keeps P (\<lambda>a req. hd_publish_batch H a req t)" unfolding H
    by (rule kafka_call_keeps, rule publish_batch_handler_keeps [where P = "\<lambda>s. P (with_kafka a s)" for a],
        assumption, rule U(1), assumption, rule D(1))
qed

lemma routes_keep:
  assumes "stable P" and "quiet_pages R" and "rt \<in> set (routes (app_router_config R cfg started produce L auth))"
  shows "keeps P (\<lambda>a req. re_handler rt a req t)"
  using assms app_handlers_keep [OF assms(1), of R cfg started produce L t]
  by (auto simp: routes_def app_router_config_def Let_def open_route_def topic_route_def quiet_pages_def
      openapi_handler_def keeps_def intro: stable_same)

lemma auth_middleware_keep:
  assumes "stable P" and "keeps P h"
  shows "keeps P (auth_middleware R jc src h)"
proof -
  have "P (fst (auth_middleware R jc src h a req))" if a: "P a" for a req
  proof (cases "bearer_token req")
    case (Inl raw)
    obtain a1 x where v: "app_verify (rn_parse_jwt R) (source_keyfunc (rn_http R) src) (parser_options jc) a raw = (a1, x)"
      by force
    then have "P a1" using world_auth_keep(2) [OF assms(1) a] by (metis app_verify_def fst_conv)
    with Inl v assms(2) show ?thesis
      by (cases x) (simp_all add: auth_middleware_def jwt_auth_def keeps_def)
  qed (simp add: auth_middleware_def jwt_auth_def a)
  then show ?thesis by (simp add: keeps_def)
qed

lemma dispatch_keeps:
  assumes "stable P" and "quiet_pages R" and "new_auth R a = Ok (auth, j)"
  shows "keeps P (dispatch (rn_chi R) (app_router_config R cfg started produce L auth))"
proof -
  let ?cfg = "app_router_config R cfg started produce L auth"
  have guard: "keeps P (guard_topics ?cfg h)" if "keeps P h" for h
    using assms(3) that auth_middleware_keep [OF assms(1) that]
    by (auto simp: guard_topics_def app_router_config_def new_auth_def go_simps split: if_splits)
  have served: "keeps P (serve_route ?cfg rt t)" if "rt \<in> set (routes ?cfg)" for rt t
    using routes_keep [OF assms(1,2) that, of t] guard by (simp add: serve_route_def Let_def)
  have "keeps P (chi_not_found (rn_chi R))"
    using assms(1,2) by (auto simp: quiet_pages_def keeps_def intro: stable_same)
  note nf = this guard [OF this]
  have "P (fst (dispatch (rn_chi R) ?cfg b req))" if b: "P b" for b req
  proof (cases "selected (rn_chi R) ?cfg req")
    case None
    with nf b show ?thesis by (simp add: dispatch_def serve_unrouted_def keeps_def)
  next
    case (Some rt)
    then obtain r t where r: "selected (rn_chi R) ?cfg req = Some (r, t)" by (cases rt) simp
    from served [OF selected_route [OF r], of t] r b show ?thesis by (simp add: dispatch_def keeps_def)
  qed
  then show ?thesis by (simp add: keeps_def)
qed

section \<open>The labels of the metrics\<close>

lemma stable_metrics_inv: "stable (\<lambda>a. metrics_inv (ap_metrics a))"
  by (simp add: stable_def same_books_def metrics_inv_updates)

lemma metrics_mw_inv:
  assumes "keeps (\<lambda>a. metrics_inv (ap_metrics a)) h"
  shows "keeps (\<lambda>a. metrics_inv (ap_metrics a)) (metrics_mw now pattern h)"
proof -
  have "metrics_inv (ap_metrics (fst (metrics_mw now pattern h a req)))" if "metrics_inv (ap_metrics a)" for a req
  proof -
    let ?next = "\<lambda>(m, a). case h (a\<lparr>ap_metrics := m\<rparr>) req of
      (a', r) \<Rightarrow> ((ap_metrics a', a'), written_status r, pattern req, r)"
    obtain a2 r2 where h: "h a req = (a2, r2)" by force
    have self: "a\<lparr>ap_metrics := ap_metrics a\<rparr> = a" by simp
    have "?next (ap_metrics a, a) = ((ap_metrics a2, a2), written_status r2, pattern req, r2)"
      by (simp add: self h)
    moreover have "metrics_inv (ap_metrics a2)" using assms that h by (metis fst_conv keeps_def)
    ultimately have "metrics_inv (fst (fst (metrics_middleware now (hq_method req) ?next (ap_metrics a, a))))"
      by (rule metrics_inv_middleware)
    then show ?thesis by (simp add: metrics_mw_def case_prod_unfold)
  qed
  then show ?thesis by (simp add: keeps_def)
qed

lemma router_metrics_inv:
  assumes "quiet_pages R" and "new_auth R (cf_auth cfg) = Ok (auth, j)" and "chi_transparent (rn_chi R)"
  shows "keeps (\<lambda>a. metrics_inv (ap_metrics a))
    (router_handler (rn_chi R) (app_router_config R cfg started produce L auth))"
proof -
  let ?cfg = "app_router_config R cfg started produce L auth"
  let ?now = "rn_clock R \<circ> ap_world"
  let ?h = "chi_recoverer (rn_chi R) (dispatch (rn_chi R) ?cfg)"
  let ?P = "\<lambda>a. metrics_inv (ap_metrics a)"
  have "keeps ?P ?h"
    using dispatch_keeps [OF stable_metrics_inv assms(1,2)] assms(3) by (simp add: keeps_def chi_transparent_def)
  note m = metrics_mw_inv [OF this, of ?now "chi_pattern (rn_chi R)"]
  have "keeps ?P (request_logger ?now (chi_get_req_id (rn_chi R)) (written_bytes (rn_atom_text R) (rn_uptime_text R))
      (emit_access (lc_level (cf_log cfg)))
      (metrics_mw ?now (chi_pattern (rn_chi R)) ?h))"
    using m by (simp add: keeps_def request_logger_def emit_access_def case_prod_unfold)
  with assms(3) show ?thesis
    by (simp add: router_handler_def app_router_config_def chi_transparent_def keeps_def)
qed

text \<open>In every state the process can be in, whatever it served before.\<close>

lemma process_metrics_inv:
  assumes "start_server R env started w = (w', Ok (cfg, srv, j, m))"
    and "chi_transparent (rn_chi R)" and "quiet_pages R"
    and "runs (hs_handler srv) close
      (initial_process \<lparr>ap_log = log, ap_metrics = m, ap_auth = auth, ap_world = w'\<rparr>) p"
  shows "metrics_inv (ap_metrics (pr_app p))"
proof -
  from assms(1) obtain h where w: "wire R cfg started = Ok (h, j, m)" and srv: "srv = new_server (cf_server cfg) h"
    by (auto simp: start_server_Ok)
  obtain produce L au where h: "h = router_handler (rn_chi R) (app_router_config R cfg started produce L au)"
    and na: "new_auth R (cf_auth cfg) = Ok (au, j)" and m: "m = new_metrics" by (rule wire_Ok [OF w])
  have k: "keeps (\<lambda>a. metrics_inv (ap_metrics a)) (hs_handler srv)"
    using router_metrics_inv [OF assms(3) na assms(2)] by (simp add: srv new_server_def h)
  show ?thesis
    by (rule runs_keep [OF assms(4), where P = "\<lambda>a. metrics_inv (ap_metrics a)"])
      (auto simp: m metrics_inv_new close_world_def dest: keepsD [OF k])
qed

section \<open>Observation\<close>

definition observed :: "('a, 'w) app \<Rightarrow> access_entry list \<times> (string list \<Rightarrow> nat)" where
  "observed a = (ap_log a, http_requests (ap_metrics a))"

definition quiet :: "('a, 'w) app handler \<Rightarrow> bool" where
  "quiet h \<longleftrightarrow> (\<forall>a req. observed (fst (h a req)) = observed a)"

lemma stable_observed: "stable (\<lambda>a. observed a = b)"
  by (simp add: stable_def same_books_def observed_def record_op_def add_messages_def Let_def)

lemma dispatch_quiet:
  assumes "quiet_pages R" and "new_auth R a = Ok (auth, j)"
  shows "quiet (dispatch (rn_chi R) (app_router_config R cfg started produce L auth))"
  using dispatch_keeps [OF stable_observed assms] by (simp add: quiet_def keeps_def)

lemma metrics_mw_observed:
  assumes "quiet h" and "metrics_mw now pattern h a req = (a', r)"
  shows "ap_log a' = ap_log a" and "http_requests (ap_metrics a') =
    add_count [hq_method req, if pattern req = '''' then ''unmatched'' else pattern req,
      itoa (if written_status r = 0 then 200 else written_status r)] 1 (http_requests (ap_metrics a))"
proof -
  obtain a1 r1 where h: "h a req = (a1, r1)" by force
  have o: "observed a1 = observed a" using assms(1) h by (metis fst_conv quiet_def)
  have self: "a\<lparr>ap_metrics := ap_metrics a\<rparr> = a" by simp
  show "ap_log a' = ap_log a" and "http_requests (ap_metrics a') =
    add_count [hq_method req, if pattern req = '''' then ''unmatched'' else pattern req,
      itoa (if written_status r = 0 then 200 else written_status r)] 1 (http_requests (ap_metrics a))"
    using assms(2) h o by (auto simp: metrics_mw_def metrics_middleware_def Let_def observed_def)
qed

lemma request_logger_observed:
  assumes "request_logger now req_id bytes (emit_access level) h a req = (a', r)" and "h a req = (a1, r)"
  shows "\<exists>latency. ap_log a' = ap_log a1 @ (if log_enabled level LevelInfo
      then [access_record req_id bytes req r latency]
      else []) \<and> ap_metrics a' = ap_metrics a1"
  using assms by (auto simp: request_logger_def emit_access_def)

lemma request_observed:
  assumes "quiet_pages R" and "new_auth R (cf_auth cfg) = Ok (auth, j)" and "chi_transparent (rn_chi R)"
    and "router_handler (rn_chi R) (app_router_config R cfg started produce L auth) a req = (a', r)"
  shows "\<exists>latency. ap_log a' = ap_log a @ (if log_enabled (lc_level (cf_log cfg)) LevelInfo
      then [access_record (chi_get_req_id (rn_chi R)) (written_bytes (rn_atom_text R) (rn_uptime_text R)) req r latency]
      else []) \<and> http_requests (ap_metrics a') =
    add_count [hq_method req, if chi_pattern (rn_chi R) req = '''' then ''unmatched'' else chi_pattern (rn_chi R) req,
      itoa (if written_status r = 0 then 200 else written_status r)] 1 (http_requests (ap_metrics a))"
proof -
  let ?cfg = "app_router_config R cfg started produce L auth"
  let ?h = "chi_recoverer (rn_chi R) (dispatch (rn_chi R) ?cfg)"
  let ?m = "metrics_mw (rn_clock R \<circ> ap_world) (chi_pattern (rn_chi R)) ?h"
  have q: "quiet ?h"
    using dispatch_quiet [OF assms(1,2)] assms(3) by (simp add: quiet_def chi_transparent_def)
  have l: "request_logger (rn_clock R \<circ> ap_world) (chi_get_req_id (rn_chi R))
        (written_bytes (rn_atom_text R) (rn_uptime_text R)) (emit_access (lc_level (cf_log cfg))) ?m a req = (a', r)"
    using assms(3,4) by (simp add: router_handler_def app_router_config_def chi_transparent_def)
  then obtain a1 where m: "?m a req = (a1, r)" by (auto simp: request_logger_def split: prod.splits)
  from request_logger_observed [OF l m] metrics_mw_observed [OF q m] show ?thesis by metis
qed

section \<open>The runtime to evaluate on\<close>

lemma demo_started:
  "\<exists>cfg srv j m. start_server demo_runtime demo_env 0 demo_broker = (demo_broker, Ok (cfg, srv, j, m))"
proof -
  obtain cfg where l: "load_config demo_env = Ok cfg" using demo_loads by blast
  then have "valid_config cfg" by (simp add: load_config_Ok_iff)
  from wire_builds [OF this demo_outside_ok] l show ?thesis by (force simp: start_server_Ok)
qed

lemma demo_quiet_pages: "quiet_pages demo_runtime"
  by (simp add: quiet_pages_def demo_runtime_def demo_chi_def)

lemma demo_logs: "load_config demo_env = Ok cfg \<Longrightarrow> log_enabled (lc_level (cf_log cfg)) LevelInfo"
proof -
  have "case load_config demo_env of Ok cfg \<Rightarrow> lc_level (cf_log cfg) = ''info'' | _ \<Rightarrow> True" by code_simp
  moreover have "log_enabled ''info'' LevelInfo" by code_simp
  ultimately show "load_config demo_env = Ok cfg \<Longrightarrow> log_enabled (lc_level (cf_log cfg)) LevelInfo" by simp
qed

end
