(* ===== verification/RoundTrip.thy ===== *)
theory RoundTrip
  imports ApiConsume KafkaClient KafkaSync Metrics
begin

text \<open>
  From the log to the client: what a consume answer shows of a record that was stored for a
  published message. \<open>rendered_record\<close> is one message, \<open>first_scanned_rendered\<close> the first message of
  an answer that starts at an offset which holds the record.
\<close>

lemma encode_value_cong: "bytes_str a = bytes_str b \<Longrightarrow> encode_value a = encode_value b"
  by (simp add: encode_value_def bytes_len_def)

lemma encode_key_cong: "bytes_str a = bytes_str b \<Longrightarrow> encode_key a = encode_key b"
  by (simp add: encode_key_def bytes_len_def)

lemma header_map_of_cong:
  "map (\<lambda>h. (h_key h, bytes_str (h_value h))) hs = map (\<lambda>h. (h_key h, bytes_str (h_value h))) hs' \<Longrightarrow>
     header_map_of hs out = header_map_of hs' out"
proof (induction hs arbitrary: hs' out)
  case Nil
  then show ?case by simp
next
  case (Cons h hs)
  from Cons.prems obtain g gs where g: "hs' = g # gs" "h_key h = h_key g" "bytes_str (h_value h) = bytes_str (h_value g)"
    "map (\<lambda>h. (h_key h, bytes_str (h_value h))) hs = map (\<lambda>h. (h_key h, bytes_str (h_value h))) gs"
    by (cases hs') auto
  show ?case by (simp only: g header_map_of.simps Cons.IH [OF g(4)])
qed

text \<open>What a client sees of a record that was stored for a message.\<close>

lemma rendered_record:
  assumes "shows_record (to_record msg) m"
  shows "encode_value (km_value m) = encode_value (m_value msg)"
    and "encode_key (km_key m) = encode_key (m_key msg)"
    and "cj_headers (render_message (to_consumed_message m)) = header_map_of (m_headers msg) []"
proof -
  have b: "bytes_str (km_value m) = bytes_str (m_value msg)" "bytes_str (km_key m) = bytes_str (m_key msg)"
    and h: "header_texts (km_headers m) = map (\<lambda>h. (h_key h, bytes_str (h_value h))) (m_headers msg)"
    using assms by (simp_all add: shows_record_def to_record_def header_texts_def to_kafka_headers_def o_def)
  show "encode_value (km_value m) = encode_value (m_value msg)" "encode_key (km_key m) = encode_key (m_key msg)"
    by (rule encode_value_cong [OF b(1)], rule encode_key_cong [OF b(2)])
  have "cj_headers (render_message (to_consumed_message m)) = header_map_of (cm_headers (to_consumed_message m)) []"
    by (auto simp: render_message_def split: prod.splits)
  also have "\<dots> = header_map_of (m_headers msg) []"
    using h by (intro header_map_of_cong) (simp add: to_consumed_message_def header_texts_def o_def)
  finally show "cj_headers (render_message (to_consumed_message m)) = header_map_of (m_headers msg) []" .
qed

lemma first_scanned_rendered:
  assumes "reads_log L log pos" and "log w (cq_topic query) (cq_partition query) (cq_offset query) = Some (to_record msg)"
    and "consume_handler (consume (instrumented_read now (client_read L)) clock cfg) (m, w) c topic q = (s', Ok rsp)"
    and "rp_status rsp = 200" and "rp_body rsp = Some (PConsume r)" and "parse_consume_query topic q = Ok query"
    and "0 \<le> cq_offset query" and "cq_from_time query = None" and "is_zero_filter (cq_filter query)"
    and "cs_scanned r \<noteq> 0"
  shows "\<exists>x xs. cs_messages r = x # xs \<and> cj_partition x = cq_partition query \<and> cj_offset x = cq_offset query \<and>
    (cj_value x, cj_value_encoding x) = encode_value (m_value msg) \<and>
    (cj_key x, cj_key_encoding x) = encode_key (m_key msg) \<and> cj_headers x = header_map_of (m_headers msg) []"
proof -
  from assms(3,6) obtain result where
    co: "consume (instrumented_read now (client_read L)) clock cfg (m, w) c query = (s', Ok result)"
    and rsp: "rsp = respond_json 200
      (PConsume \<lparr>cs_topic = topic, cs_partition = cq_partition query,
                 cs_count = length (cr_messages result), cs_scanned = cr_scanned result,
                 cs_messages = to_consumed_messages (cr_messages result)\<rparr>)"
    by (auto simp: consume_handler_200_iff [OF assms(4)])
  from co obtain scanned where
    rd: "instrumented_read now (client_read L) (m, w) (scan_ctx clock cfg (m, w) c query) (read_request_of cfg query) =
      (s', Ok scanned)"
    and res: "result = \<lparr>cr_messages = filter (satisfies (cq_filter query)) scanned, cr_scanned = length scanned\<rparr>"
    by (auto simp: consume_Ok_iff)
  have all: "filter (satisfies (cq_filter query)) scanned = scanned"
    using assms(9) by (auto simp: filter_id_conv satisfies_def is_zero_filter_def)
  have r: "cs_messages r = to_consumed_messages scanned" "cs_scanned r = length scanned"
    using rsp assms(5) res all by (auto simp: respond_json_def split: if_splits)
  with assms(10) obtain y ys where y: "scanned = y # ys" by (cases scanned) auto
  obtain m' w' where "s' = (m', w')" by force
  with rd y have cr: "client_read L w (scan_ctx clock cfg (m, w) c query) (read_request_of cfg query) = (w', Ok (y # ys))"
    by (auto dest: instrumented_Ok(2))
  have "\<exists>k. y = to_consumed_message k \<and> km_offset k = cq_offset query \<and> km_partition k = cq_partition query \<and>
      shows_record (to_record msg) k"
    using client_read_first [OF assms(1) cr, of "to_record msg"] assms(2,7,8) by (simp add: read_request_of_def)
  then obtain k where k: "y = to_consumed_message k" "km_offset k = cq_offset query" "km_partition k = cq_partition query"
    "shows_record (to_record msg) k" by blast
  note R = rendered_record [OF k(4)]
  have "cs_messages r = render_message y # map render_message ys"
    using r(1) y by (simp add: to_consumed_messages_def)
  then show ?thesis
    using k(1-3) R by (intro exI conjI) (assumption, simp_all add: to_consumed_message_def)
qed

end
