(* ===== verification/ClientView.thy ===== *)
theory ClientView
  imports ApiConsume ApiEncode
begin

text \<open>
  How a client reads a consume response: the members of a JSON object, and when an object shows a
  value, a key or a whole message. \<open>shown_value\<close> and \<open>shown_key\<close> hold of every message whose fields
  the handler encoded, \<open>consume_body_read\<close> of the bytes of the body.
\<close>

section \<open>What a message shows\<close>

definition member :: "string \<Rightarrow> json \<Rightarrow> json option" where
  "member name v = (case v of JObj ms \<Rightarrow> map_of (map (\<lambda>(n, raw, x). (n, x)) ms) name | _ \<Rightarrow> None)"

text \<open>The value of a message as the client finds it: the JSON value that was stored, or the bytes in
  base64 when what was stored is no JSON text.\<close>

definition shows_value :: "string \<Rightarrow> json \<Rightarrow> bool" where
  "shows_value b d \<longleftrightarrow>
     (if b = '''' then member ''value_encoding'' d = Some (JStr ''json'') \<and> member ''value'' d = Some JNull
      else if json_valid b
        then member ''value_encoding'' d = Some (JStr ''json'') \<and> member ''value'' d = Some (raw_value b)
      else member ''value_encoding'' d = Some (JStr ''base64'') \<and>
        (\<exists>s. member ''value'' d = Some (JStr s) \<and> b64_decode s = Some b))"

text \<open>The key: left out when it is empty, as it is when it is UTF-8, otherwise in base64.\<close>

definition shows_key :: "string \<Rightarrow> json \<Rightarrow> bool" where
  "shows_key b d \<longleftrightarrow>
     (if b = '''' then member ''key'' d = None \<and> member ''key_encoding'' d = None
      else if utf8_valid b
        then member ''key_encoding'' d = Some (JStr ''utf8'') \<and> member ''key'' d = Some (JStr b)
      else member ''key_encoding'' d = Some (JStr ''base64'') \<and>
        (\<exists>s. member ''key'' d = Some (JStr s) \<and> b64_decode s = Some b))"

definition shows_message :: "consumed_message \<Rightarrow> json \<Rightarrow> bool" where
  "shows_message m d \<longleftrightarrow>
     member ''partition'' d = Some (JNum (itoa (cm_partition m))) \<and>
     member ''offset'' d = Some (JNum (itoa (cm_offset m))) \<and>
     shows_key (bytes_str (cm_key m)) d \<and> shows_value (bytes_str (cm_value m)) d \<and>
     (\<exists>ts. member ''timestamp'' d = Some (JStr ts) \<and> parse_rfc3339 ts = Some (cm_timestamp m))"

lemma to_utf8_ascii: "\<forall>c \<in> set s. byte c < 128 \<Longrightarrow> to_utf8 s = s"
  by (intro to_utf8_valid utf8_valid_ascii)

lemma member_names [simp]:
  "to_utf8 ''partition'' = ''partition''" "to_utf8 ''offset'' = ''offset''" "to_utf8 ''key'' = ''key''"
  "to_utf8 ''key_encoding'' = ''key_encoding''" "to_utf8 ''value'' = ''value''"
  "to_utf8 ''value_encoding'' = ''value_encoding''" "to_utf8 ''headers'' = ''headers''"
  "to_utf8 ''timestamp'' = ''timestamp''" "to_utf8 ''json'' = ''json''" "to_utf8 ''base64'' = ''base64''"
  "to_utf8 ''topic'' = ''topic''" "to_utf8 ''count'' = ''count''" "to_utf8 ''scanned'' = ''scanned''"
  "to_utf8 ''messages'' = ''messages''"
  by (simp_all add: to_utf8_ascii)

lemma raw_value_null: "raw_value ''null'' = JNull"
  by code_simp

lemma encoding_names:
  "to_utf8 encoding_json = ''json''" "to_utf8 encoding_base64 = ''base64''" "to_utf8 encoding_utf8 = ''utf8''"
  "encoding_utf8 \<noteq> ''''" "encoding_base64 \<noteq> ''''"
  by (simp_all add: encoding_defs to_utf8_ascii)

lemma to_utf8_b64: "to_utf8 (b64_encode s) = b64_encode s"
  using b64_encode_plain [of s] by (intro to_utf8_ascii) (auto simp: plain_char_def)

lemma shown_value:
  assumes "(cj_value x, cj_value_encoding x) = encode_value b"
  shows "shows_value (bytes_str b) (doc_value (consumed_doc x))"
proof -
  have "cj_value x = fst (encode_value b)" "cj_value_encoding x = snd (encode_value b)"
    using assms by (simp_all flip: assms)
  then show ?thesis unfolding shows_value_def
    by (auto simp: consumed_doc_def unless_empty_def member_def encode_value_def bytes_len_0_iff encoding_names
        raw_value_null plain_raw_value b64_encode_plain b64_decode_encode)
qed

lemma shown_key:
  assumes "(cj_key x, cj_key_encoding x) = encode_key b"
  shows "shows_key (bytes_str b) (doc_value (consumed_doc x))"
proof -
  have "cj_key x = fst (encode_key b)" "cj_key_encoding x = snd (encode_key b)"
    using assms by (simp_all flip: assms)
  then show ?thesis unfolding shows_key_def
    by (auto simp: consumed_doc_def unless_empty_def member_def encode_key_def bytes_len_0_iff encoding_names
        to_utf8_valid to_utf8_b64 b64_decode_encode b64_encode_Nil_iff)
qed

lemma rendered_encodings:
  "(cj_value (render_message m), cj_value_encoding (render_message m)) = encode_value (cm_value m)"
  "(cj_key (render_message m), cj_key_encoding (render_message m)) = encode_key (cm_key m)"
  by (simp_all add: rendered_fields)

lemma shown_message:
  assumes "year_in_range (cm_timestamp m)"
  shows "shows_message m (doc_value (consumed_doc (render_message m)))"
proof -
  have "parse_rfc3339 (format_rfc3339 (cm_timestamp m)) = Some (cm_timestamp m)"
    using assms by (intro parse_format) (auto simp: year_in_range_def)
  then show ?thesis
    using shown_value [OF rendered_encodings(1) [of m]] shown_key [OF rendered_encodings(2) [of m]]
    unfolding shows_message_def by (auto simp: consumed_doc_def unless_empty_def member_def)
qed

section \<open>The bytes of a response\<close>

lemma consume_body_read:
  assumes "shallow (PConsume r)"
  shows "\<exists>v. parse_json (body_text lib secs (PConsume r)) = POk v [CHR 0x0A] \<and>
    member ''count'' (canon v) = Some (JNum (itoa (int (cs_count r)))) \<and>
    member ''messages'' (canon v) = Some (JArr (map doc_value (map consumed_doc (cs_messages r))))"
proof -
  have "fits (consume_doc r) 0"
    using payload_fits [of lib "\<lambda>u. ''0''" "PConsume r" "consume_doc r"] assms
    by (simp add: payload_doc_def scan_number_def int_part_def frac_part_def exp_part_def)
  then obtain v where "parse_json (body_text lib secs (PConsume r)) = POk v [CHR 0x0A]"
      "canon v = doc_value (consume_doc r)"
    using encoded_reads_back by (auto simp: body_text_def payload_doc_def)
  then show ?thesis by (intro exI [of _ v]) (simp add: member_def consume_doc_def)
qed

end
