(* ===== verification/ResponseProps.thy ===== *)
theory ResponseProps
  imports ApiProps ClientView
begin

text \<open>
  What a client gets: the bytes of a response (\<open>ApiEncode\<close>) read again by a JSON parser, for errors
  and, message by message, for the consume handler; and the instants a response shows, sent back as
  query parameters. \<open>payload_reads_back\<close> in \<open>ApiEncode\<close> is the general statement for every response.
\<close>

section \<open>Headers\<close>

text \<open>Header values have no such encoding: bytes that are no UTF-8 are replaced, and two headers that
  differ only in them look the same.\<close>

lemma header_bytes_lost:
  "doc_value (headers_doc [(''h'', [CHR 0xFE])]) = doc_value (headers_doc [(''h'', [CHR 0xFF])])"
  by (simp add: headers_doc_def to_utf8.simps(2) utf8_len_def)

section \<open>Bodies\<close>

text \<open>C25: An error response can always be read, whatever the error says (a topic name with quotes, bytes
  that are no UTF-8): its body is one JSON object with the member \<open>error\<close>, which has the code of the
  error's class and its text.\<close>

theorem error_envelope_readable:
  "\<exists>p v e. rp_body (write_error err) = Some p \<and> parse_json (body_text lib secs p) = POk v [CHR 0x0A] \<and>
     member ''error'' (canon v) = Some e \<and> member ''code'' e = Some (JStr (snd (classify err))) \<and>
     member ''message'' e = Some (JStr (to_utf8 (message_text lib (error_text err))))"
proof -
  let ?d = "error_doc lib (snd (classify err)) (error_text err)"
  have "fits ?d 0" by (simp add: error_doc_def)
  then obtain v where "parse_json (encoded ?d) = POk v [CHR 0x0A]" "canon v = doc_value ?d"
    using encoded_reads_back by blast
  moreover have "to_utf8 (snd (classify err)) = snd (classify err)" by (simp add: classify_def to_utf8_ascii)
  ultimately show ?thesis
    by (simp add: body_text_def payload_doc_def error_doc_def member_def to_utf8_ascii)
qed

text \<open>C4: What a client of the consume endpoint reads. In the body of a successful response there is one
  object for every message the use case gave, in its order, with the message's partition, offset,
  key and instant; its value is the stored value itself when that is JSON (\<open>null\<close> when it is empty),
  and otherwise decodes from base64 to the stored bytes. White space and the escapes the encoder
  adds change nothing of it.\<close>

theorem consumed_messages_readable:
  assumes "consume_handler consumer s c topic q = (s', Ok rsp)" and "rp_status rsp = 200"
    and "rp_body rsp = Some (PConsume r)" and "shallow (PConsume r)"
  shows "\<exists>query result v docs. parse_consume_query topic q = Ok query \<and> consumer s c query = (s', Ok result) \<and>
    parse_json (body_text lib secs (PConsume r)) = POk v [CHR 0x0A] \<and>
    member ''count'' (canon v) = Some (JNum (itoa (int (length docs)))) \<and>
    member ''messages'' (canon v) = Some (JArr docs) \<and> list_all2 shows_message (cr_messages result) docs"
proof -
  obtain query result where q: "parse_consume_query topic q = Ok query" "consumer s c query = (s', Ok result)"
    and rsp: "rsp = respond_json 200
      (PConsume \<lparr>cs_topic = topic, cs_partition = cq_partition query, cs_count = length (cr_messages result),
                 cs_scanned = cr_scanned result, cs_messages = to_consumed_messages (cr_messages result)\<rparr>)"
    using assms(1) unfolding consume_handler_200_iff [OF assms(2)] by blast
  have r: "cs_messages r = to_consumed_messages (cr_messages result)" "cs_count r = length (cr_messages result)"
    and enc: "encodable (PConsume r)"
    using rsp assms(3) by (auto simp: respond_json_def split: if_splits)
  define docs where "docs = map doc_value (map consumed_doc (cs_messages r))"
  obtain v where v: "parse_json (body_text lib secs (PConsume r)) = POk v [CHR 0x0A]"
    "member ''count'' (canon v) = Some (JNum (itoa (int (cs_count r))))" "member ''messages'' (canon v) = Some (JArr docs)"
    using consume_body_read [OF assms(4)] by (auto simp: docs_def)
  have "\<forall>m \<in> set (cr_messages result). year_in_range (cm_timestamp m)"
    using enc r(1) by (simp add: encodable_def list_all_iff to_consumed_messages_def)
  then have "list_all2 shows_message (cr_messages result) docs"
    unfolding docs_def r(1) to_consumed_messages_def list_all2_conv_all_nth by (auto intro: shown_message)
  moreover have "length docs = length (cr_messages result)" by (simp add: docs_def r(1) to_consumed_messages_def)
  ultimately show ?thesis using q v r(2)
    by (intro exI [of _ query] exI [of _ result] exI [of _ v] exI [of _ docs]) simp
qed

definition demo_stored :: consumed_message where
  "demo_stored = \<lparr>cm_partition = 0, cm_offset = 5, cm_key = None, cm_value = Some ''{ }'', cm_headers = [], cm_timestamp = 0\<rparr>"

definition demo_source :: "nat message_consumer" where
  "demo_source s c query = (s, Ok \<lparr>cr_messages = [demo_stored], cr_scanned = 1\<rparr>)"

definition demo_consumed :: consume_response where
  "demo_consumed = \<lparr>cs_topic = ''t'', cs_partition = 0, cs_count = 1, cs_scanned = 1,
     cs_messages = to_consumed_messages [demo_stored]\<rparr>"

lemma demo_consumed_ready: "encodable (PConsume demo_consumed)" "shallow (PConsume demo_consumed)"
proof -
  have "json_valid ''{ }''" "json_fits 3 ''{ }''" by code_simp+
  then show "encodable (PConsume demo_consumed)" "shallow (PConsume demo_consumed)"
    by (simp_all add: encodable_def shallow_def demo_consumed_def to_consumed_messages_def demo_stored_def
        encode_value_def year_in_range_def ns_per_sec_def)
qed

theorem consumed_messages_readable_witness:
  "\<exists>v d. parse_json (body_text (\<lambda>a. '''') (\<lambda>u. ''0'') (PConsume demo_consumed)) = POk v [CHR 0x0A] \<and>
     member ''messages'' (canon v) = Some (JArr [d]) \<and> member ''value'' d = Some (JObj [])"
proof -
  let ?q = "only_parameter ''partition'' [''0'']"
  have n: "parse_int64 ''0'' = Some 0" by code_simp
  have query: "parse_consume_query ''t'' ?q = Ok (plain_query ''t'' 0)" by (rule parse_only_partition [OF n]) simp
  then have "consume_handler demo_source (0 :: nat) \<lparr>ctx_deadline = None\<rparr> ''t'' ?q =
      (0, Ok (respond_json 200 (PConsume demo_consumed)))"
    by (simp add: consume_handler_def demo_source_def demo_consumed_def plain_query_def)
  from consumed_messages_readable [OF this _ _ demo_consumed_ready(2), of "\<lambda>a. ''''" "\<lambda>u. ''0''"]
  obtain result v docs where 1: "demo_source (0 :: nat) \<lparr>ctx_deadline = None\<rparr> (plain_query ''t'' 0) = (0, Ok result)"
    and v: "parse_json (body_text (\<lambda>a. '''') (\<lambda>u. ''0'') (PConsume demo_consumed)) = POk v [CHR 0x0A]"
      "member ''messages'' (canon v) = Some (JArr docs)" "list_all2 shows_message (cr_messages result) docs"
    using demo_consumed_ready(1) query by (auto simp: respond_json_def)
  from 1 v(3) obtain d where d: "docs = [d]" "shows_message demo_stored d"
    by (auto simp: demo_source_def list_all2_Cons1)
  have "json_valid ''{ }''" "raw_value ''{ }'' = JObj []" by code_simp+
  with d(2) have "member ''value'' d = Some (JObj [])" by (simp add: shows_message_def shows_value_def demo_stored_def)
  with v d(1) show ?thesis by blast
qed



end
