(* ===== verification/Spec2Isabelle.thy ===== *)
theory Spec2Isabelle
  imports Observation RoundTrip ResponseProps
begin

text \<open>
  Verification of kafka-rest-api, an HTTP gateway in front of Apache Kafka written in Go. Clients
  publish messages, read a bounded window of a partition, list and describe topics, and probe the
  health of the gateway; the gateway speaks to the brokers through the library kafka-go.

  The program and its parts. A request passes the router (\<open>internal/api/router.go\<close>): request id,
  access log, metrics, panic recovery, and for everything under \<open>/topics\<close> the JWT guard
  (\<open>internal/middleware\<close>). A handler (\<open>internal/api\<close>) parses it and calls a use case
  (\<open>internal/service\<close>), which validates it and calls an interface; behind the interface are the
  metrics decorators (\<open>internal/metrics\<close>) and the Kafka adapter (\<open>internal/kafka\<close>). Errors travel
  back wrapped and are classified into a status. \<open>cmd/server/main.go\<close> builds all of it from a
  configuration (\<open>internal/config\<close>).

  Theories, in the order of their imports.

  \<^item> \<open>Prelude\<close>: byte slices, 64-bit wrap-around and saturation, the collection \<open>go_simps\<close>.
    \<open>GoErrors\<close>: Go error values, wrapping, \<open>errors.Is\<close> and \<open>errors.As\<close>, outcomes (a value, an error
    or a panic) and their sequencing \<open>and_then\<close> and \<open>try_then\<close>.
  \<^item> \<open>GoText\<close>, \<open>GoTime\<close>, \<open>GoEncoding\<close>, \<open>GoJson\<close>: what the program uses of \<open>strings\<close>, \<open>strconv\<close>,
    \<open>time\<close>, \<open>encoding/base64\<close>, \<open>unicode/utf8\<close> and the reading half of \<open>encoding/json\<close>. \<open>GoCompact\<close>,
    \<open>GoCompactValue\<close> and \<open>GoJsonWrite\<close>: its writing half, with the proof that what is written reads back as
    the same value; \<open>GoTimeFormat\<close>: writing an instant, and its round trip through the parser.
  \<^item> \<open>ServiceTypes\<close>: the structs of \<open>internal/service\<close> and its interfaces; the contracts of
    \<open>Producer\<close>, \<open>MessageReader\<close> and \<open>TopicAdmin\<close> are the locales \<open>producer_iface\<close>, \<open>reader_iface\<close> and
    \<open>admin_iface\<close>. \<open>Publisher\<close>, \<open>Consumer\<close>, \<open>TopicHealth\<close>: the use cases of \<open>publisher.go\<close>,
    \<open>consumer.go\<close>, \<open>topic.go\<close> and \<open>health.go\<close>; their lemmas over an interface are proved in its locale.
  \<^item> \<open>KafkaLib\<close>: kafka-go as the parameter \<open>kafka_lib\<close>. \<open>KafkaWriter\<close> (\<open>writer.go\<close>), \<open>KafkaSync\<close>
    (\<open>syncproducer.go\<close>), \<open>KafkaClient\<close> (\<open>client.go\<close>): the adapter, which interprets the three
    interfaces. \<open>KafkaSecurity\<close>: \<open>security.go\<close> and the constructors.
  \<^item> \<open>ApiCore\<close> (\<open>errors.go\<close>, \<open>respond.go\<close>, the response bodies), \<open>ApiParams\<close> (\<open>params.go\<close>),
    \<open>ApiPublish\<close>, \<open>ApiConsume\<close>, \<open>ApiAdmin\<close> (\<open>topics.go\<close>, \<open>health.go\<close>): the handlers. \<open>ApiEncode\<close>: the
    JSON document of every response struct by its field tags, and the bytes of a body. \<open>ClientView\<close>:
    what a JSON parser finds in the bytes of a consume response.
  \<^item> \<open>Metrics\<close>: collectors, decorators and HTTP middleware; the decorated adapter interprets the
    interfaces again (in \<open>Server\<close>). \<open>Config\<close>: loading and validation, and the logger's level.
  \<^item> \<open>Jwks\<close> (\<open>jwks.go\<close>): the key cache for one goroutine, and as a step relation for any number of
    them. \<open>Auth\<close> (\<open>auth.go\<close>, \<open>keyfunc.go\<close>), \<open>Router\<close> (\<open>router.go\<close>, \<open>logging.go\<close>), \<open>Server\<close>
    (\<open>main.go\<close>): the guard, the routes and the wiring. \<open>ServerRun\<close>: the start of the process, and
    its life as a step relation of the main goroutine, the listener and the requests.
  \<^item> \<open>Broker\<close>: an in-memory instance of the library that satisfies everything assumed of it.
    \<open>RoundTrip\<close> and \<open>Observation\<close>: lemmas across components.
  \<^item> \<open>ServiceProps\<close>, \<open>KafkaProps\<close>, \<open>ApiProps\<close>, \<open>AuthProps\<close>, \<open>ConfigProps\<close>, \<open>ServerProps\<close>,
    \<open>ResponseProps\<close> and this theory: the properties, each numbered \<open>C\<close> with its statement in words, and their witnesses.

  How the model reads. Stateful code is a function from a state to a state and an outcome; the
  state is a type variable wherever the code only passes it on. A Go \<open>int\<close> is \<open>int\<close> with the 64-bit
  wrap-around written out where arithmetic can reach it; a string is a list of bytes; a map is an
  association list, and where Go ranges over one in an arbitrary order the order is a parameter.
  Loops are structural recursions over the collection they range over, or over the number of
  rounds that are left (\<open>write_loop\<close>: at most five attempts; \<open>read_loop\<close>: at most the limit), so
  they are total and need no fuel. The JSON parser is recursive in fuel: \<open>parse_json\<close> gives it
  one unit more than twice the length of the text, and \<open>parse_json_fuel\<close> shows that more fuel never
  changes the result. A response is kept as the value the handler encodes (\<open>payload\<close>), with the
  condition under which the encoder succeeds (\<open>encodable\<close>); \<open>body_text\<close> gives its bytes.

  What the properties show.

  \<^item> Publishing: a batch is validated before anything is sent, reported coordinates are where the
    records are and what is read back from there is what was published; the batched writer makes at
    most five attempts and succeeds only on an acknowledgement.
  \<^item> Consuming: the answer is the filtered window, within the configured bounds; a read returns what
    the library delivered from the requested position and always closes its reader.
  \<^item> Responses: the bytes of a consume response, read by a JSON parser, show every message with its
    coordinates, key, value and instant; an error response is readable whatever the error says; an
    instant that was shown is understood when it is sent back.
  \<^item> Security: nothing under \<open>/topics\<close> reaches Kafka without an accepted token, a key is never used
    that the endpoint did not publish, algorithms and kinds of key belong together, and a client with
    security settings never connects without them.
  \<^item> Concurrency of the key cache: an invariant of every interleaving, the refinement of the
    sequential code by the step relation, and the end of every lookup.
  \<^item> Operation: a configuration that loads builds a server; every problem of it is reported at once;
    every request is logged and counted once; the decorators change no result, and the metrics have
    the series they are declared with and no more for Kafka; a process that is told to stop answers
    what it has begun, closes the producer and ends, and its exit status says why.
  \<^item> Three properties state behaviour that is not what a comment or a document says: a failed batch
    that is partly stored, the status of an invalid query, refreshes while the endpoint fails.

  What is assumed of code outside the repository is written in the statements: \<open>appends_log\<close>,
  \<open>keeps_log\<close> and \<open>reads_log\<close> (an acknowledged produce request stores its records at consecutive
  offsets from the base offset; records are not removed in between; a reader delivers the records
  from its place on), \<open>ranges_once\<close> (ranging over a map visits each key once), \<open>chi_transparent\<close>,
  \<open>quiet_pages\<close> and \<open>outside_ok\<close> (files and credentials that exist, a registry that takes collectors
  with names of their own), and in the steps of \<open>ServerRun\<close> what \<open>net/http\<close> documents of \<open>Shutdown\<close>. The in-memory broker and the
  runtime of \<open>ServerProps\<close> satisfy them.

  Not modelled: log records other than the access log, the embedded OpenAPI file and the Swagger UI
  (parameters), the Prometheus registry behind \<open>MustRegister\<close> (a parameter) with its text format,
  help texts and bucket boundaries, the socket and the clock of \<open>http.Server\<close> (signals, the end of
  the listener and of a shutdown are steps of the environment), interleavings inside two Kafka
  handlers (a handler is one step of \<open>ServerRun\<close>), the text of a \<open>float64\<close> uptime and of \<open>%q\<close>,
  durations and Kafka errors inside an error message (parameters of \<open>body_text\<close>), and the option
  setters of the key cache, which only tests use.
\<close>

section \<open>Publishing\<close>


definition demo_sync_response :: "(metrics \<times> broker) \<times> response outcome" where
  "demo_sync_response =
     publish_batch_handler (publish_batch (instrumented_produce bk_clock (sync_produce broker_lib RequireAll))) id 100 5
       (new_metrics, demo_broker) no_deadline ''orders'' one_value_body"



definition demo_read_back :: "(metrics \<times> broker) \<times> response outcome" where
  "demo_read_back =
     consume_handler (consume (instrumented_read bk_clock (client_read broker_lib)) (\<lambda>s. 0) demo_limits)
       (fst demo_sync_response) no_deadline ''orders'' (only_parameter ''offset'' [''0''])"


text \<open>C34: In either produce mode the answer to an accepted batch counts the messages of the request, and
  gives no coordinates at all or one for each message.\<close>

theorem response_offsets_shape:
  assumes "new_producer R cfg sec = Ok produce"
    and "publish_batch_handler (publish_batch (instrumented_produce now produce)) ord mx mb s c topic body = (s', Ok rsp)"
    and "rp_status rsp = 200"
  shows "\<exists>reqs pu. decode_body decode_batch mx body = Ok reqs \<and> rp_body rsp = Some (PPublish pu) \<and>
    pu_published pu = length reqs \<and> (pu_offsets pu = [] \<or> length (pu_offsets pu) = length reqs)"
proof -
  from assms(2) obtain reqs msgs rs where d: "decode_body decode_batch mx body = Ok reqs"
    and t: "to_messages ord 0 reqs = Ok msgs"
    and p: "publish_batch (instrumented_produce now produce) s c topic msgs = (s', Ok rs)"
    and rsp: "rsp = respond_json 200
      (PPublish \<lparr>pu_topic = topic, pu_published = length msgs, pu_offsets = to_offsets rs\<rparr>)"
    by (auto simp: publish_batch_handler_200_iff [OF assms(3)])
  from new_producer_batch_results [OF assms(1) p] to_messages_length [OF t] d rsp show ?thesis
    by (auto simp: to_offsets_map)
qed

theorem response_offsets_shape_witness:
  "\<exists>reqs pu. decode_body decode_batch 100 one_value_body = Ok reqs \<and>
     (\<exists>rsp. snd demo_sync_response = Ok rsp \<and> rp_body rsp = Some (PPublish pu)) \<and>
     (pu_offsets pu = [] \<or> length (pu_offsets pu) = length reqs)"
proof -
  obtain cfg sec where p: "new_producer demo_runtime cfg sec = Ok (sync_produce broker_lib RequireAll)"
    using demo_producer by blast
  have "case snd demo_sync_response of Ok rsp \<Rightarrow> rp_status rsp = 200 | _ \<Rightarrow> False"
    unfolding demo_sync_response_def by code_simp
  then obtain rsp where r: "snd demo_sync_response = Ok rsp" "rp_status rsp = 200"
    by (auto split: outcome.splits)
  then have run: "publish_batch_handler (publish_batch (instrumented_produce bk_clock (sync_produce broker_lib RequireAll))) id 100 5
       (new_metrics, demo_broker) no_deadline ''orders'' one_value_body = (fst demo_sync_response, Ok rsp)"
    by (simp add: prod_eq_iff flip: demo_sync_response_def)
  from response_offsets_shape [OF p run r(2)] r(1) show ?thesis by blast
qed

section \<open>Consuming\<close>

text \<open>C7: A consume answer, end to end through the handler, the use case, the metrics and the Kafka
  client: it counts its messages, they are the scanned messages that satisfy the filter of the
  query, and no more than the configured maximum was scanned, whatever limit the client asked for.\<close>

theorem consume_response_bounded:
  assumes "consume_handler (consume (instrumented_read now (client_read L)) clock cfg) s c topic q = (s', Ok rsp)"
    and "rp_status rsp = 200" and "rp_body rsp = Some (PConsume r)"
  shows "\<exists>query scanned. parse_consume_query topic q = Ok query \<and> valid_query query \<and>
    instrumented_read now (client_read L) s (scan_ctx clock cfg s c query) (read_request_of cfg query) = (s', Ok scanned) \<and>
    cs_messages r = to_consumed_messages (filter (satisfies (cq_filter query)) scanned) \<and>
    cs_count r = length (cs_messages r) \<and> cs_scanned r = length scanned \<and>
    int (cs_scanned r) \<le> cc_max_limit cfg"
proof -
  from assms(1) obtain query result where qu: "parse_consume_query topic q = Ok query"
    and co: "consume (instrumented_read now (client_read L)) clock cfg s c query = (s', Ok result)"
    and rsp: "rsp = respond_json 200
      (PConsume \<lparr>cs_topic = topic, cs_partition = cq_partition query,
                 cs_count = length (cr_messages result), cs_scanned = cr_scanned result,
                 cs_messages = to_consumed_messages (cr_messages result)\<rparr>)"
    by (auto simp: consume_handler_200_iff [OF assms(2)])
  from rsp assms(3) have r: "r = \<lparr>cs_topic = topic, cs_partition = cq_partition query,
      cs_count = length (cr_messages result), cs_scanned = cr_scanned result,
      cs_messages = to_consumed_messages (cr_messages result)\<rparr>"
    by (auto simp: respond_json_def split: if_splits)
  from co obtain scanned where v: "valid_query query"
    and rd: "instrumented_read now (client_read L) s (scan_ctx clock cfg s c query) (read_request_of cfg query) = (s', Ok scanned)"
    and res: "result = \<lparr>cr_messages = filter (satisfies (cq_filter query)) scanned, cr_scanned = length scanned\<rparr>"
    by (auto simp: consume_Ok_iff)
  from metered_reader.consume_bounded(2) [OF co] have "int (cr_scanned result) \<le> cc_max_limit cfg" .
  with qu v rd res r show ?thesis by (auto simp: to_consumed_messages_def)
qed

definition demo_consume_response :: "(metrics \<times> broker) \<times> response outcome" where
  "demo_consume_response =
     consume_handler (consume (instrumented_read bk_clock (client_read broker_lib)) (\<lambda>s. 0) demo_limits)
       (new_metrics, demo_after) no_deadline ''orders'' (\<lambda>_. [])"

theorem consume_response_bounded_witness:
  "\<exists>rsp r. snd demo_consume_response = Ok rsp \<and> rp_body rsp = Some (PConsume r) \<and> cs_count r = length (cs_messages r) \<and>
     cs_scanned r = 2"
proof -
  have "case snd demo_consume_response of
      Ok rsp \<Rightarrow> rp_status rsp = 200 \<and> (case rp_body rsp of Some (PConsume r) \<Rightarrow> cs_scanned r = 2 | _ \<Rightarrow> False)
    | _ \<Rightarrow> False"
    unfolding demo_consume_response_def by code_simp
  then obtain rsp r where r: "snd demo_consume_response = Ok rsp" "rp_status rsp = 200"
    "rp_body rsp = Some (PConsume r)" "cs_scanned r = 2"
    by (auto split: outcome.splits option.splits payload.splits)
  then have run: "consume_handler (consume (instrumented_read bk_clock (client_read broker_lib)) (\<lambda>s. 0) demo_limits)
       (new_metrics, demo_after) no_deadline ''orders'' (\<lambda>_. []) = (fst demo_consume_response, Ok rsp)"
    by (simp add: prod_eq_iff flip: demo_consume_response_def)
  from consume_response_bounded [OF run r(2,3)] have "cs_count r = length (cs_messages r)" by blast
  with r show ?thesis by blast
qed

section \<open>Authentication\<close>

text \<open>C3: With authentication enabled, no request under \<open>/topics\<close> touches Kafka without a token that the
  JWT library accepted with the configured key source: a request without a bearer token, or with
  one the library rejects, is answered with 401 and leaves the cluster as it was, whether a route
  matches it or not; so does one on which the library panics, apart from the answer.\<close>

theorem topic_routes_guarded:
  assumes "wire R cfg started = Ok (h, j, m)" and "ac_enabled (cf_auth cfg)" and "chi_transparent (rn_chi R)"
    and "under_topics (rn_chi R) req"
  shows "\<exists>src algs. key_source_of R (cf_auth cfg) = Ok (src, algs) \<and>
    (case bearer_token req of
       Inr msg \<Rightarrow> refused a (h a req)
     | Inl raw \<Rightarrow>
         (case snd (rn_parse_jwt R (parser_options (jwt_config_of (cf_auth cfg) algs))
                     (source_keyfunc (rn_http R) src) (ap_auth a) raw) of
            Ok sub \<Rightarrow> True
          | Err e \<Rightarrow> refused a (h a req)
          | Panic p \<Rightarrow> ap_world (fst (h a req)) = ap_world a))"
proof -
  obtain src algs rh where src: "key_source_of R (cf_auth cfg) = Ok (src, algs)"
    and w: "ap_world (fst (h a req)) = ap_world (fst (auth_middleware R (jwt_config_of (cf_auth cfg) algs) src rh a req))"
    and k: "\<And>rsp. snd (auth_middleware R (jwt_config_of (cf_auth cfg) algs) src rh a req) = Ok rsp \<Longrightarrow> snd (h a req) = Ok rsp"
    using guarded_request [OF assms, of a] by blast
  show ?thesis
  proof (cases "bearer_token req")
    case (Inr msg)
    note no = auth_middleware_no_token [OF Inr, of R "jwt_config_of (cf_auth cfg) algs" src rh a]
    have "refused a (h a req)" using w k no by (simp add: refused_def)
    with src Inr show ?thesis by auto
  next
    case (Inl raw)
    obtain st x where x: "rn_parse_jwt R (parser_options (jwt_config_of (cf_auth cfg) algs))
        (source_keyfunc (rn_http R) src) (ap_auth a) raw = (st, x)" by (metis surj_pair)
    show ?thesis
    proof (cases x)
      case (Ok sub)
      with src Inl x show ?thesis by auto
    next
      case (Err e)
      note rj = auth_middleware_rejected [OF Inl x [unfolded Err], of rh]
      have "refused a (h a req)" using w k rj by (simp add: refused_def)
      with src Inl x Err show ?thesis by auto
    next
      case (Panic p)
      note pn = auth_middleware_panicked [OF Inl x [unfolded Panic], of rh]
      have "ap_world (fst (h a req)) = ap_world a" using w pn by simp
      with src Inl x Panic show ?thesis by auto
    qed
  qed
qed

theorem topic_routes_guarded_witness:
  "\<exists>cfg h j m. load_config demo_env = Ok cfg \<and> wire demo_runtime cfg 0 = Ok (h, j, m) \<and>
     (\<forall>a. refused a (h a unauthenticated_publish))"
proof -
  obtain cfg where l: "load_config demo_env = Ok cfg" and en: "ac_enabled (cf_auth cfg)" using demo_loads by blast
  then have "valid_config cfg" by (simp add: load_config_Ok_iff)
  from wire_builds [OF this demo_outside_ok] obtain h j m where w: "wire demo_runtime cfg 0 = Ok (h, j, m)" by force
  have route: "under_topics (rn_chi demo_runtime) unauthenticated_publish"
    by (simp add: under_topics_def server_routes_def demo_runtime_def demo_chi_def unauthenticated_publish_def)
  have "refused a (h a unauthenticated_publish)" for a
    using topic_routes_guarded [OF w en demo_chi_transparent route, of a]
    by (simp add: bearer_token_def header_get_def unauthenticated_publish_def)
  with l w show ?thesis by blast
qed


lemma demo_parse_accepts:
  "demo_parse opts kf st raw = (st', Ok sub) \<Longrightarrow> \<exists>kid k. kf st kid = (st', Ok k) \<and> (raw = ''good'' \<or> k = SecretKey raw)"
  by (auto simp: demo_parse_def split: prod.splits outcome.splits verification_key.splits if_splits intro!: exI [of _ "Some ''k1''"])


section \<open>Observation\<close>

text \<open>C21: Every request is accounted for exactly once, whatever handler answers it, also when it is refused,
  finds no route or panics: one record in the access log, when the level lets it through, with the
  method, the path, the peer and the id of the request and the status and the number of bytes of the
  answer; and one more in the request counter, under the
  method, the route pattern (\<open>unmatched\<close> when there is none) and the status (200 when none was
  written). No other label of the counter moves.\<close>

theorem every_request_observed:
  assumes "wire R cfg started = Ok (h, j, m)" and "chi_transparent (rn_chi R)" and "quiet_pages R"
    and "h a req = (a', r)"
  shows "(\<exists>e. ap_log a' = ap_log a @ (if log_enabled (lc_level (cf_log cfg)) LevelInfo then [e] else []) \<and>
      le_method e = hq_method req \<and> le_path e = hq_path req \<and> le_remote_addr e = hq_remote_addr req \<and>
      le_request_id e = chi_get_req_id (rn_chi R) req \<and> le_status e = written_status r \<and>
      le_bytes e = written_bytes (rn_atom_text R) (rn_uptime_text R) r) \<and>
    (\<forall>labels. http_requests (ap_metrics a') labels = http_requests (ap_metrics a) labels +
       (if labels = [hq_method req, if chi_pattern (rn_chi R) req = '''' then ''unmatched'' else chi_pattern (rn_chi R) req,
          itoa (if written_status r = 0 then 200 else written_status r)] then 1 else 0))"
proof -
  obtain produce L auth where h: "h = router_handler (rn_chi R) (app_router_config R cfg started produce L auth)"
    and na: "new_auth R (cf_auth cfg) = Ok (auth, j)" by (rule wire_Ok [OF assms(1)])
  from request_observed [OF assms(3) na assms(2) assms(4) [unfolded h]] show ?thesis
    by (auto simp: add_count_def access_record_def)
qed

theorem every_request_observed_witness:
  "\<exists>cfg h j m. load_config demo_env = Ok cfg \<and> wire demo_runtime cfg 0 = Ok (h, j, m) \<and>
     (\<forall>a. length (ap_log (fst (h a unauthenticated_publish))) = Suc (length (ap_log a)))"
proof -
  obtain cfg where l: "load_config demo_env = Ok cfg" using demo_loads by blast
  then have "valid_config cfg" by (simp add: load_config_Ok_iff)
  from wire_builds [OF this demo_outside_ok] obtain h j m where w: "wire demo_runtime cfg 0 = Ok (h, j, m)" by force
  have "length (ap_log (fst (h a unauthenticated_publish))) = Suc (length (ap_log a))" for a
  proof -
    obtain a' r where r: "h a unauthenticated_publish = (a', r)" by force
    from every_request_observed [OF w demo_chi_transparent demo_quiet_pages r] demo_logs [OF l] r show ?thesis by auto
  qed
  with l w show ?thesis by blast
qed

section \<open>Starting\<close>



section \<open>Running\<close>

text \<open>C22: From the start of the program on, whatever requests it serves, every series of its metrics
  has as many label values as its collector declares labels (the library panics when they differ, so
  no request is brought down by the instrumentation around it), and the Kafka metrics have no series
  but those of the four operations and two statuses: no topic, however many there are, adds one.\<close>

theorem metrics_series_fit:
  assumes "start_server R env started w = (w', Ok (cfg, srv, j, m))"
    and "chi_transparent (rn_chi R)" and "quiet_pages R"
    and "runs (hs_handler srv) (close_producer R (cf_kafka cfg))
      (initial_process \<lparr>ap_log = [], ap_metrics = m, ap_auth = (j, endpoint), ap_world = w'\<rparr>) p"
  shows "well_labelled (ap_metrics (pr_app p)) \<and> kafka_bounded (ap_metrics (pr_app p))"
  using process_metrics_inv [OF assms] by (simp add: metrics_inv_def)

theorem metrics_series_fit_witness:
  "\<exists>cfg srv j m. start_server demo_runtime demo_env 0 demo_broker = (demo_broker, Ok (cfg, srv, j, m)) \<and>
     (let a = \<lparr>ap_log = [], ap_metrics = m, ap_auth = (j, 0), ap_world = demo_broker\<rparr>;
          m' = ap_metrics (fst (hs_handler srv a unauthenticated_publish))
      in well_labelled m' \<and> kafka_bounded m')"
proof -
  obtain cfg srv j m where s: "start_server demo_runtime demo_env 0 demo_broker = (demo_broker, Ok (cfg, srv, j, m))"
    using demo_started by blast
  let ?a = "\<lparr>ap_log = [], ap_metrics = m, ap_auth = (j, 0), ap_world = demo_broker\<rparr>"
  obtain a' r where h: "hs_handler srv ?a unauthenticated_publish = (a', r)" by force
  obtain p where p: "runs (hs_handler srv) (close_producer demo_runtime (cf_kafka cfg)) (initial_process ?a) p"
    "pr_app p = a'" using one_request_runs [where h = "hs_handler srv" and a = ?a, OF h] by blast
  from metrics_series_fit [OF s demo_chi_transparent demo_quiet_pages p(1)] p(2)
  have "well_labelled (ap_metrics a') \<and> kafka_bounded (ap_metrics a')" by simp
  with s h show ?thesis by (auto simp: Let_def)
qed





end
